(* ===== verification/Kuery_Prelude.thy ===== *)
theory Kuery_Prelude
  imports Main "HOL-Library.Word" "HOL-Library.Char_ord" "HOL-Library.List_Lexorder"
begin

text \<open>
  Shared vocabulary of the development: the parts of the Go language and of its
  packages \<open>strings\<close>, \<open>strconv\<close>, \<open>fmt\<close> and \<open>sort\<close> that the sources use, the error
  values of the engine, the arguments bound to SQL placeholders, and the generic
  lemmas the components rest on.

  A Go string is a list of bytes, so \<^typ>\<open>string\<close>. The functions of package
  \<open>strings\<close> are only used with one-byte separators; \<open>ToLower\<close>, \<open>EqualFold\<close> and
  \<open>TrimSpace\<close> are modelled on ASCII, the alphabet of Kubernetes identifiers.
  A Go map is an association list whose order is the iteration order that the
  run-time happened to choose, so a theorem for every such list is a theorem for
  every iteration order; its keys are distinct where a property needs it.
\<close>

named_theorems go_defs \<open>definitions of the Go string functions\<close>
named_theorems qmarks_simps \<open>placeholder counts of generated SQL\<close>

type_synonym int32 = "32 word"
type_synonym int64 = "64 word"
type_synonym gotime = int
type_synonym 'v gomap = "(string \<times> 'v) list"

subsection \<open>Error values\<close>

text \<open>One constructor for each error the sources build; \<open>Wrapped\<close> is \<open>fmt.Errorf\<close>
  with the \<open>%w\<close> verb, \<open>ExternalError\<close> an error returned by a library or a service,
  \<open>Panic\<close> a run-time panic.\<close>

datatype kerror =
    LimitExceeds int32
  | MaxDepthExceeds int32
  | UnsupportedSortField string
  | InvalidSortDirection string
  | NegativePageFirst
  | TooManyRelationBlocks nat
  | InvalidProjectionSpec
  | UnsupportedTransitive string
  | InvalidRefsAnnotation
  | InvalidKubeconfigEntry string
  | EmptyKubeconfigField string
  | UnsupportedDriver string
  | ExternalError string
  | Wrapped string kerror
  | Panic string

type_synonym 'a result = "kerror + 'a"

definition andthen :: "'a result \<Rightarrow> ('a \<Rightarrow> 'b result) \<Rightarrow> 'b result" where
  "andthen r f = (case r of Inl e \<Rightarrow> Inl e | Inr x \<Rightarrow> f x)"

lemma andthen_simps [simp]:
  "andthen (Inl e) f = Inl e"
  "andthen (Inr x) f = f x"
  by (simp_all add: andthen_def)

lemma andthen_Inr_iff: "andthen r f = Inr y \<longleftrightarrow> (\<exists>x. r = Inr x \<and> f x = Inr y)"
  by (cases r) auto

lemma andthen_Inl_iff:
  "andthen r f = Inl e \<longleftrightarrow> r = Inl e \<or> (\<exists>x. r = Inr x \<and> f x = Inl e)"
  by (cases r) auto

text \<open>The values a generated query binds to its placeholders (\<open>[]any\<close>).\<close>

datatype sqlarg = ArgString string | ArgTime gotime

subsection \<open>Package strings\<close>

fun Split :: "string \<Rightarrow> char \<Rightarrow> string list" where
  "Split [] c = [[]]"
| "Split (x # xs) c =
     (if x = c then [] # Split xs c
      else (case Split xs c of [] \<Rightarrow> [[x]] | p # ps \<Rightarrow> (x # p) # ps))"

fun Join :: "string list \<Rightarrow> string \<Rightarrow> string" where
  "Join [] sep = []"
| "Join [x] sep = x"
| "Join (x # y # ys) sep = x @ sep @ Join (y # ys) sep"

fun SplitN :: "string \<Rightarrow> char \<Rightarrow> nat \<Rightarrow> string list" where
  "SplitN s c 0 = []"
| "SplitN s c (Suc 0) = [s]"
| "SplitN s c (Suc (Suc n)) =
     (if c \<in> set s
      then takeWhile (\<lambda>x. x \<noteq> c) s # SplitN (tl (dropWhile (\<lambda>x. x \<noteq> c) s)) c (Suc n)
      else [s])"

definition HasPrefix :: "string \<Rightarrow> string \<Rightarrow> bool" where
  [go_defs]: "HasPrefix s p \<longleftrightarrow> take (length p) s = p"

definition HasSuffix :: "string \<Rightarrow> string \<Rightarrow> bool" where
  [go_defs]: "HasSuffix s p \<longleftrightarrow> length p \<le> length s \<and> drop (length s - length p) s = p"

definition TrimPrefix :: "string \<Rightarrow> string \<Rightarrow> string" where
  [go_defs]: "TrimPrefix s p = (if HasPrefix s p then drop (length p) s else s)"

definition TrimSuffix :: "string \<Rightarrow> string \<Rightarrow> string" where
  [go_defs]: "TrimSuffix s p = (if HasSuffix s p then take (length s - length p) s else s)"

fun replace_from :: "nat \<Rightarrow> string \<Rightarrow> string \<Rightarrow> string \<Rightarrow> string" where
  "replace_from k [] old new = []"
| "replace_from (Suc k) (x # xs) old new = replace_from k xs old new"
| "replace_from 0 (x # xs) old new =
     (if HasPrefix (x # xs) old then new @ replace_from (length old - 1) xs old new
      else x # replace_from 0 xs old new)"

text \<open>\<open>strings.ReplaceAll\<close>: non-overlapping occurrences, left to right; the first
  argument of \<^const>\<open>replace_from\<close> counts the bytes of the current occurrence still to
  skip. An empty \<open>old\<close> matches before every byte and at the end.\<close>

definition ReplaceAll :: "string \<Rightarrow> string \<Rightarrow> string \<Rightarrow> string" where
  "ReplaceAll s old new =
     (if old = [] then new @ concat (map (\<lambda>x. x # new) s) else replace_from 0 s old new)"

definition is_space :: "char \<Rightarrow> bool" where
  "is_space c \<longleftrightarrow> (let n = of_char c :: nat in n = 32 \<or> (9 \<le> n \<and> n \<le> 13))"

definition TrimSpace :: "string \<Rightarrow> string" where
  "TrimSpace s = rev (dropWhile is_space (rev (dropWhile is_space s)))"

definition lower_char :: "char \<Rightarrow> char" where
  "lower_char c = (let n = of_char c :: nat in
     if 65 \<le> n \<and> n \<le> 90 then char_of (n + 32) else c)"

definition ToLower :: "string \<Rightarrow> string" where
  "ToLower s = map lower_char s"

definition EqualFold :: "string \<Rightarrow> string \<Rightarrow> bool" where
  "EqualFold a b \<longleftrightarrow> ToLower a = ToLower b"

definition Contains :: "string \<Rightarrow> char \<Rightarrow> bool" where
  "Contains s c \<longleftrightarrow> c \<in> set s"

subsection \<open>The \<open>%d\<close> verb\<close>

fun nat_str :: "nat \<Rightarrow> string" where
  "nat_str n = (if n < 10 then [char_of (48 + n)] else nat_str (n div 10) @ [char_of (48 + n mod 10)])"

declare nat_str.simps [simp del]

definition itoa :: "int \<Rightarrow> string" where
  "itoa i = (if i < 0 then ''-'' @ nat_str (nat (- i)) else nat_str (nat i))"

subsection \<open>Formatting\<close>

text \<open>\<open>fmt.Sprintf\<close> with the verbs \<open>%s\<close>, \<open>%d\<close> and \<open>%%\<close>; the argument of a \<open>%d\<close> is
  already rendered by \<^const>\<open>itoa\<close>. A verb without an argument and an argument without
  a verb print the markers that Go prints.\<close>

abbreviation sq :: char where "sq \<equiv> CHR 0x27"

fun Sprintf :: "string \<Rightarrow> string list \<Rightarrow> string" where
  "Sprintf [] args =
     (if args = [] then []
      else ''%!(EXTRA '' @ Join (map (\<lambda>a. ''string='' @ a) args) '', '' @ '')'')"
| "Sprintf (c # cs) args =
     (if c = CHR ''%'' then
        (case cs of
           [] \<Rightarrow> ''%!(NOVERB)'' @ Sprintf [] args
         | v # r \<Rightarrow>
             if v = CHR ''%'' then CHR ''%'' # Sprintf r args
             else (case args of
                     [] \<Rightarrow> ''%!'' @ [v] @ ''(MISSING)'' @ Sprintf r []
                   | a # as \<Rightarrow> a @ Sprintf r as))
      else c # Sprintf cs args)"

text \<open>The number of arguments a format consumes, if all its verbs are known.\<close>

fun verbs :: "string \<Rightarrow> nat option" where
  "verbs [] = Some 0"
| "verbs (c # cs) =
     (if c = CHR ''%'' then
        (case cs of
           [] \<Rightarrow> None
         | v # r \<Rightarrow>
             if v = CHR ''%'' then verbs r
             else if v = CHR ''s'' \<or> v = CHR ''d'' then map_option Suc (verbs r) else None)
      else verbs cs)"

text \<open>Formats are long literals: their equations are for \<open>code_simp\<close>, not for the
  simplifier.\<close>

declare Sprintf.simps [simp del] verbs.simps [simp del]

subsection \<open>Integer division\<close>

text \<open>Go's \<open>/\<close> on \<open>int32\<close>: truncated towards zero, wrapped to 32 bits; division by
  zero panics.\<close>

definition div32 :: "int32 \<Rightarrow> int32 \<Rightarrow> int32 result" where
  "div32 a b =
     (if b = 0 then Inl (Panic ''integer divide by zero'')
      else Inr (word_of_int (sgn (sint a) * sgn (sint b) * (\<bar>sint a\<bar> div \<bar>sint b\<bar>))))"

subsection \<open>Lemmas on splitting and joining\<close>

lemma Split_not_Nil [simp]: "Split s c \<noteq> []"
  by (induction s) (auto split: list.splits)

lemma Split_no_sep: "c \<notin> set s \<Longrightarrow> Split s c = [s]"
  by (induction s) auto

lemma Split_append_sep: "Split (a @ c # b) c = Split a c @ Split b c"
proof (induction a)
  case Nil
  then show ?case by simp
next
  case (Cons x a)
  then show ?case
    by (cases "Split a c") simp_all
qed

lemma Join_Cons: "ps \<noteq> [] \<Longrightarrow> Join (p # ps) sep = p @ sep @ Join ps sep"
  by (cases ps) auto

lemma Join_append:
  "ps \<noteq> [] \<Longrightarrow> qs \<noteq> [] \<Longrightarrow> Join (ps @ qs) sep = Join ps sep @ sep @ Join qs sep"
  by (induction ps sep rule: Join.induct) (auto simp: Join_Cons)

lemma Join_Split: "Join (Split s c) [c] = s"
proof (induction s)
  case Nil
  then show ?case by simp
next
  case (Cons x s)
  obtain p ps where P: "Split s c = p # ps"
    by (meson Split_not_Nil neq_Nil_conv)
  with Cons show ?case by (cases ps) auto
qed

lemma Split_Join:
  "ps \<noteq> [] \<Longrightarrow> \<forall>p \<in> set ps. c \<notin> set p \<Longrightarrow> Split (Join ps [c]) c = ps"
  by (induction ps "[c]" rule: Join.induct) (auto simp: Split_append_sep Split_no_sep)

lemma set_Split: "p \<in> set (Split s c) \<Longrightarrow> c \<notin> set p \<and> set p \<subseteq> set s"
proof (induction s arbitrary: p)
  case Nil
  then show ?case by simp
next
  case (Cons x s)
  then show ?case by (cases "Split s c") (force split: if_splits)+
qed

text \<open>A separator that does not occur in the last part, or not in the first part, makes
  the joined string injective.\<close>

lemma append_sep_inj_left:
  "c \<notin> set a \<Longrightarrow> c \<notin> set a' \<Longrightarrow> a @ c # b = a' @ c # b' \<longleftrightarrow> a = a' \<and> b = b'"
proof (induction a arbitrary: a')
  case Nil
  then show ?case by (cases a') auto
next
  case (Cons x a)
  then show ?case by (cases a') auto
qed

lemma append_sep_inj_right:
  assumes "c \<notin> set b" and "c \<notin> set b'"
  shows "a @ c # b = a' @ c # b' \<longleftrightarrow> a = a' \<and> b = b'"
proof -
  have "a @ c # b = a' @ c # b' \<longleftrightarrow> rev b @ c # rev a = rev b' @ c # rev a'"
    using rev_is_rev_conv [of "a @ c # b" "a' @ c # b'"] by simp
  also have "\<dots> \<longleftrightarrow> a = a' \<and> b = b'"
    using assms by (subst append_sep_inj_left) auto
  finally show ?thesis .
qed

subsection \<open>Lemmas on prefixes and suffixes\<close>

lemma HasPrefix_append [simp]: "HasPrefix (p @ s) p"
  by (simp add: go_defs)

lemma TrimPrefix_append [simp]: "TrimPrefix (p @ s) p = s"
  by (simp add: go_defs)

lemma HasSuffix_append [simp]: "HasSuffix (s @ p) p"
  by (simp add: go_defs)

lemma TrimSuffix_append [simp]: "TrimSuffix (s @ p) p = s"
  by (simp add: go_defs)

lemma HasSuffix_iff: "HasSuffix s p \<longleftrightarrow> (\<exists>b. s = b @ p)"
  by (auto simp: go_defs) (metis append_take_drop_id)

lemma HasPrefix_iff: "HasPrefix s p \<longleftrightarrow> (\<exists>b. s = p @ b)"
  by (auto simp: go_defs) (metis append_take_drop_id)

lemma set_TrimSuffix: "set (TrimSuffix s p) \<subseteq> set s"
  by (auto simp: go_defs dest: in_set_takeD)

lemma set_TrimPrefix: "set (TrimPrefix s p) \<subseteq> set s"
  by (auto simp: go_defs dest: in_set_dropD)

lemma set_replace_from: "set (replace_from k s old new) \<subseteq> set s \<union> set new"
  by (induction k s old new rule: replace_from.induct) auto

lemma set_ReplaceAll: "set (ReplaceAll s old new) \<subseteq> set s \<union> set new"
  using set_replace_from [of 0 s old new] by (auto simp: ReplaceAll_def)

subsection \<open>Decimal numerals\<close>

lemma digit_char: "(n::nat) < 10 \<Longrightarrow> char_of (48 + n) \<in> set ''0123456789''"
proof -
  assume "n < 10"
  then have "n \<in> set [0..<10]" by simp
  moreover have "\<forall>n \<in> set [0..<10::nat]. char_of (48 + n) \<in> set ''0123456789''" by code_simp
  ultimately show ?thesis by blast
qed

lemma set_nat_str: "set (nat_str n) \<subseteq> set ''0123456789''"
proof (induction n rule: nat_str.induct)
  case (1 n)
  show ?case
  proof (cases "n < 10")
    case True
    then show ?thesis using digit_char [of n] by (subst nat_str.simps) simp
  next
    case False
    with 1 digit_char [of "n mod 10"] show ?thesis by (subst nat_str.simps) simp
  qed
qed

lemma set_itoa: "set (itoa i) \<subseteq> set ''-0123456789''"
proof -
  have "set (nat_str m) \<subseteq> set ''-0123456789''" for m
    by (rule subset_trans [OF set_nat_str]) simp
  then show ?thesis by (simp add: itoa_def)
qed

lemma nat_str_not_Nil [simp]: "nat_str n \<noteq> []"
  by (subst nat_str.simps) simp

definition digits_val :: "string \<Rightarrow> nat" where
  "digits_val s = foldl (\<lambda>a c. 10 * a + (of_char c - 48)) 0 s"

lemma digits_val_nat_str [simp]: "digits_val (nat_str n) = n"
proof (induction n rule: nat_str.induct)
  case (1 n)
  show ?case
  proof (cases "n < 10")
    case True
    then show ?thesis by (subst nat_str.simps) (simp add: digits_val_def of_char_of)
  next
    case False
    then have "digits_val (nat_str (n div 10)) = n div 10" by (rule 1)
    moreover have "n mod 10 < 10" by simp
    then have "48 + n mod 10 < 256" by linarith
    then have "(48 + n mod 10) mod 256 = 48 + n mod 10" by (rule mod_less)
    ultimately show ?thesis using False
      by (subst nat_str.simps) (simp add: digits_val_def of_char_of)
  qed
qed

lemma nat_str_inj [simp]: "nat_str m = nat_str n \<longleftrightarrow> m = n"
  by (metis digits_val_nat_str)

subsection \<open>Sums over lists\<close>

lemma sum_list_zero_map: "\<forall>x \<in> set xs. f x = (0::nat) \<Longrightarrow> sum_list (map f xs) = 0"
  by (induction xs) auto

lemma sum_list_const_map: "\<forall>x \<in> set xs. f x = (k::nat) \<Longrightarrow> sum_list (map f xs) = length xs * k"
  by (induction xs) auto

subsection \<open>Counting placeholders\<close>

text \<open>The number of \<open>?\<close> bytes of a piece of SQL. The generators build SQL by
  concatenation only, so the count is computed clause by clause.\<close>

definition qmarks :: "string \<Rightarrow> nat" where
  "qmarks s = count_list s CHR ''?''"

lemma qmarks_Nil [simp]: "qmarks [] = 0"
  by (simp add: qmarks_def)

lemma qmarks_Cons: "qmarks (c # s) = (if c = CHR ''?'' then Suc (qmarks s) else qmarks s)"
  by (simp add: qmarks_def)

lemma qmarks_append [simp]: "qmarks (s @ t) = qmarks s + qmarks t"
  by (simp add: qmarks_def)

lemma qmarks_0_iff: "qmarks s = 0 \<longleftrightarrow> CHR ''?'' \<notin> set s"
  by (simp add: qmarks_def count_list_0_iff)

lemma qmarks_single [simp]: "c \<noteq> CHR ''?'' \<Longrightarrow> qmarks (c # s) = qmarks s"
  by (simp add: qmarks_Cons)

lemma qmarks_Join:
  "qmarks (Join ss sep) = sum_list (map qmarks ss) + (length ss - 1) * qmarks sep"
proof (induction ss sep rule: Join.induct)
  case (3 x y ys sep)
  then show ?case by (simp add: add_mult_distrib)
qed simp_all

lemma qmarks_concat: "qmarks (concat ss) = sum_list (map qmarks ss)"
  by (induction ss) auto

lemma qmarks_subset: "set t \<subseteq> set s \<Longrightarrow> qmarks s = 0 \<Longrightarrow> qmarks t = 0"
  by (auto simp: qmarks_0_iff)

lemma qmarks_nat_str [simp]: "qmarks (nat_str n) = 0"
  using set_nat_str [of n] by (auto simp: qmarks_0_iff)

lemma qmarks_itoa [simp]: "qmarks (itoa i) = 0"
  using set_itoa [of i] by (auto simp: qmarks_0_iff)

lemma qmarks_TrimSuffix: "qmarks s = 0 \<Longrightarrow> qmarks (TrimSuffix s p) = 0"
  using set_TrimSuffix qmarks_subset by blast

lemma qmarks_TrimPrefix: "qmarks s = 0 \<Longrightarrow> qmarks (TrimPrefix s p) = 0"
  using set_TrimPrefix qmarks_subset by blast

lemma qmarks_ReplaceAll: "qmarks s = 0 \<Longrightarrow> qmarks new = 0 \<Longrightarrow> qmarks (ReplaceAll s old new) = 0"
  using set_ReplaceAll [of s old new] by (auto simp: qmarks_0_iff)

text \<open>Induction over a format whose verbs match its arguments.\<close>

lemma fmt_induct [consumes 1, case_names Nil lit percent verb]:
  assumes "verbs fmt = Some (length args)"
    and "P [] []"
    and "\<And>c fmt args. c \<noteq> CHR ''%'' \<Longrightarrow> P fmt args \<Longrightarrow> P (c # fmt) args"
    and "\<And>fmt args. P fmt args \<Longrightarrow> P (CHR ''%'' # CHR ''%'' # fmt) args"
    and "\<And>v fmt a args. v = CHR ''s'' \<or> v = CHR ''d'' \<Longrightarrow> P fmt args \<Longrightarrow> P (CHR ''%'' # v # fmt) (a # args)"
  shows "P fmt args"
  using assms(1)
proof (induction fmt arbitrary: args rule: verbs.induct)
  case 1
  then show ?case using assms(2) by (simp add: verbs.simps)
next
  case (2 c cs)
  show ?case
  proof (cases "c = CHR ''%''")
    case False
    with 2 show ?thesis by (simp add: verbs.simps assms(3))
  next
    case True
    with "2.prems" obtain v r where cs: "cs = v # r" by (auto simp: verbs.simps split: list.splits)
    show ?thesis
    proof (cases "v = CHR ''%''")
      case True
      with 2 cs \<open>c = CHR ''%''\<close> show ?thesis by (simp add: verbs.simps assms(4))
    next
      case False
      with "2.prems" cs True have "v = CHR ''s'' \<or> v = CHR ''d''"
        by (auto simp: verbs.simps split: if_splits)
      moreover from this False "2.prems" cs True obtain n where "verbs r = Some n" "Suc n = length args"
        by (auto simp: verbs.simps split: if_splits)
      ultimately show ?thesis using "2.IH"(2) [OF True cs False] cs True assms(5)
        by (cases args) auto
    qed
  qed
qed

lemma qmarks_Sprintf:
  "verbs fmt = Some (length args) \<Longrightarrow>
     qmarks (Sprintf fmt args) = qmarks fmt + sum_list (map qmarks args)"
  by (induction fmt args rule: fmt_induct) (auto simp: Sprintf.simps qmarks_Cons)

lemma Sprintf_snoc:
  "verbs fmt = Some (length args) \<Longrightarrow> c \<noteq> CHR ''%'' \<Longrightarrow>
     Sprintf (fmt @ [c]) args = Sprintf fmt args @ [c]"
  by (induction fmt args rule: fmt_induct) (auto simp: Sprintf.simps)

text \<open>The signature of a format: its number of arguments and of placeholders.\<close>

definition fmt_sig :: "string \<Rightarrow> nat \<Rightarrow> nat \<Rightarrow> bool" where
  "fmt_sig fmt n k \<longleftrightarrow> verbs fmt = Some n \<and> qmarks fmt = k"

lemma qmarks_fmt:
  "fmt_sig fmt (length args) k \<Longrightarrow>
     qmarks (Sprintf fmt args) = k + sum_list (map qmarks args)"
  by (simp add: fmt_sig_def qmarks_Sprintf)

lemma qmarks_fmt0:
  "fmt_sig fmt (length args) 0 \<Longrightarrow> list_all (\<lambda>a. qmarks a = 0) args \<Longrightarrow>
     qmarks (Sprintf fmt args) = 0"
  by (simp add: qmarks_fmt list_all_iff sum_list_zero_map)

lemma qmarks_Join_zero: "\<forall>s \<in> set ss. qmarks s = 0 \<Longrightarrow> qmarks sep = 0 \<Longrightarrow> qmarks (Join ss sep) = 0"
  by (simp add: qmarks_Join sum_list_zero_map)

end
