(* ===== verification/Go_Json.thy ===== *)
theory Go_Json
  imports Kuery_Prelude "HOL-Library.AList"
begin

text \<open>
  The parts of \<open>encoding/json\<close> and \<open>encoding/base64\<close> that the engine uses: the decoder
  of a whole JSON document (\<open>Unmarshal\<close> into \<open>any\<close>), the encoder of strings and string
  maps (\<open>Marshal\<close>, with its HTML escaping and sorted keys), and the standard base64
  alphabet with padding. Inputs are taken to be valid UTF-8, whose bytes above 127 both
  directions pass through; the decoder's nesting limit of 10000 is not modelled. The
  decoder recurses with fuel, and the length of the document is enough
  (lemma \<open>pval_fuel\<close>).
\<close>

datatype json =
    JNull
  | JBool bool
  | JNum string
  | JStr string
  | JArr "json list"
  | JObj "(string \<times> json) list"

subsection \<open>Decoding\<close>

definition skip_ws :: "string \<Rightarrow> string" where
  "skip_ws s = dropWhile (\<lambda>c. c \<in> {CHR '' '', CHR 0x09, CHR 0x0A, CHR 0x0D}) s"

definition hex_val :: "char \<Rightarrow> nat option" where
  "hex_val c = (let n = of_char c :: nat in
     if 48 \<le> n \<and> n \<le> 57 then Some (n - 48)
     else if 97 \<le> n \<and> n \<le> 102 then Some (n - 87)
     else if 65 \<le> n \<and> n \<le> 70 then Some (n - 55) else None)"

definition hex4 :: "char \<Rightarrow> char \<Rightarrow> char \<Rightarrow> char \<Rightarrow> nat option" where
  "hex4 a b c d =
     (case (hex_val a, hex_val b, hex_val c, hex_val d) of
        (Some w, Some x, Some y, Some z) \<Rightarrow> Some (4096 * w + 256 * x + 16 * y + z)
      | _ \<Rightarrow> None)"

definition utf8 :: "nat \<Rightarrow> string" where
  "utf8 n =
     (if n < 128 then [char_of n]
      else if n < 2048 then [char_of (192 + n div 64), char_of (128 + n mod 64)]
      else if n < 65536 then
        [char_of (224 + n div 4096), char_of (128 + n div 64 mod 64), char_of (128 + n mod 64)]
      else [char_of (240 + n div 262144), char_of (128 + n div 4096 mod 64),
            char_of (128 + n div 64 mod 64), char_of (128 + n mod 64)])"

definition simple_escape :: "char \<Rightarrow> char option" where
  "simple_escape c = map_of [(CHR 0x22, CHR 0x22), (CHR 0x5C, CHR 0x5C), (CHR ''/'', CHR ''/''),
     (CHR ''b'', CHR 0x08), (CHR ''f'', CHR 0x0C), (CHR ''n'', CHR 0x0A),
     (CHR ''r'', CHR 0x0D), (CHR ''t'', CHR 0x09)] c"

text \<open>A low surrogate escape at the head of the input, and what follows it.\<close>

definition low_surrogate :: "string \<Rightarrow> (nat \<times> string) option" where
  "low_surrogate s =
     (case s of
        x # y # a # b # c # d # r \<Rightarrow>
          (if x = CHR 0x5C \<and> y = CHR ''u'' then
             (case hex4 a b c d of
                Some n \<Rightarrow> if 56320 \<le> n \<and> n \<le> 57343 then Some (n, r) else None
              | None \<Rightarrow> None)
           else None)
      | _ \<Rightarrow> None)"

lemma low_surrogate_length [termination_simp]:
  "low_surrogate s = Some (n, r) \<Longrightarrow> length r < length s"
  by (auto simp: low_surrogate_def split: list.splits if_splits option.splits)

definition push :: "string \<Rightarrow> (string \<times> string) option \<Rightarrow> (string \<times> string) option" where
  "push p r = map_option (\<lambda>(s, rest). (p @ s, rest)) r"

lemma push_simps [simp]: "push p None = None" "push p (Some (s, rest)) = Some (p @ s, rest)"
  by (simp_all add: push_def)

text \<open>A \<open>\u\<close> escape after its first two bytes: the decoded character in UTF-8 and the
  input after the escape. A surrogate without its partner decodes to U+FFFD.\<close>

definition puni :: "string \<Rightarrow> (string \<times> string) option" where
  "puni s =
     (case s of
        h1 # h2 # h3 # h4 # r \<Rightarrow>
          (case hex4 h1 h2 h3 h4 of
             None \<Rightarrow> None
           | Some n \<Rightarrow>
               if 55296 \<le> n \<and> n \<le> 56319 then
                 (case low_surrogate r of
                    Some (m, r') \<Rightarrow> Some (utf8 (65536 + 1024 * (n - 55296) + (m - 56320)), r')
                  | None \<Rightarrow> Some (utf8 65533, r))
               else if 56320 \<le> n \<and> n \<le> 57343 then Some (utf8 65533, r)
               else Some (utf8 n, r))
      | _ \<Rightarrow> None)"

lemma puni_length [termination_simp]: "puni s = Some (u, r) \<Longrightarrow> length r < length s"
  by (auto simp: puni_def split: list.splits option.splits if_splits dest: low_surrogate_length)

text \<open>The rest of a string literal after its opening quote: the decoded string and
  the input after the closing quote.\<close>

fun pstr :: "string \<Rightarrow> (string \<times> string) option" where
  "pstr [] = None"
| "pstr (c # cs) =
     (if c = CHR 0x22 then Some ([], cs)
      else if c = CHR 0x5C then
        (case cs of
           [] \<Rightarrow> None
         | e # es \<Rightarrow>
             if e = CHR ''u''
             then (case puni es of None \<Rightarrow> None | Some (u, r) \<Rightarrow> push u (pstr r))
             else (case simple_escape e of None \<Rightarrow> None | Some x \<Rightarrow> push [x] (pstr es)))
      else if of_char c < (32::nat) then None
      else push [c] (pstr cs))"

definition is_digit :: "char \<Rightarrow> bool" where
  "is_digit c \<longleftrightarrow> c \<in> set ''0123456789''"

definition span_digits :: "string \<Rightarrow> string \<times> string" where
  "span_digits s = (takeWhile is_digit s, dropWhile is_digit s)"

text \<open>Sign, integer part, fraction and exponent of a number literal, each with the
  input after it.\<close>

definition psign :: "string \<Rightarrow> string \<times> string" where
  "psign s = (case s of c # cs \<Rightarrow> if c = CHR ''-'' then ([c], cs) else ([], s) | [] \<Rightarrow> ([], []))"

definition pint :: "string \<Rightarrow> string \<times> string" where
  "pint s = (let (ds, r) = span_digits s in
     if ds \<noteq> [] \<and> hd ds = CHR ''0'' then ([CHR ''0''], tl s) else (ds, r))"

definition pfrac :: "string \<Rightarrow> string \<times> string" where
  "pfrac s = (case s of
       c # cs \<Rightarrow> if c = CHR ''.'' then (c # fst (span_digits cs), snd (span_digits cs)) else ([], s)
     | [] \<Rightarrow> ([], []))"

definition pexp :: "string \<Rightarrow> string \<times> string" where
  "pexp s = (case s of
       c # cs \<Rightarrow>
         if c = CHR ''e'' \<or> c = CHR ''E'' then
           (case cs of x # xs \<Rightarrow>
              if x = CHR ''+'' \<or> x = CHR ''-''
              then (c # x # fst (span_digits xs), snd (span_digits xs))
              else (c # fst (span_digits cs), snd (span_digits cs))
            | [] \<Rightarrow> ([c], []))
         else ([], s)
     | [] \<Rightarrow> ([], []))"

definition pnum :: "string \<Rightarrow> (string \<times> string) option" where
  "pnum s =
     (let (sign, s1) = psign s; (ip, s2) = pint s1; (fp, s3) = pfrac s2; (ep, s4) = pexp s3
      in if ip = [] \<or> fp = ''.'' \<or> (ep \<noteq> [] \<and> \<not> is_digit (last ep)) then None
         else Some (sign @ ip @ fp @ ep, s4))"

text \<open>The key of an object member and the colon after it.\<close>

definition pkey :: "string \<Rightarrow> (string \<times> string) option" where
  "pkey s =
     (case skip_ws s of
        [] \<Rightarrow> None
      | q # cs \<Rightarrow>
          if q \<noteq> CHR 0x22 then None
          else (case pstr cs of
             None \<Rightarrow> None
           | Some (k, r) \<Rightarrow>
               (case skip_ws r of
                  [] \<Rightarrow> None
                | d # r' \<Rightarrow> if d = CHR '':'' then Some (k, r') else None)))"

fun pval :: "nat \<Rightarrow> string \<Rightarrow> (json \<times> string) option"
  and parr :: "nat \<Rightarrow> string \<Rightarrow> (json list \<times> string) option"
  and pobj :: "nat \<Rightarrow> string \<Rightarrow> ((string \<times> json) list \<times> string) option" where
  "pval 0 s = None"
| "pval (Suc n) s =
     (case skip_ws s of
        [] \<Rightarrow> None
      | c # cs \<Rightarrow>
          if c = CHR 0x22 then map_option (\<lambda>(x, r). (JStr x, r)) (pstr cs)
          else if c = CHR ''{'' then
            (case skip_ws cs of
               [] \<Rightarrow> None
             | d # r \<Rightarrow> if d = CHR ''}'' then Some (JObj [], r)
                      else map_option (\<lambda>(x, r). (JObj x, r)) (pobj n cs))
          else if c = CHR ''['' then
            (case skip_ws cs of
               [] \<Rightarrow> None
             | d # r \<Rightarrow> if d = CHR '']'' then Some (JArr [], r)
                      else map_option (\<lambda>(x, r). (JArr x, r)) (parr n cs))
          else if HasPrefix (c # cs) ''true'' then Some (JBool True, drop 4 (c # cs))
          else if HasPrefix (c # cs) ''false'' then Some (JBool False, drop 5 (c # cs))
          else if HasPrefix (c # cs) ''null'' then Some (JNull, drop 4 (c # cs))
          else map_option (\<lambda>(x, r). (JNum x, r)) (pnum (c # cs)))"
| "parr 0 s = None"
| "parr (Suc n) s =
     (case pval n s of
        None \<Rightarrow> None
      | Some (v, r) \<Rightarrow>
          (case skip_ws r of
             [] \<Rightarrow> None
           | d # r' \<Rightarrow>
               if d = CHR '','' then map_option (\<lambda>(vs, x). (v # vs, x)) (parr n r')
               else if d = CHR '']'' then Some ([v], r') else None))"
| "pobj 0 s = None"
| "pobj (Suc n) s =
     (case pkey s of
        None \<Rightarrow> None
      | Some (k, r1) \<Rightarrow>
          (case pval n r1 of
             None \<Rightarrow> None
           | Some (v, r2) \<Rightarrow>
               (case skip_ws r2 of
                  [] \<Rightarrow> None
                | d # r3 \<Rightarrow>
                    if d = CHR '','' then map_option (\<lambda>(kvs, x). ((k, v) # kvs, x)) (pobj n r3)
                    else if d = CHR ''}'' then Some ([(k, v)], r3) else None)))"

definition Unmarshal :: "string \<Rightarrow> json option" where
  "Unmarshal s =
     (case pval (2 * length s + 2) s of
        None \<Rightarrow> None
      | Some (v, r) \<Rightarrow> if skip_ws r = [] then Some v else None)"

text \<open>A decoded object as a Go map: a later duplicate of a key replaces the earlier value.\<close>

definition go_map :: "(string \<times> 'v) list \<Rightarrow> 'v gomap" where
  "go_map kvs = fold (\<lambda>p m. AList.update (fst p) (snd p) m) kvs []"

subsection \<open>Encoding\<close>

definition hex_digit :: "nat \<Rightarrow> char" where
  "hex_digit n = (if n < 10 then char_of (48 + n) else char_of (87 + n))"

definition esc :: "char \<Rightarrow> string" where
  "esc c =
     (if c = CHR 0x22 then [CHR 0x5C, CHR 0x22]
      else if c = CHR 0x5C then [CHR 0x5C, CHR 0x5C]
      else if c = CHR 0x08 then [CHR 0x5C, CHR ''b'']
      else if c = CHR 0x0C then [CHR 0x5C, CHR ''f'']
      else if c = CHR 0x0A then [CHR 0x5C, CHR ''n'']
      else if c = CHR 0x0D then [CHR 0x5C, CHR ''r'']
      else if c = CHR 0x09 then [CHR 0x5C, CHR ''t'']
      else if of_char c < (32::nat) \<or> c \<in> {CHR ''<'', CHR ''>'', CHR ''&''} then
        [CHR 0x5C, CHR ''u'', CHR ''0'', CHR ''0'', hex_digit (of_char c div 16), hex_digit (of_char c mod 16)]
      else [c])"

text \<open>The bytes of U+2028 and U+2029 are escaped together.\<close>

fun escapes :: "string \<Rightarrow> string" where
  "escapes [] = []"
| "escapes (c # cs) =
     (if c = CHR 0xE2 \<and> take 2 cs = [CHR 0x80, CHR 0xA8] then CHR 0x5C # ''u2028'' @ escapes (drop 2 cs)
      else if c = CHR 0xE2 \<and> take 2 cs = [CHR 0x80, CHR 0xA9] then CHR 0x5C # ''u2029'' @ escapes (drop 2 cs)
      else esc c @ escapes cs)"

definition marshal_string :: "string \<Rightarrow> string" where
  "marshal_string s = [CHR 0x22] @ escapes s @ [CHR 0x22]"

definition marshal_string_map :: "string gomap \<Rightarrow> string" where
  "marshal_string_map m =
     ''{'' @ Join (map (\<lambda>p. marshal_string (fst p) @ '':'' @ marshal_string (snd p))
                   (sort_key fst m)) '','' @ ''}''"

definition marshal_string_list :: "string list \<Rightarrow> string" where
  "marshal_string_list xs = ''['' @ Join (map marshal_string xs) '','' @ '']''"

subsection \<open>Base64\<close>

definition b64_alphabet :: string where
  "b64_alphabet = ''ABCDEFGHIJKLMNOPQRSTUVWXYZabcdefghijklmnopqrstuvwxyz0123456789+/''"

definition b64_char :: "nat \<Rightarrow> char" where
  "b64_char n = b64_alphabet ! n"

definition b64_val :: "char \<Rightarrow> nat option" where
  "b64_val c = map_of (zip b64_alphabet [0..<64]) c"

fun EncodeToString :: "string \<Rightarrow> string" where
  "EncodeToString [] = []"
| "EncodeToString [a] =
     (let n = of_char a in [b64_char (n div 4), b64_char (n mod 4 * 16), CHR ''='', CHR ''=''])"
| "EncodeToString [a, b] =
     (let m = of_char a; n = of_char b in
      [b64_char (m div 4), b64_char (m mod 4 * 16 + n div 16), b64_char (n mod 16 * 4), CHR ''=''])"
| "EncodeToString (a # b # c # r) =
     (let m = of_char a; n = of_char b; k = of_char c in
      [b64_char (m div 4), b64_char (m mod 4 * 16 + n div 16), b64_char (n mod 16 * 4 + k div 64),
       b64_char (k mod 64)] @ EncodeToString r)"

text \<open>\<open>StdEncoding.DecodeString\<close> skips carriage returns and newlines; padding ends the
  input; unused low bits of a padded quantum are ignored (the encoding is not strict).\<close>

fun b64_decode :: "string \<Rightarrow> string option" where
  "b64_decode [] = Some []"
| "b64_decode (a # b # c # d # r) =
     (case (b64_val a, b64_val b) of
        (Some w, Some x) \<Rightarrow>
          (if c = CHR ''='' then
             (if d = CHR ''='' \<and> r = [] then Some [char_of (w * 4 + x div 16)] else None)
           else case b64_val c of
             None \<Rightarrow> None
           | Some y \<Rightarrow>
               if d = CHR ''='' then
                 (if r = [] then Some [char_of (w * 4 + x div 16), char_of (x mod 16 * 16 + y div 4)]
                  else None)
               else (case b64_val d of
                  None \<Rightarrow> None
                | Some z \<Rightarrow>
                    map_option (\<lambda>s. [char_of (w * 4 + x div 16), char_of (x mod 16 * 16 + y div 4),
                        char_of (y mod 4 * 64 + z)] @ s) (b64_decode r)))
      | _ \<Rightarrow> None)"
| "b64_decode _ = None"

definition DecodeString :: "string \<Rightarrow> string option" where
  "DecodeString s = b64_decode (filter (\<lambda>c. c \<noteq> CHR 0x0A \<and> c \<noteq> CHR 0x0D) s)"

subsection \<open>The decoder consumes its input\<close>

lemma length_skip_ws: "length (skip_ws s) \<le> length s"
  by (simp add: skip_ws_def length_dropWhile_le)

lemma skip_ws_Cons: "c \<notin> {CHR '' '', CHR 0x09, CHR 0x0A, CHR 0x0D} \<Longrightarrow> skip_ws (c # s) = c # s"
  by (simp add: skip_ws_def)

lemma skip_ws_shorter: "skip_ws s = c # r \<Longrightarrow> length r < length s"
  using length_skip_ws [of s] by simp

lemma push_Some: "push p x = Some (s, r) \<longleftrightarrow> (\<exists>t. x = Some (t, r) \<and> s = p @ t)"
  by (cases x) (auto simp: push_def)

lemma pstr_length: "pstr s = Some (x, r) \<Longrightarrow> length r < length s"
proof (induction s arbitrary: x r rule: pstr.induct)
  case (2 c cs)
  then show ?case
    by (fastforce simp: push_Some split: if_splits list.splits option.splits prod.splits
        dest: puni_length)
qed simp

lemma length_span_digits:
  "length (snd (span_digits s)) \<le> length s"
  "fst (span_digits s) \<noteq> [] \<Longrightarrow> length (snd (span_digits s)) < length s"
proof -
  show "length (snd (span_digits s)) \<le> length s"
    by (simp add: span_digits_def length_dropWhile_le)
  show "length (snd (span_digits s)) < length s" if "fst (span_digits s) \<noteq> []"
    using that length_dropWhile_le [of is_digit "tl s"]
    by (cases s) (auto simp: span_digits_def split: if_splits)
qed

lemma span_digits_leading: "fst (span_digits s) \<noteq> [] \<Longrightarrow> s \<noteq> []"
  by (auto simp: span_digits_def)

lemma length_pint:
  "length (snd (pint s)) \<le> length s" "fst (pint s) \<noteq> [] \<Longrightarrow> length (snd (pint s)) < length s"
  using length_span_digits [of s] span_digits_leading [of s]
  by (auto simp: pint_def split: prod.splits)

lemma length_pfrac: "length (snd (pfrac s)) \<le> length s"
  using length_span_digits(1) [of "tl s"]
  by (cases s) (auto simp: pfrac_def)

lemma length_pexp: "length (snd (pexp s)) \<le> length s"
  using length_span_digits(1) [of "tl s"] length_span_digits(1) [of "tl (tl s)"]
  by (auto simp: pexp_def split: list.splits)

lemma length_psign: "length (snd (psign s)) \<le> length s"
  by (auto simp: psign_def split: list.splits)

lemma pnum_length:
  assumes "pnum s = Some (x, r)" shows "length r < length s"
proof -
  let ?s1 = "snd (psign s)" and ?s2 = "snd (pint (snd (psign s)))"
  have "fst (pint ?s1) \<noteq> []" and r: "r = snd (pexp (snd (pfrac ?s2)))"
    using assms by (auto simp: pnum_def split: prod.splits if_splits)
  then have "length ?s2 < length ?s1" by (simp add: length_pint)
  moreover have "length r \<le> length ?s2"
    using length_pexp [of "snd (pfrac ?s2)"] length_pfrac [of ?s2] r by simp
  ultimately show ?thesis using length_psign [of s] by simp
qed

lemma HasPrefix_length: "HasPrefix s p \<Longrightarrow> length p \<le> length s"
  by (auto simp: HasPrefix_iff)

lemma pkey_length: "pkey s = Some (k, r) \<Longrightarrow> length r < length s"
  by (fastforce simp: pkey_def split: list.splits if_splits option.splits prod.splits
      dest: skip_ws_shorter pstr_length)

lemma pval_length:
  "pval n s = Some (v, r) \<Longrightarrow> length r < length s"
  "parr n s = Some (vs, r) \<Longrightarrow> length r < length s"
  "pobj n s = Some (kvs, r) \<Longrightarrow> length r < length s"
proof (induction n s and n s and n s arbitrary: v r and vs r and kvs r rule: pval_parr_pobj.induct)
  case (2 n s)
  show ?case
  proof (cases "skip_ws s")
    case Nil
    with 2 show ?thesis by simp
  next
    case (Cons c cs)
    note len = skip_ws_shorter [OF Cons]
    from 2 Cons len show ?thesis
      by (fastforce split: if_splits list.splits option.splits prod.splits
          dest: pstr_length pnum_length skip_ws_shorter)
  qed
next
  case (4 n s)
  then show ?case
    by (fastforce split: if_splits list.splits option.splits prod.splits dest: skip_ws_shorter)
next
  case (6 n s)
  then show ?case
    by (fastforce split: if_splits list.splits option.splits prod.splits
        dest: skip_ws_shorter pkey_length)
qed simp_all

subsection \<open>The fuel of the decoder is enough\<close>

lemmas parser_simps = pval.simps parr.simps pobj.simps

lemma pval_fuel_step:
  "2 * length s + 1 \<le> n \<Longrightarrow> pval (Suc n) s = pval n s"
  "2 * length s + 2 \<le> n \<Longrightarrow> parr (Suc n) s = parr n s"
  "2 * length s + 1 \<le> n \<Longrightarrow> pobj (Suc n) s = pobj n s"
proof (induction n s and n s and n s rule: pval_parr_pobj.induct)
  case (2 n s)
  show ?case
  proof (cases "skip_ws s")
    case Nil
    then show ?thesis by simp
  next
    case (Cons c cs)
    then have "2 * length cs + 2 \<le> n"
      using "2.prems" skip_ws_shorter [OF Cons] by simp
    then have "c = CHR ''{'' \<Longrightarrow> d \<noteq> CHR ''}'' \<Longrightarrow> skip_ws cs = d # q \<Longrightarrow> pobj (Suc n) cs = pobj n cs"
      and "c = CHR ''['' \<Longrightarrow> d \<noteq> CHR '']'' \<Longrightarrow> skip_ws cs = d # q \<Longrightarrow> parr (Suc n) cs = parr n cs" for d q
      using "2.IH" [OF Cons] by (simp_all del: parser_simps)
    with Cons show ?thesis
      by (simp only: pval.simps) (simp del: parser_simps split: list.splits)
  qed
next
  case (4 n s)
  then have v: "pval (Suc n) s = pval n s" by (simp del: parser_simps)
  have "parr (Suc n) r' = parr n r'"
    if "pval n s = Some (w, r)" "skip_ws r = CHR '','' # r'" for w r r'
    using "4.IH"(2) [OF that(1) refl that(2)] "4.prems" pval_length(1) [OF that(1)]
      skip_ws_shorter [OF that(2)] by (simp del: parser_simps)
  with v show ?case
    by (simp only: parr.simps) (auto simp del: parser_simps split: option.splits list.splits prod.splits)
next
  case (6 n s)
  have v: "pval (Suc n) r1 = pval n r1" if "pkey s = Some (k, r1)" for k r1
    using "6.IH"(1) [OF that refl] "6.prems" pkey_length [OF that] by (simp del: parser_simps)
  have "pobj (Suc n) r3 = pobj n r3"
    if "pkey s = Some (k, r1)" "pval n r1 = Some (w, r2)" "skip_ws r2 = CHR '','' # r3" for k w r1 r2 r3
    using "6.IH"(2) [OF that(1) refl that(2) refl that(3)] "6.prems" pkey_length [OF that(1)]
      pval_length(1) [OF that(2)] skip_ws_shorter [OF that(3)] by (simp del: parser_simps)
  with v show ?case
    by (simp only: pobj.simps) (auto simp del: parser_simps split: option.splits list.splits prod.splits)
qed simp_all

lemma pval_fuel:
  "2 * length s + 1 \<le> n \<Longrightarrow> pval (n + k) s = pval n s"
  by (induction k) (simp_all del: pval.simps add: pval_fuel_step(1))

subsection \<open>Decoding what was encoded\<close>

lemma hex_val_digit: "n < 16 \<Longrightarrow> hex_val (hex_digit n) = Some n"
  by (auto simp: hex_val_def hex_digit_def of_char_of Let_def)

lemma hex4_byte:
  "hex4 (CHR ''0'') (CHR ''0'') (hex_digit (of_char c div 16)) (hex_digit (of_char c mod 16)) =
     Some (of_char c)"
proof -
  have "of_char c < (256::nat)" by simp
  then have "of_char c div 16 < (16::nat)" by linarith
  moreover have "hex_val (CHR ''0'') = Some 0" by (simp add: hex_val_def)
  ultimately show ?thesis by (simp add: hex4_def hex_val_digit)
qed

lemma pstr_esc [simp]: "pstr (esc c @ t) = push [c] (pstr t)"
proof (cases "of_char c < (32::nat) \<or> c \<in> {CHR ''<'', CHR ''>'', CHR ''&''}")
  case True
  then have "of_char c < (128::nat)" by auto
  then have "utf8 (of_char c) = [c]" by (simp add: utf8_def)
  moreover have "\<not> 55296 \<le> (of_char c :: nat)" "\<not> 56320 \<le> (of_char c :: nat)"
    using \<open>of_char c < (128::nat)\<close> by simp_all
  ultimately show ?thesis using True
    by (simp add: esc_def puni_def hex4_byte simple_escape_def)
next
  case False
  then show ?thesis by (simp add: esc_def simple_escape_def)
qed

lemma puni_separators:
  "puni (''2028'' @ t) = Some ([CHR 0xE2, CHR 0x80, CHR 0xA8], t)"
  "puni (''2029'' @ t) = Some ([CHR 0xE2, CHR 0x80, CHR 0xA9], t)"
  by (simp_all add: puni_def hex4_def hex_val_def utf8_def char_of_eq_iff)

lemma take_2_drop: "take 2 cs = [x, y] \<Longrightarrow> cs = x # y # drop 2 cs"
  using append_take_drop_id [of 2 cs] by simp

lemma pstr_marshal: "pstr (escapes s @ CHR 0x22 # rest) = Some (s, rest)"
proof (induction s rule: escapes.induct)
  case (2 c cs)
  have sep: "pstr (CHR 0x5C # CHR ''u'' # u @ t) = push x (pstr t)" if "puni (u @ t) = Some (x, t)" for u t x
    using that by simp
  consider (ls) "c = CHR 0xE2" "take 2 cs = [CHR 0x80, CHR 0xA8]"
    | (ps) "c = CHR 0xE2" "take 2 cs = [CHR 0x80, CHR 0xA9]"
    | (other) "\<not> (c = CHR 0xE2 \<and> take 2 cs = [CHR 0x80, CHR 0xA8])" "\<not> (c = CHR 0xE2 \<and> take 2 cs = [CHR 0x80, CHR 0xA9])"
    by blast
  then show ?case
  proof cases
    case ls
    have "cs = CHR 0x80 # CHR 0xA8 # drop 2 cs" using ls(2) by (rule take_2_drop)
    with ls 2 sep [OF puni_separators(1)] show ?thesis by simp
  next
    case ps
    have "cs = CHR 0x80 # CHR 0xA9 # drop 2 cs" using ps(2) by (rule take_2_drop)
    with ps 2 sep [OF puni_separators(2)] show ?thesis by simp
  next
    case other
    with 2 show ?thesis by auto
  qed
qed simp

lemma pval_marshal_string [simp]: "pval (Suc n) (marshal_string s @ rest) = Some (JStr s, rest)"
  by (simp add: marshal_string_def skip_ws_Cons pstr_marshal)

lemma pkey_marshal [simp]: "pkey (marshal_string k @ CHR '':'' # rest) = Some (k, rest)"
  by (simp add: pkey_def marshal_string_def skip_ws_Cons pstr_marshal)

definition marshal_pair :: "string \<times> string \<Rightarrow> string" where
  "marshal_pair p = marshal_string (fst p) @ '':'' @ marshal_string (snd p)"

lemma marshal_string_map_eq:
  "marshal_string_map m = ''{'' @ Join (map marshal_pair (sort_key fst m)) '','' @ ''}''"
  by (simp add: marshal_string_map_def marshal_pair_def [abs_def])

lemma pobj_marshal:
  "kvs \<noteq> [] \<Longrightarrow> length kvs < n \<Longrightarrow>
     pobj n (Join (map marshal_pair kvs) '','' @ CHR ''}'' # rest) =
       Some (map (\<lambda>p. (fst p, JStr (snd p))) kvs, rest)"
proof (induction kvs arbitrary: n)
  case Nil
  then show ?case by simp
next
  case (Cons p kvs)
  then obtain n' where n: "n = Suc (Suc n')" "length kvs < Suc n'"
    by (cases n; cases "n - 1") auto
  show ?case
  proof (cases "kvs = []")
    case True
    with n show ?thesis
      by (simp add: marshal_pair_def skip_ws_Cons del: pval.simps)
  next
    case False
    with Cons.IH [of "Suc n'"] n show ?thesis
      by (simp add: marshal_pair_def Join_Cons skip_ws_Cons del: pval.simps)
  qed
qed

lemma length_marshal_pairs: "length kvs \<le> length (Join (map marshal_pair kvs) sep)"
proof (induction kvs)
  case (Cons p kvs)
  then show ?case by (cases kvs) (auto simp: marshal_pair_def marshal_string_def)
qed simp

lemma pval_marshal_map:
  assumes "2 * length (marshal_string_map m) + 1 \<le> n"
  shows "pval n (marshal_string_map m @ rest) =
     Some (JObj (map (\<lambda>p. (fst p, JStr (snd p))) (sort_key fst m)), rest)"
proof -
  obtain n' where n: "n = Suc n'" "2 * length (marshal_string_map m) \<le> n'"
    using assms by (cases n) auto
  show ?thesis
  proof (cases "sort_key fst m")
    case Nil
    then show ?thesis by (simp add: n marshal_string_map_eq skip_ws_Cons)
  next
    case (Cons p kvs)
    have "length (sort_key fst m) < n'"
      using n length_marshal_pairs [of "sort_key fst m" "'',''"] by (simp add: marshal_string_map_eq)
    then have "pobj n' (Join (map marshal_pair (sort_key fst m)) '','' @ CHR ''}'' # rest) =
        Some (map (\<lambda>p. (fst p, JStr (snd p))) (sort_key fst m), rest)"
      by (rule pobj_marshal [rotated]) (simp add: Cons)
    moreover have "\<exists>t. Join (map marshal_pair (sort_key fst m)) '','' = CHR 0x22 # t"
      unfolding Cons by (cases kvs) (simp_all add: marshal_pair_def marshal_string_def)
    ultimately show ?thesis
      by (auto simp: n marshal_string_map_eq skip_ws_Cons)
  qed
qed

lemma Unmarshal_marshal_map:
  "Unmarshal (marshal_string_map m) =
     Some (JObj (map (\<lambda>p. (fst p, JStr (snd p))) (sort_key fst m)))"
  using pval_marshal_map [of m "2 * length (marshal_string_map m) + 2" "[]"]
  by (simp add: Unmarshal_def skip_ws_def del: pval.simps)

subsection \<open>Base64 round trip\<close>

lemma distinct_b64_alphabet: "distinct b64_alphabet" "length b64_alphabet = 64"
  by (simp_all add: b64_alphabet_def)

lemma b64_val_char: "n < 64 \<Longrightarrow> b64_val (b64_char n) = Some n"
  using distinct_b64_alphabet
  by (auto simp: b64_val_def b64_char_def map_of_zip_nth)

lemma b64_char_plain:
  assumes "n < 64"
  shows "b64_char n \<noteq> CHR ''=''" "b64_char n \<noteq> CHR 0x0A" "b64_char n \<noteq> CHR 0x0D"
proof -
  have "b64_char n \<in> set b64_alphabet"
    using assms distinct_b64_alphabet by (simp add: b64_char_def)
  moreover have "CHR ''='' \<notin> set b64_alphabet" "CHR 0x0A \<notin> set b64_alphabet"
    "CHR 0x0D \<notin> set b64_alphabet"
    by (simp_all add: b64_alphabet_def)
  ultimately show "b64_char n \<noteq> CHR ''=''" "b64_char n \<noteq> CHR 0x0A" "b64_char n \<noteq> CHR 0x0D"
    by auto
qed

lemma digit_div_mod: "b < c \<Longrightarrow> (a * c + b) div c = (a::nat)" "b < c \<Longrightarrow> (a * c + b) mod c = b"
  by simp_all

lemma byte_parts:
  fixes n :: nat assumes "n < 256"
  shows "n div 4 < 64" "n div 16 < 16" "n div 64 < 4"
  using assms by linarith+

lemma sextets_less:
  fixes m n k :: nat assumes "m < 256" "n < 256" "k < 256"
  shows "m mod 4 * 16 < 64" "m mod 4 * 16 + n div 16 < 64" "n mod 16 * 4 < 64"
    "n mod 16 * 4 + k div 64 < 64" "k mod 64 < 64"
proof -
  have "m mod 4 < 4" "n mod 16 < 16" "k mod 64 < 64" by simp_all
  with byte_parts(2) [OF assms(2)] byte_parts(3) [OF assms(3)]
  show "m mod 4 * 16 < 64" "m mod 4 * 16 + n div 16 < 64" "n mod 16 * 4 < 64"
    "n mod 16 * 4 + k div 64 < 64" "k mod 64 < 64"
    by linarith+
qed

lemma b64_decode_encode: "b64_decode (EncodeToString s) = Some s"
proof (induction s rule: EncodeToString.induct)
  case (2 a)
  let ?m = "of_char a :: nat"
  have m: "?m < 256" by simp
  show ?case
    using byte_parts [OF m] sextets_less [OF m m m]
    by (simp add: Let_def b64_val_char b64_char_plain)
next
  case (3 a b)
  let ?m = "of_char a :: nat" and ?n = "of_char b :: nat"
  have m: "?m < 256" and n: "?n < 256" by simp_all
  show ?case
    using byte_parts [OF m] byte_parts [OF n] sextets_less [OF m n n]
    by (simp add: Let_def b64_val_char b64_char_plain digit_div_mod)
next
  case (4 a b c r)
  let ?m = "of_char a :: nat" and ?n = "of_char b :: nat" and ?k = "of_char c :: nat"
  have m: "?m < 256" and n: "?n < 256" and k: "?k < 256" by simp_all
  show ?case
    using byte_parts [OF m] byte_parts [OF n] byte_parts [OF k] sextets_less [OF m n k] "4"
    by (simp add: Let_def b64_val_char b64_char_plain digit_div_mod)
qed simp

lemma EncodeToString_plain:
  "c \<in> set (EncodeToString s) \<Longrightarrow> c \<noteq> CHR 0x0A \<and> c \<noteq> CHR 0x0D"
proof (induction s rule: EncodeToString.induct)
  case (4 x y z r)
  have b: "of_char x < (256::nat)" "of_char y < (256::nat)" "of_char z < (256::nat)" by simp_all
  show ?case
    using "4" byte_parts(1) [OF b(1)] sextets_less [OF b] by (auto simp: Let_def b64_char_plain)
next
  case (3 x y)
  have b: "of_char x < (256::nat)" "of_char y < (256::nat)" by simp_all
  show ?case
    using "3" byte_parts(1) [OF b(1)] sextets_less [OF b b(2)] by (auto simp: Let_def b64_char_plain)
next
  case (2 x)
  have b: "of_char x < (256::nat)" by simp
  show ?case
    using "2" byte_parts(1) [OF b] sextets_less [OF b b b] by (auto simp: Let_def b64_char_plain)
qed simp

lemma DecodeString_EncodeToString: "DecodeString (EncodeToString s) = Some s"
proof -
  have "filter (\<lambda>c. c \<noteq> CHR 0x0A \<and> c \<noteq> CHR 0x0D) (EncodeToString s) = EncodeToString s"
    using EncodeToString_plain by (intro filter_True) blast
  then show ?thesis by (simp add: DecodeString_def b64_decode_encode)
qed

end
