(* ===== verification/Query_Types.thy ===== *)
theory Query_Types
  imports Kuery_Prelude
begin

text \<open>
  The API types of \<open>apis/query/v1alpha1/types.go\<close>: one record per struct, the two
  mutually recursive structs \<open>ObjectsSpec\<close> and \<open>RelationSpec\<close> and the recursive
  \<open>ObjectResult\<close> as datatypes. An optional pointer is an \<open>option\<close>; a nil slice or map
  and an empty one are the same list, since the sources only range over them and take
  their length. \<open>metav1.Time\<close> is a count of nanoseconds, \<open>runtime.RawExtension\<close> its
  raw bytes.
\<close>

record ClusterFilter =
  cf_Name :: string
  cf_Labels :: "string gomap"

record GroupKindFilter =
  gk_APIGroup :: string
  gk_Kind :: string

record LabelExpression =
  le_Key :: string
  le_Operator :: string
  le_Values :: "string list"

abbreviation LabelOpIn :: string where "LabelOpIn \<equiv> ''In''"
abbreviation LabelOpNotIn :: string where "LabelOpNotIn \<equiv> ''NotIn''"
abbreviation LabelOpExists :: string where "LabelOpExists \<equiv> ''Exists''"
abbreviation LabelOpDoesNotExist :: string where "LabelOpDoesNotExist \<equiv> ''DoesNotExist''"

record ConditionFilter =
  cond_Type :: string
  cond_Status :: string
  cond_Reason :: string

record TimestampFilter =
  ts_After :: "gotime option"
  ts_Before :: "gotime option"

record ObjectFilter =
  of_GroupKind :: "GroupKindFilter option"
  of_Name :: string
  of_Namespace :: string
  of_Labels :: "string gomap"
  of_LabelExpressions :: "LabelExpression list"
  of_Conditions :: "ConditionFilter list"
  of_CreationTimestamp :: "TimestampFilter option"
  of_ID :: string
  of_JSONPath :: string
  of_Categories :: "string list"

record QueryFilter =
  qf_Objects :: "ObjectFilter list"

record PageSpec =
  pg_First :: int32
  pg_Cursor :: string

record OrderSpec =
  ord_Field :: string
  ord_Direction :: string

abbreviation SortAsc :: string where "SortAsc \<equiv> ''Asc''"
abbreviation SortDesc :: string where "SortDesc \<equiv> ''Desc''"

datatype ObjectsSpec =
  ObjectsSpec (os_ID: bool) (os_Cluster: bool) (os_MutablePath: bool)
    (os_Object: "string option") (os_Relations: "(string \<times> RelationSpec) list")
and RelationSpec =
  RelationSpec (rs_Limit: int32) (rs_Filters: "ObjectFilter list")
    (rs_Objects: "ObjectsSpec option")

record QuerySpec =
  qs_Cluster :: "ClusterFilter option"
  qs_Filter :: "QueryFilter option"
  qs_Limit :: int32
  qs_Page :: "PageSpec option"
  qs_Order :: "OrderSpec list"
  qs_Count :: bool
  qs_Cursor :: bool
  qs_MaxDepth :: int32
  qs_Objects :: "ObjectsSpec option"

datatype ObjectResult =
  ObjectResult (res_ID: string) (res_Cluster: string) (res_MutablePath: string)
    (res_Object: "string option") (res_Relations: "(string \<times> ObjectResult list) list")

record CursorResult =
  cr_Next :: string
  cr_Page :: int32
  cr_PageSize :: int32

record QueryStatus =
  st_Objects :: "ObjectResult list"
  st_Cursor :: "CursorResult option"
  st_Count :: "int64 option"
  st_Incomplete :: bool
  st_Warnings :: "string list"

subsection \<open>Zero values\<close>

definition zero_ObjectFilter :: ObjectFilter where
  "zero_ObjectFilter = \<lparr>of_GroupKind = None, of_Name = [], of_Namespace = [], of_Labels = [],
     of_LabelExpressions = [], of_Conditions = [], of_CreationTimestamp = None, of_ID = [],
     of_JSONPath = [], of_Categories = []\<rparr>"

definition zero_QuerySpec :: QuerySpec where
  "zero_QuerySpec = \<lparr>qs_Cluster = None, qs_Filter = None, qs_Limit = 0, qs_Page = None,
     qs_Order = [], qs_Count = False, qs_Cursor = False, qs_MaxDepth = 0, qs_Objects = None\<rparr>"

text \<open>A read of a missing key of a \<open>map[string]string\<close> gives the empty string.\<close>

definition map_get :: "string gomap \<Rightarrow> string \<Rightarrow> string" where
  "map_get m k = (case map_of m k of None \<Rightarrow> [] | Some v \<Rightarrow> v)"

subsection \<open>Well-formed specs\<close>

text \<open>The keys of every Go map inside a spec are distinct.\<close>

fun wf_objects :: "ObjectsSpec \<Rightarrow> bool" and wf_relation :: "RelationSpec \<Rightarrow> bool" where
  "wf_objects (ObjectsSpec i c m raw rels) \<longleftrightarrow>
     distinct (map fst rels) \<and> list_all (\<lambda>p. wf_relation (snd p)) rels"
| "wf_relation (RelationSpec l fs os) \<longleftrightarrow>
     (case os of None \<Rightarrow> True | Some s \<Rightarrow> wf_objects s)"

end
