(* ===== verification/Ref_Paths.thy ===== *)
theory Ref_Paths
  imports Go_Json Query_Types
begin

text \<open>
  \<open>internal/engine/refs.go\<close>: the registry of reference paths (which spec field of which
  kind names an object of which other kind), the parser of the \<open>kuery.io/refs\<close>
  annotation, and the SQL subquery that extracts the referenced names of an object.
\<close>

record RefPath =
  rp_SourceKind :: string
  rp_SourceGroup :: string
  rp_TargetKind :: string
  rp_TargetGroup :: string
  rp_PGPath :: string
  rp_SQLiteArrayPath :: string
  rp_SQLiteFieldPath :: string

abbreviation rp :: "string \<Rightarrow> string \<Rightarrow> string \<Rightarrow> string \<Rightarrow> string \<Rightarrow> string \<Rightarrow> string \<Rightarrow> RefPath" where
  "rp sk sg tk tg pg ap fp \<equiv> \<lparr>rp_SourceKind = sk, rp_SourceGroup = sg, rp_TargetKind = tk,
     rp_TargetGroup = tg, rp_PGPath = pg, rp_SQLiteArrayPath = ap, rp_SQLiteFieldPath = fp\<rparr>"

text \<open>Source kind and group, target kind and group, PostgreSQL path, SQLite array and
  field paths.\<close>

definition BuiltinRefPaths :: "RefPath list" where
  "BuiltinRefPaths =
     [
      rp ''Pod'' [] ''Secret'' []
        ''$.spec.volumes[*].secret.secretName''
        ''$.spec.volumes'' ''$.secret.secretName'',
      rp ''Pod'' [] ''ConfigMap'' []
        ''$.spec.volumes[*].configMap.name''
        ''$.spec.volumes'' ''$.configMap.name'',
      rp ''Pod'' [] ''PersistentVolumeClaim'' []
        ''$.spec.volumes[*].persistentVolumeClaim.claimName''
        ''$.spec.volumes'' ''$.persistentVolumeClaim.claimName'',
      rp ''Pod'' [] ''ServiceAccount'' []
        ''$.spec.serviceAccountName''
        [] ''$.spec.serviceAccountName'',
      rp ''Pod'' [] ''Secret'' []
        ''$.spec.imagePullSecrets[*].name''
        ''$.spec.imagePullSecrets'' ''$.name'',
      rp ''Pod'' [] ''Secret'' []
        ''$.spec.containers[*].env[*].valueFrom.secretKeyRef.name''
        ''$.spec.containers'' ''NESTED_ENV_SECRET'',
      rp ''Pod'' [] ''ConfigMap'' []
        ''$.spec.containers[*].env[*].valueFrom.configMapKeyRef.name''
        ''$.spec.containers'' ''NESTED_ENV_CONFIGMAP'',
      rp ''Pod'' [] ''Secret'' []
        ''$.spec.containers[*].envFrom[*].secretRef.name''
        ''$.spec.containers'' ''NESTED_ENVFROM_SECRET'',
      rp ''Pod'' [] ''ConfigMap'' []
        ''$.spec.containers[*].envFrom[*].configMapRef.name''
        ''$.spec.containers'' ''NESTED_ENVFROM_CONFIGMAP'',
      rp ''Ingress'' ''networking.k8s.io'' ''Service'' []
        ''$.spec.rules[*].http.paths[*].backend.service.name''
        ''$.spec.rules'' ''NESTED_INGRESS_SERVICE'',
      rp ''Ingress'' ''networking.k8s.io'' ''Secret'' []
        ''$.spec.tls[*].secretName''
        ''$.spec.tls'' ''$.secretName'',
      rp ''PersistentVolumeClaim'' [] ''StorageClass'' ''storage.k8s.io''
        ''$.spec.storageClassName''
        [] ''$.spec.storageClassName'',
      rp ''PersistentVolumeClaim'' [] ''PersistentVolume'' []
        ''$.spec.volumeName''
        [] ''$.spec.volumeName'',
      rp ''RoleBinding'' ''rbac.authorization.k8s.io'' ''ClusterRole'' ''rbac.authorization.k8s.io''
        ''$.roleRef.name''
        [] ''$.roleRef.name'',
      rp ''ClusterRoleBinding'' ''rbac.authorization.k8s.io'' ''ClusterRole'' ''rbac.authorization.k8s.io''
        ''$.roleRef.name''
        [] ''$.roleRef.name'']"

subsection \<open>The registry\<close>

record RefPathRegistry =
  reg_paths :: "RefPath list gomap"

definition reg_key :: "RefPath \<Rightarrow> string" where
  "reg_key p = rp_SourceGroup p @ ''/'' @ rp_SourceKind p"

definition reg_get :: "RefPath list gomap \<Rightarrow> string \<Rightarrow> RefPath list" where
  "reg_get m k = (case map_of m k of None \<Rightarrow> [] | Some ps \<Rightarrow> ps)"

fun Register :: "RefPathRegistry \<Rightarrow> RefPath list \<Rightarrow> RefPathRegistry" where
  "Register r [] = r"
| "Register r (p # ps) =
     Register (r\<lparr>reg_paths := AList.update (reg_key p) (reg_get (reg_paths r) (reg_key p) @ [p])
        (reg_paths r)\<rparr>) ps"

text \<open>The constructor runs the same loop over the built-in paths.\<close>

definition NewRefPathRegistry :: RefPathRegistry where
  "NewRefPathRegistry = Register \<lparr>reg_paths = []\<rparr> BuiltinRefPaths"

definition Lookup :: "RefPathRegistry \<Rightarrow> string \<Rightarrow> string \<Rightarrow> RefPath list" where
  "Lookup r sourceGroup sourceKind = reg_get (reg_paths r) (sourceGroup @ ''/'' @ sourceKind)"

definition LookupForTarget :: "RefPathRegistry \<Rightarrow> string \<Rightarrow> string \<Rightarrow> string \<Rightarrow> string \<Rightarrow> RefPath list" where
  "LookupForTarget r sourceGroup sourceKind targetGroup targetKind =
     filter (\<lambda>p. rp_TargetKind p = targetKind \<and> (targetGroup = [] \<or> rp_TargetGroup p = targetGroup))
       (Lookup r sourceGroup sourceKind)"

subsection \<open>The annotation\<close>

text \<open>\<open>json.Unmarshal\<close> into a slice of structs: each member is matched to a field name
  without regard to case, unknown members are skipped, \<open>null\<close> leaves the zero value and
  any other type is an error.\<close>

record refs_entry =
  ent_Path :: string
  ent_TargetKind :: string
  ent_TargetGroup :: string

definition set_string_field :: "json \<Rightarrow> (string \<Rightarrow> 'a \<Rightarrow> 'a) \<Rightarrow> 'a \<Rightarrow> 'a option" where
  "set_string_field v upd e =
     (case v of JStr s \<Rightarrow> Some (upd s e) | JNull \<Rightarrow> Some e | _ \<Rightarrow> None)"

fun decode_entry :: "(string \<times> json) list \<Rightarrow> refs_entry \<Rightarrow> refs_entry option" where
  "decode_entry [] e = Some e"
| "decode_entry ((k, v) # kvs) e =
     Option.bind
       (if EqualFold k ''path'' then set_string_field v (\<lambda>s. ent_Path_update (\<lambda>_. s)) e
        else if EqualFold k ''targetKind'' then set_string_field v (\<lambda>s. ent_TargetKind_update (\<lambda>_. s)) e
        else if EqualFold k ''targetGroup'' then set_string_field v (\<lambda>s. ent_TargetGroup_update (\<lambda>_. s)) e
        else Some e)
       (decode_entry kvs)"

definition zero_entry :: refs_entry where
  "zero_entry = \<lparr>ent_Path = [], ent_TargetKind = [], ent_TargetGroup = []\<rparr>"

fun decode_entries :: "json list \<Rightarrow> refs_entry list option" where
  "decode_entries [] = Some []"
| "decode_entries (v # vs) =
     Option.bind (case v of JObj kvs \<Rightarrow> decode_entry kvs zero_entry | JNull \<Rightarrow> Some zero_entry | _ \<Rightarrow> None)
       (\<lambda>e. map_option ((#) e) (decode_entries vs))"

definition unmarshal_entries :: "string \<Rightarrow> refs_entry list option" where
  "unmarshal_entries s =
     (case Unmarshal s of
        Some (JArr vs) \<Rightarrow> decode_entries vs
      | Some JNull \<Rightarrow> Some []
      | _ \<Rightarrow> None)"

definition ParseCRDRefAnnotation :: "string \<Rightarrow> string \<Rightarrow> string \<Rightarrow> RefPath list result" where
  "ParseCRDRefAnnotation sourceKind sourceGroup annotationValue =
     (case unmarshal_entries annotationValue of
        None \<Rightarrow> Inl InvalidRefsAnnotation
      | Some entries \<Rightarrow>
          Inr (map (\<lambda>e. \<lparr>rp_SourceKind = sourceKind, rp_SourceGroup = sourceGroup,
              rp_TargetKind = ent_TargetKind e, rp_TargetGroup = ent_TargetGroup e,
              rp_PGPath = ent_Path e, rp_SQLiteArrayPath = [], rp_SQLiteFieldPath = ent_Path e\<rparr>)
            entries))"

subsection \<open>The name subquery\<close>

definition buildSQLiteRefSubquery :: "RefPath \<Rightarrow> string \<Rightarrow> string" where
  "buildSQLiteRefSubquery p sourceAlias =
     (if rp_SQLiteArrayPath p = [] then
        Sprintf ''(SELECT json_extract(%s.object, '%s'))'' [sourceAlias, rp_SQLiteFieldPath p]
      else if rp_SQLiteFieldPath p = ''NESTED_ENV_SECRET'' then
        Sprintf (''(SELECT json_extract(env.value, '$.valueFrom.secretKeyRef.name') '' @
          ''FROM json_each(json_extract(%s.object, '$.spec.containers')) cont, '' @
          ''json_each(json_extract(cont.value, '$.env')) env '' @
          ''WHERE json_extract(env.value, '$.valueFrom.secretKeyRef.name') IS NOT NULL)'') [sourceAlias]
      else if rp_SQLiteFieldPath p = ''NESTED_ENV_CONFIGMAP'' then
        Sprintf (''(SELECT json_extract(env.value, '$.valueFrom.configMapKeyRef.name') '' @
          ''FROM json_each(json_extract(%s.object, '$.spec.containers')) cont, '' @
          ''json_each(json_extract(cont.value, '$.env')) env '' @
          ''WHERE json_extract(env.value, '$.valueFrom.configMapKeyRef.name') IS NOT NULL)'') [sourceAlias]
      else if rp_SQLiteFieldPath p = ''NESTED_ENVFROM_SECRET'' then
        Sprintf (''(SELECT json_extract(ef.value, '$.secretRef.name') '' @
          ''FROM json_each(json_extract(%s.object, '$.spec.containers')) cont, '' @
          ''json_each(json_extract(cont.value, '$.envFrom')) ef '' @
          ''WHERE json_extract(ef.value, '$.secretRef.name') IS NOT NULL)'') [sourceAlias]
      else if rp_SQLiteFieldPath p = ''NESTED_ENVFROM_CONFIGMAP'' then
        Sprintf (''(SELECT json_extract(ef.value, '$.configMapRef.name') '' @
          ''FROM json_each(json_extract(%s.object, '$.spec.containers')) cont, '' @
          ''json_each(json_extract(cont.value, '$.envFrom')) ef '' @
          ''WHERE json_extract(ef.value, '$.configMapRef.name') IS NOT NULL)'') [sourceAlias]
      else if rp_SQLiteFieldPath p = ''NESTED_INGRESS_SERVICE'' then
        Sprintf (''(SELECT json_extract(p.value, '$.backend.service.name') '' @
          ''FROM json_each(json_extract(%s.object, '$.spec.rules')) r, '' @
          ''json_each(json_extract(r.value, '$.http.paths')) p '' @
          ''WHERE json_extract(p.value, '$.backend.service.name') IS NOT NULL)'') [sourceAlias]
      else
        Sprintf (''(SELECT json_extract(je.value, '%s') '' @
          ''FROM json_each(json_extract(%s.object, '%s')) je '' @
          ''WHERE json_extract(je.value, '%s') IS NOT NULL)'')
          [rp_SQLiteFieldPath p, sourceAlias, rp_SQLiteArrayPath p, rp_SQLiteFieldPath p])"

definition BuildRefNameSubquery :: "RefPath \<Rightarrow> string \<Rightarrow> string \<Rightarrow> string" where
  "BuildRefNameSubquery p sourceAlias dialect =
     (if dialect = ''postgres'' then
        Sprintf ''(SELECT v#>>'{}' FROM jsonb_path_query(%s.object, '%s') v)'' [sourceAlias, rp_PGPath p]
      else buildSQLiteRefSubquery p sourceAlias)"

subsection \<open>Lemmas\<close>

lemma reg_get_update:
  "reg_get (AList.update k v m) k' = (if k' = k then v else reg_get m k')"
  by (simp add: reg_get_def update_conv)

lemma reg_get_Register:
  "reg_get (reg_paths (Register r ps)) k =
     reg_get (reg_paths r) k @ filter (\<lambda>p. reg_key p = k) ps"
  by (induction ps arbitrary: r) (simp_all add: reg_get_update)

lemma reg_key_eq:
  "CHR ''/'' \<notin> set k \<Longrightarrow> CHR ''/'' \<notin> set (rp_SourceKind p) \<Longrightarrow>
     reg_key p = g @ CHR ''/'' # k \<longleftrightarrow> rp_SourceGroup p = g \<and> rp_SourceKind p = k"
  by (auto simp: reg_key_def append_sep_inj_right)

lemma Lookup_Register:
  assumes "CHR ''/'' \<notin> set k" and "\<forall>p \<in> set ps. CHR ''/'' \<notin> set (rp_SourceKind p)"
  shows "Lookup (Register r ps) g k =
     Lookup r g k @ filter (\<lambda>p. rp_SourceGroup p = g \<and> rp_SourceKind p = k) ps"
proof -
  have "filter (\<lambda>p. reg_key p = g @ ''/'' @ k) ps =
      filter (\<lambda>p. rp_SourceGroup p = g \<and> rp_SourceKind p = k) ps"
    using assms by (intro filter_cong) (simp_all add: reg_key_eq)
  then show ?thesis by (simp add: Lookup_def reg_get_Register)
qed

lemma BuiltinRefPaths_kinds: "\<forall>p \<in> set BuiltinRefPaths. CHR ''/'' \<notin> set (rp_SourceKind p)"
  by code_simp

text \<open>Every name subquery is one parenthesised SELECT.\<close>

definition fmt_parens :: "string \<Rightarrow> nat \<Rightarrow> bool" where
  "fmt_parens fmt n \<longleftrightarrow> length fmt \<ge> 2 \<and> hd fmt = CHR ''('' \<and> last fmt = CHR '')''
     \<and> verbs (butlast (tl fmt)) = Some n"

lemma Sprintf_parens:
  assumes "fmt_parens fmt (length args)" shows "\<exists>q. Sprintf fmt args = ''('' @ q @ '')''"
proof -
  obtain mid where fmt: "fmt = ''('' @ mid @ '')''"
    using assms unfolding fmt_parens_def
    by (cases fmt; cases "tl fmt" rule: rev_cases) auto
  with assms have "verbs mid = Some (length args)" by (simp add: fmt_parens_def)
  then show ?thesis using fmt by (simp add: Sprintf_snoc Sprintf.simps(2) [of "CHR ''(''"])
qed

lemma BuildRefNameSubquery_parens:
  "\<exists>q. BuildRefNameSubquery p al d = ''('' @ q @ '')''"
  unfolding BuildRefNameSubquery_def buildSQLiteRefSubquery_def
  by (split if_split, intro conjI impI; (rule Sprintf_parens, code_simp)?)+

definition clean_path :: "RefPath \<Rightarrow> bool" where
  "clean_path p \<longleftrightarrow> qmarks (rp_PGPath p) = 0 \<and> qmarks (rp_SQLiteArrayPath p) = 0
     \<and> qmarks (rp_SQLiteFieldPath p) = 0"

lemma clean_BuiltinRefPaths: "\<forall>p \<in> set BuiltinRefPaths. clean_path p"
  by code_simp

lemma qmarks_BuildRefNameSubquery:
  "clean_path p \<Longrightarrow> qmarks al = 0 \<Longrightarrow> qmarks (BuildRefNameSubquery p al d) = 0"
  unfolding BuildRefNameSubquery_def buildSQLiteRefSubquery_def clean_path_def
  by (split if_split, intro conjI impI; (rule qmarks_fmt0, code_simp, simp)?)+

subsection \<open>Properties\<close>

text \<open>What the registry returns for a source kind: after \<open>Register\<close>, the paths already
  registered for that group and kind followed by the new ones for it, in order. No path of
  another kind is returned, although the key is a joined string.\<close>

theorem Register_Lookup:
  assumes "CHR ''/'' \<notin> set k" and "\<forall>p \<in> set ps. CHR ''/'' \<notin> set (rp_SourceKind p)"
  shows "Lookup (Register r ps) g k =
     Lookup r g k @ filter (\<lambda>p. rp_SourceGroup p = g \<and> rp_SourceKind p = k) ps"
  using assms by (rule Lookup_Register)

theorem Register_Lookup_witness:
  "Lookup NewRefPathRegistry ''networking.k8s.io'' ''Ingress'' =
     Lookup \<lparr>reg_paths = []\<rparr> ''networking.k8s.io'' ''Ingress'' @
       filter (\<lambda>p. rp_SourceGroup p = ''networking.k8s.io'' \<and> rp_SourceKind p = ''Ingress'') BuiltinRefPaths
   \<and> map rp_TargetKind (Lookup NewRefPathRegistry ''networking.k8s.io'' ''Ingress'') = [''Service'', ''Secret'']"
proof -
  have "Lookup NewRefPathRegistry ''networking.k8s.io'' ''Ingress'' =
     Lookup \<lparr>reg_paths = []\<rparr> ''networking.k8s.io'' ''Ingress'' @
       filter (\<lambda>p. rp_SourceGroup p = ''networking.k8s.io'' \<and> rp_SourceKind p = ''Ingress'') BuiltinRefPaths"
    unfolding NewRefPathRegistry_def
    by (rule Register_Lookup [OF _ BuiltinRefPaths_kinds]) simp
  then show ?thesis by (simp add: BuiltinRefPaths_def Lookup_def reg_get_def)
qed

end
