(* ===== verification/Query_Relations.thy ===== *)
theory Query_Relations
  imports Ref_Paths
begin

text \<open>
  \<open>internal/engine/relations.go\<close>: the relation names and, for each relation, the JOIN
  clause that leads from the parent alias to the child alias, with the extra WHERE
  conditions and their arguments. The dialect is a string, and every builder treats
  anything but \<open>postgres\<close> as SQLite.
\<close>

abbreviation RelOwners :: string where "RelOwners \<equiv> ''owners''"
abbreviation RelDescendants :: string where "RelDescendants \<equiv> ''descendants''"
abbreviation RelReferences :: string where "RelReferences \<equiv> ''references''"
abbreviation RelSelects :: string where "RelSelects \<equiv> ''selects''"
abbreviation RelSelectedBy :: string where "RelSelectedBy \<equiv> ''selected-by''"
abbreviation RelEvents :: string where "RelEvents \<equiv> ''events''"
abbreviation RelLinked :: string where "RelLinked \<equiv> ''linked''"
abbreviation RelGrouped :: string where "RelGrouped \<equiv> ''grouped''"

definition IsTransitive :: "string \<Rightarrow> bool" where
  "IsTransitive name = HasSuffix name ''+''"

definition BaseRelation :: "string \<Rightarrow> string" where
  "BaseRelation name = TrimSuffix name ''+''"

record relationContext =
  rc_parentAlias :: string
  rc_childAlias :: string
  rc_dialect :: string
  rc_filters :: "ObjectFilter list"
  rc_refRegistry :: "RefPathRegistry option"

type_synonym join_result = "string \<times> string list \<times> sqlarg list"

definition buildDescendantJoin :: "relationContext \<Rightarrow> join_result" where
  "buildDescendantJoin ctx =
     (let child = rc_childAlias ctx; parent = rc_parentAlias ctx;
          join = (if rc_dialect ctx = ''postgres'' then
            Sprintf (''JOIN objects %s ON %s.cluster = %s.cluster '' @
              ''AND %s.owner_refs @> jsonb_build_array(jsonb_build_object('uid', %s.uid))'')
              [child, child, parent, child, parent]
          else
            Sprintf (''JOIN objects %s ON %s.cluster = %s.cluster '' @
              ''AND EXISTS (SELECT 1 FROM json_each(%s.owner_refs) oref WHERE json_extract(oref.value, '$.uid') = %s.uid)'')
              [child, child, parent, child, parent])
      in (join, [], []))"

definition buildOwnerJoin :: "relationContext \<Rightarrow> join_result" where
  "buildOwnerJoin ctx =
     (let child = rc_childAlias ctx; parent = rc_parentAlias ctx;
          join = (if rc_dialect ctx = ''postgres'' then
            Sprintf (''JOIN objects %s ON %s.cluster = %s.cluster '' @
              ''AND %s.uid IN (SELECT ref->>'uid' FROM jsonb_array_elements(%s.owner_refs) ref)'')
              [child, child, parent, child, parent]
          else
            Sprintf (''JOIN objects %s ON %s.cluster = %s.cluster '' @
              ''AND %s.uid IN (SELECT json_extract(oref.value, '$.uid') FROM json_each(%s.owner_refs) oref)'')
              [child, child, parent, child, parent])
      in (join, [], []))"

text \<open>The target kinds that the relation's filters name, and the reference paths that
  lead to one of them (to any kind, when no filter names one).\<close>

definition targetKinds :: "ObjectFilter list \<Rightarrow> string list" where
  "targetKinds filters =
     concat (map (\<lambda>f. case of_GroupKind f of None \<Rightarrow> []
                      | Some gk \<Rightarrow> if gk_Kind gk \<noteq> [] then [gk_Kind gk] else []) filters)"

definition noRows :: "relationContext \<Rightarrow> join_result" where
  "noRows ctx = (Sprintf ''JOIN objects %s ON 1=0'' [rc_childAlias ctx], [], [])"

definition buildReferenceJoin :: "relationContext \<Rightarrow> join_result" where
  "buildReferenceJoin ctx =
     (if rc_refRegistry ctx = None then noRows ctx
      else
        let kinds = targetKinds (rc_filters ctx);
            paths = filter (\<lambda>p. kinds = [] \<or> list_ex (EqualFold (rp_TargetKind p)) kinds) BuiltinRefPaths;
            nameSubqueries = map (\<lambda>p. TrimSuffix (TrimPrefix
                (BuildRefNameSubquery p (rc_parentAlias ctx) (rc_dialect ctx)) ''('') '')'') paths
        in if nameSubqueries = [] then noRows ctx
        else
          let child = rc_childAlias ctx; parent = rc_parentAlias ctx;
              join = Sprintf (''JOIN objects %s ON %s.cluster = %s.cluster '' @
                  ''AND %s.namespace = %s.namespace '' @
                  ''AND %s.name IN (%s)'')
                [child, child, parent, child, parent, child, Join nameSubqueries '' UNION ALL '']
          in if kinds \<noteq> [] then
               (join,
                [Sprintf ''%s.kind IN (%s)'' [child, Join (map (\<lambda>_. ''?'') kinds) '','']],
                map ArgString kinds)
             else (join, [], []))"

definition buildSelectsJoin :: "relationContext \<Rightarrow> join_result" where
  "buildSelectsJoin ctx =
     (let child = rc_childAlias ctx; parent = rc_parentAlias ctx;
          join = (if rc_dialect ctx = ''postgres'' then
            Sprintf (''JOIN objects %s ON %s.cluster = %s.cluster '' @
              ''AND %s.namespace = %s.namespace '' @
              ''AND %s.labels @> (%s.object->'spec'->'selector'->'matchLabels') '' @
              ''AND %s.object->'spec'->'selector'->'matchLabels' IS NOT NULL '' @
              ''AND %s.id != %s.id'')
              [child, child, parent, child, parent, child, parent, parent, child, parent]
          else
            Sprintf (''JOIN objects %s ON %s.cluster = %s.cluster '' @
              ''AND %s.namespace = %s.namespace '' @
              ''AND json_extract(%s.object, '$.spec.selector.matchLabels') IS NOT NULL '' @
              ''AND %s.id != %s.id '' @
              ''AND NOT EXISTS ('' @
              ''SELECT 1 FROM json_each(json_extract(%s.object, '$.spec.selector.matchLabels')) sel '' @
              ''WHERE json_extract(%s.labels, '$.' || sel.key) IS NULL '' @
              ''OR json_extract(%s.labels, '$.' || sel.key) != sel.value'' @
              '')'')
              [child, child, parent, child, parent, parent, child, parent, parent, child, child])
      in (join, [], []))"

definition buildSelectedByJoin :: "relationContext \<Rightarrow> join_result" where
  "buildSelectedByJoin ctx =
     (let child = rc_childAlias ctx; parent = rc_parentAlias ctx;
          join = (if rc_dialect ctx = ''postgres'' then
            Sprintf (''JOIN objects %s ON %s.cluster = %s.cluster '' @
              ''AND %s.namespace = %s.namespace '' @
              ''AND %s.labels @> (%s.object->'spec'->'selector'->'matchLabels') '' @
              ''AND %s.object->'spec'->'selector'->'matchLabels' IS NOT NULL '' @
              ''AND %s.id != %s.id'')
              [child, child, parent, child, parent, parent, child, child, child, parent]
          else
            Sprintf (''JOIN objects %s ON %s.cluster = %s.cluster '' @
              ''AND %s.namespace = %s.namespace '' @
              ''AND json_extract(%s.object, '$.spec.selector.matchLabels') IS NOT NULL '' @
              ''AND %s.id != %s.id '' @
              ''AND NOT EXISTS ('' @
              ''SELECT 1 FROM json_each(json_extract(%s.object, '$.spec.selector.matchLabels')) sel '' @
              ''WHERE json_extract(%s.labels, '$.' || sel.key) IS NULL '' @
              ''OR json_extract(%s.labels, '$.' || sel.key) != sel.value'' @
              '')'')
              [child, child, parent, child, parent, child, child, parent, child, parent, parent])
      in (join, [], []))"

definition buildEventsJoin :: "relationContext \<Rightarrow> join_result" where
  "buildEventsJoin ctx =
     (let child = rc_childAlias ctx; parent = rc_parentAlias ctx;
          join = (if rc_dialect ctx = ''postgres'' then
            Sprintf (''JOIN objects %s ON %s.cluster = %s.cluster '' @
              ''AND %s.kind = 'Event' '' @
              ''AND %s.object->'involvedObject'->>'uid' = %s.uid'')
              [child, child, parent, child, child, parent]
          else
            Sprintf (''JOIN objects %s ON %s.cluster = %s.cluster '' @
              ''AND %s.kind = 'Event' '' @
              ''AND json_extract(%s.object, '$.involvedObject.uid') = %s.uid'')
              [child, child, parent, child, child, parent])
      in (join, [], []))"

definition buildLinkedJoin :: "relationContext \<Rightarrow> join_result" where
  "buildLinkedJoin ctx =
     (let child = rc_childAlias ctx; parent = rc_parentAlias ctx;
          join = (if rc_dialect ctx = ''postgres'' then
            Sprintf (''JOIN LATERAL jsonb_array_elements('' @
              ''(%s.object->'metadata'->'annotations'->>'kuery.io/relates-to')::jsonb'' @
              '') AS ref ON true '' @
              ''JOIN objects %s ON %s.cluster = COALESCE(ref->>'cluster', %s.cluster) '' @
              ''AND %s.api_group = COALESCE(ref->>'group', '' @ [sq, sq] @ '') '' @
              ''AND %s.kind = ref->>'kind' '' @
              ''AND %s.namespace = COALESCE(ref->>'namespace', '' @ [sq, sq] @ '') '' @
              ''AND %s.name = ref->>'name'' @ [sq])
              [parent, child, child, parent, child, child, child, child]
          else
            Sprintf (''JOIN json_each(json_extract(%s.annotations, '$.'' @ [CHR 0x22] @ ''kuery.io/relates-to'' @ [CHR 0x22] @ sq # '')) ref ON 1=1 '' @
              ''JOIN objects %s ON %s.cluster = COALESCE(json_extract(ref.value, '$.cluster'), %s.cluster) '' @
              ''AND %s.api_group = COALESCE(json_extract(ref.value, '$.group'), '' @ [sq, sq] @ '') '' @
              ''AND %s.kind = json_extract(ref.value, '$.kind') '' @
              ''AND %s.namespace = COALESCE(json_extract(ref.value, '$.namespace'), '' @ [sq, sq] @ '') '' @
              ''AND %s.name = json_extract(ref.value, '$.name')'')
              [parent, child, child, parent, child, child, child, child])
      in (join, [], []))"

definition buildGroupedJoin :: "relationContext \<Rightarrow> join_result" where
  "buildGroupedJoin ctx =
     (let child = rc_childAlias ctx; parent = rc_parentAlias ctx;
          join = (if rc_dialect ctx = ''postgres'' then
            Sprintf (''JOIN objects %s ON %s.labels->>'kuery.io/group' = %s.labels->>'kuery.io/group' '' @
              ''AND %s.id != %s.id '' @
              ''AND %s.labels->>'kuery.io/group' IS NOT NULL'')
              [child, child, parent, child, parent, parent]
          else
            Sprintf (''JOIN objects %s ON json_extract(%s.labels, '$.'' @ [CHR 0x22] @ ''kuery.io/group'' @ [CHR 0x22] @ sq #
              '') = json_extract(%s.labels, '$.'' @ [CHR 0x22] @ ''kuery.io/group'' @ [CHR 0x22] @ sq # '') '' @
              ''AND %s.id != %s.id '' @
              ''AND json_extract(%s.labels, '$.'' @ [CHR 0x22] @ ''kuery.io/group'' @ [CHR 0x22] @ sq # '') IS NOT NULL'')
              [child, child, parent, child, parent, parent])
      in (join, [], []))"

definition buildRelationJoin :: "string \<Rightarrow> relationContext \<Rightarrow> join_result" where
  "buildRelationJoin relationType ctx =
     (if relationType = RelDescendants then buildDescendantJoin ctx
      else if relationType = RelOwners then buildOwnerJoin ctx
      else if relationType = RelReferences then buildReferenceJoin ctx
      else if relationType = RelSelects then buildSelectsJoin ctx
      else if relationType = RelSelectedBy then buildSelectedByJoin ctx
      else if relationType = RelEvents then buildEventsJoin ctx
      else if relationType = RelLinked then buildLinkedJoin ctx
      else if relationType = RelGrouped then buildGroupedJoin ctx
      else noRows ctx)"

subsection \<open>Relation names\<close>

lemma IsTransitive_iff: "IsTransitive n \<longleftrightarrow> (\<exists>b. n = b @ ''+'')"
  by (simp add: IsTransitive_def HasSuffix_iff)

lemma BaseRelation_eq: "BaseRelation n = (if IsTransitive n then butlast n else n)"
  by (auto simp: BaseRelation_def IsTransitive_def HasSuffix_iff) (simp add: TrimSuffix_def HasSuffix_iff)

lemma qmarks_BaseRelation: "qmarks n = 0 \<Longrightarrow> qmarks (BaseRelation n) = 0"
  by (simp add: BaseRelation_def qmarks_TrimSuffix)

subsection \<open>Placeholders of a join\<close>

text \<open>A JOIN clause has no placeholder of its own; its WHERE conditions have exactly one
  for each argument.\<close>

definition join_args_ok :: "join_result \<Rightarrow> bool" where
  "join_args_ok r \<longleftrightarrow> (case r of (join, wh, args) \<Rightarrow>
     qmarks join = 0 \<and> sum_list (map qmarks wh) = length args)"

definition clean_ctx :: "relationContext \<Rightarrow> bool" where
  "clean_ctx ctx \<longleftrightarrow> qmarks (rc_parentAlias ctx) = 0 \<and> qmarks (rc_childAlias ctx) = 0"

lemma join_args_ok_plain: "qmarks j = 0 \<Longrightarrow> join_args_ok (j, [], [])"
  by (simp add: join_args_ok_def)

lemma noRows_ok: "clean_ctx ctx \<Longrightarrow> join_args_ok (noRows ctx)"
  unfolding noRows_def clean_ctx_def
  by (intro join_args_ok_plain, rule qmarks_fmt0, code_simp) simp

lemma simple_joins_ok:
  assumes "clean_ctx ctx"
  shows "join_args_ok (buildDescendantJoin ctx)" "join_args_ok (buildOwnerJoin ctx)"
    "join_args_ok (buildSelectsJoin ctx)" "join_args_ok (buildSelectedByJoin ctx)"
    "join_args_ok (buildEventsJoin ctx)" "join_args_ok (buildLinkedJoin ctx)"
    "join_args_ok (buildGroupedJoin ctx)"
proof -
  have c: "qmarks (rc_parentAlias ctx) = 0" "qmarks (rc_childAlias ctx) = 0"
    using assms by (simp_all add: clean_ctx_def)
  show "join_args_ok (buildDescendantJoin ctx)" "join_args_ok (buildOwnerJoin ctx)"
    "join_args_ok (buildSelectsJoin ctx)" "join_args_ok (buildSelectedByJoin ctx)"
    "join_args_ok (buildEventsJoin ctx)" "join_args_ok (buildLinkedJoin ctx)"
    "join_args_ok (buildGroupedJoin ctx)"
    unfolding buildDescendantJoin_def buildOwnerJoin_def buildSelectsJoin_def buildSelectedByJoin_def
      buildEventsJoin_def buildLinkedJoin_def buildGroupedJoin_def Let_def
    by (rule join_args_ok_plain, split if_split, rule conjI,
        (rule impI, rule qmarks_fmt0, code_simp, simp add: c)+)+
qed

lemma qmarks_placeholders: "qmarks (Join (map (\<lambda>_. ''?'') xs) '','') = length xs"
  by (simp add: qmarks_Join comp_def qmarks_Cons sum_list_triv)

lemma buildReferenceJoin_ok:
  assumes "clean_ctx ctx"
  shows "join_args_ok (buildReferenceJoin ctx)"
proof -
  have q: "qmarks (TrimSuffix (TrimPrefix
      (BuildRefNameSubquery p (rc_parentAlias ctx) (rc_dialect ctx)) ''('') '')'') = 0"
    if "p \<in> set BuiltinRefPaths" for p
    using that clean_BuiltinRefPaths assms
    by (simp add: qmarks_TrimSuffix qmarks_TrimPrefix qmarks_BuildRefNameSubquery clean_ctx_def)
  have j: "qmarks (Sprintf (''JOIN objects %s ON %s.cluster = %s.cluster '' @
                  ''AND %s.namespace = %s.namespace '' @ ''AND %s.name IN (%s)'')
                [child, child, parent, child, parent, child, subq]) = 0"
    if "qmarks child = 0" "qmarks parent = 0" "qmarks subq = 0" for child parent subq
    using that by (intro qmarks_fmt0, code_simp) simp
  have k: "qmarks (Sprintf ''%s.kind IN (%s)'' [child, ph]) = qmarks ph"
    if "qmarks child = 0" for child ph
    using that by (subst qmarks_fmt [where k = 0], code_simp) simp
  have u: "qmarks '' UNION ALL '' = 0" by code_simp
  show ?thesis
    using assms noRows_ok [OF assms] q
    unfolding buildReferenceJoin_def Let_def
    by (auto simp: join_args_ok_def clean_ctx_def k qmarks_placeholders u
        intro!: j [simplified] qmarks_Join_zero)
qed

lemma buildRelationJoin_ok: "clean_ctx ctx \<Longrightarrow> join_args_ok (buildRelationJoin rel ctx)"
  by (simp add: buildRelationJoin_def simple_joins_ok buildReferenceJoin_ok noRows_ok)

subsection \<open>Properties\<close>

text \<open>A relation join is closed under parameter binding: for every relation name, both
  dialects and any filters, the JOIN clause contains no placeholder, so it can be repeated
  in the subqueries of nested relations without repeating arguments, and the extra WHERE
  conditions contain exactly as many placeholders as arguments are returned.\<close>

theorem relation_join_placeholders:
  assumes "qmarks (rc_parentAlias ctx) = 0" and "qmarks (rc_childAlias ctx) = 0"
    and "buildRelationJoin rel ctx = (join, wh, args)"
  shows "qmarks join = 0 \<and> sum_list (map qmarks wh) = length args"
  using buildRelationJoin_ok [of ctx rel] assms by (simp add: clean_ctx_def join_args_ok_def)

theorem relation_join_placeholders_witness:
  "\<exists>join wh. buildRelationJoin ''references''
      \<lparr>rc_parentAlias = ''l0'', rc_childAlias = ''l1'', rc_dialect = ''sqlite'',
       rc_filters = [zero_ObjectFilter\<lparr>of_GroupKind := Some \<lparr>gk_APIGroup = [], gk_Kind = ''Secret''\<rparr>\<rparr>],
       rc_refRegistry = Some NewRefPathRegistry\<rparr> = (join, wh, [ArgString ''Secret''])
    \<and> qmarks join = 0 \<and> sum_list (map qmarks wh) = 1"
proof -
  let ?ctx = "\<lparr>rc_parentAlias = ''l0'', rc_childAlias = ''l1'', rc_dialect = ''sqlite'',
       rc_filters = [zero_ObjectFilter\<lparr>of_GroupKind := Some \<lparr>gk_APIGroup = [], gk_Kind = ''Secret''\<rparr>\<rparr>],
       rc_refRegistry = Some NewRefPathRegistry\<rparr>"
  have "list_ex (\<lambda>p. list_ex (EqualFold (rp_TargetKind p)) [''Secret'']) BuiltinRefPaths" by code_simp
  then have "filter (\<lambda>p. EqualFold (rp_TargetKind p) ''Secret'') BuiltinRefPaths \<noteq> []"
    by (auto simp: list_ex_iff filter_empty_conv)
  then have "snd (snd (buildRelationJoin ''references'' ?ctx)) = [ArgString ''Secret'']"
    by (simp add: buildRelationJoin_def buildReferenceJoin_def Let_def targetKinds_def zero_ObjectFilter_def)
  then obtain join wh where b: "buildRelationJoin ''references'' ?ctx = (join, wh, [ArgString ''Secret''])"
    by (metis prod.collapse)
  have "qmarks (rc_parentAlias ?ctx) = 0" "qmarks (rc_childAlias ?ctx) = 0" by code_simp+
  from relation_join_placeholders [OF this b] b show ?thesis by auto
qed

text \<open>Only the built-in reference paths are ever joined: the SQL of the \<open>references\<close>
  relation is the same for every registry, so paths registered from \<open>kuery.io/refs\<close>
  annotations have no effect on a query.\<close>

theorem reference_join_ignores_registry:
  "buildRelationJoin ''references'' (ctx\<lparr>rc_refRegistry := Some (Register r ps)\<rparr>) =
     buildRelationJoin ''references'' (ctx\<lparr>rc_refRegistry := Some NewRefPathRegistry\<rparr>)"
  by (simp add: buildRelationJoin_def buildReferenceJoin_def noRows_def Let_def)

end
