(* ===== verification/Query_Projection.thy ===== *)
theory Query_Projection
  imports Go_Json Query_Types
begin

text \<open>
  \<open>internal/engine/projection.go\<close>: the SQL expression of a sparse projection. The
  projection spec is decoded into \<open>any\<close>, a nested map of field names; each dialect has
  its own builder.
\<close>

text \<open>\<open>json.Unmarshal\<close> into \<open>any\<close>: objects become maps, so a repeated key keeps its last
  value at every level.\<close>

fun norm_json :: "json \<Rightarrow> json" where
  "norm_json (JObj kvs) = JObj (go_map (map (\<lambda>p. (fst p, norm_json (snd p))) kvs))"
| "norm_json (JArr vs) = JArr (map norm_json vs)"
| "norm_json v = v"

definition UnmarshalAny :: "string \<Rightarrow> json option" where
  "UnmarshalAny s = map_option norm_json (Unmarshal s)"

definition childPath :: "string \<Rightarrow> string \<Rightarrow> string" where
  "childPath path key = (if path \<noteq> [] then path @ ''.'' @ key else key)"

fun buildProjectionSQLite :: "json \<Rightarrow> string \<Rightarrow> string \<Rightarrow> string" where
  "buildProjectionSQLite (JBool v) alias path =
     (if v then Sprintf ''json_extract(%s.object, '$.%s')'' [alias, path] else ''NULL'')"
| "buildProjectionSQLite (JObj m) alias path =
     (let parts = map (\<lambda>p. Sprintf (sq # ''%s', %s'')
            [fst p, buildProjectionSQLite (snd p) alias (childPath path (fst p))]) m
      in if parts = [] then ''NULL'' else Sprintf ''json_object(%s)'' [Join parts '', ''])"
| "buildProjectionSQLite v alias path =
     Sprintf ''json_extract(%s.object, '$.%s')'' [alias, path]"

definition buildPostgresPath :: "string \<Rightarrow> string \<Rightarrow> string" where
  "buildPostgresPath alias path =
     foldl (\<lambda>expr p. expr @ Sprintf (''->'%s'' @ [sq]) [p]) (alias @ ''.object'')
       (Split path (CHR ''.''))"

fun buildProjectionPostgres :: "json \<Rightarrow> string \<Rightarrow> string \<Rightarrow> string" where
  "buildProjectionPostgres (JBool v) alias path =
     (if v then buildPostgresPath alias path else ''NULL'')"
| "buildProjectionPostgres (JObj m) alias path =
     (let parts = map (\<lambda>p. Sprintf (sq # ''%s', %s'')
            [fst p, buildProjectionPostgres (snd p) alias (childPath path (fst p))]) m
      in if parts = [] then ''NULL'' else Sprintf ''jsonb_build_object(%s)'' [Join parts '', ''])"
| "buildProjectionPostgres v alias path = buildPostgresPath alias path"

definition BuildProjectionSQL :: "string \<Rightarrow> string \<Rightarrow> string \<Rightarrow> string result" where
  "BuildProjectionSQL raw dialect alias =
     (if raw = [] then Inr (alias @ ''.object'')
      else case UnmarshalAny raw of
        None \<Rightarrow> Inl InvalidProjectionSpec
      | Some spec \<Rightarrow>
          if dialect = ''sqlite'' then Inr (buildProjectionSQLite spec alias [])
          else if dialect = ''postgres'' then Inr (buildProjectionPostgres spec alias [])
          else Inr (buildProjectionSQLite spec alias []))"

subsection \<open>Field names\<close>

text \<open>All field names of a projection spec satisfy a predicate.\<close>

fun all_keys :: "(string \<Rightarrow> bool) \<Rightarrow> json \<Rightarrow> bool" where
  "all_keys P (JObj kvs) \<longleftrightarrow> list_all (\<lambda>p. P (fst p) \<and> all_keys P (snd p)) kvs"
| "all_keys P (JArr vs) \<longleftrightarrow> list_all (all_keys P) vs"
| "all_keys P v \<longleftrightarrow> True"

lemma foldl_append_concat: "foldl (\<lambda>e p. e @ f p) a ps = a @ concat (map f ps)"
  by (induction ps arbitrary: a) simp_all

lemma buildPostgresPath_concat:
  "buildPostgresPath alias path =
     alias @ ''.object'' @ concat (map (\<lambda>p. ''->'' @ [sq] @ p @ [sq]) (Split path (CHR ''.'')))"
  by (simp add: buildPostgresPath_def foldl_append_concat Sprintf.simps)

subsection \<open>A projection has no placeholders\<close>

lemma qmarks_childPath: "qmarks path = 0 \<Longrightarrow> qmarks key = 0 \<Longrightarrow> qmarks (childPath path key) = 0"
  by (simp add: childPath_def)

lemma qmarks_buildPostgresPath:
  assumes "qmarks alias = 0" and "qmarks path = 0"
  shows "qmarks (buildPostgresPath alias path) = 0"
proof -
  have "\<forall>p \<in> set (Split path (CHR ''.'')). qmarks p = 0"
    using set_Split qmarks_subset assms(2) by blast
  then show ?thesis
    using assms(1) by (auto simp: buildPostgresPath_concat qmarks_concat intro!: sum_list_zero_map)
qed

lemma qmarks_json_extract:
  "qmarks al = 0 \<Longrightarrow> qmarks path = 0 \<Longrightarrow>
     qmarks (Sprintf ''json_extract(%s.object, '$.%s')'' [al, path]) = 0"
  by (rule qmarks_fmt0, code_simp) simp

lemma qmarks_member:
  "qmarks k = 0 \<Longrightarrow> qmarks e = 0 \<Longrightarrow> qmarks (Sprintf (sq # ''%s', %s'') [k, e]) = 0"
  by (rule qmarks_fmt0, code_simp) simp

lemma qmarks_call:
  "qmarks e = 0 \<Longrightarrow> qmarks (Sprintf ''json_object(%s)'' [e]) = 0"
  "qmarks e = 0 \<Longrightarrow> qmarks (Sprintf ''jsonb_build_object(%s)'' [e]) = 0"
  by (rule qmarks_fmt0, code_simp, simp)+

lemma qmarks_NULL: "qmarks ''NULL'' = 0"
  by code_simp

lemmas qmarks_projection = qmarks_json_extract qmarks_member qmarks_call qmarks_NULL

lemma qmarks_buildProjectionSQLite:
  "all_keys (\<lambda>k. qmarks k = 0) v \<Longrightarrow> qmarks alias = 0 \<Longrightarrow> qmarks path = 0 \<Longrightarrow>
     qmarks (buildProjectionSQLite v alias path) = 0"
proof (induction v "alias" path rule: buildProjectionSQLite.induct)
  case (2 m al path)
  have "qmarks (buildProjectionSQLite (snd p) al (childPath path (fst p))) = 0 \<and> qmarks (fst p) = 0"
    if "p \<in> set m" for p
    using that 2 by (auto simp: list_all_iff qmarks_childPath)
  then show ?case
    by (auto simp: Let_def qmarks_NULL intro!: qmarks_call qmarks_Join_zero qmarks_member)
qed (simp_all add: qmarks_projection)

lemma qmarks_buildProjectionPostgres:
  "all_keys (\<lambda>k. qmarks k = 0) v \<Longrightarrow> qmarks alias = 0 \<Longrightarrow> qmarks path = 0 \<Longrightarrow>
     qmarks (buildProjectionPostgres v alias path) = 0"
proof (induction v "alias" path rule: buildProjectionPostgres.induct)
  case (2 m al path)
  have "qmarks (buildProjectionPostgres (snd p) al (childPath path (fst p))) = 0 \<and> qmarks (fst p) = 0"
    if "p \<in> set m" for p
    using that 2 by (auto simp: list_all_iff qmarks_childPath)
  then show ?case
    by (auto simp: Let_def qmarks_NULL intro!: qmarks_call qmarks_Join_zero qmarks_member)
qed (simp_all add: qmarks_projection qmarks_buildPostgresPath)

definition clean_raw :: "string \<Rightarrow> bool" where
  "clean_raw raw = (case UnmarshalAny raw of None \<Rightarrow> True | Some v \<Rightarrow> all_keys (\<lambda>k. qmarks k = 0) v)"

lemma qmarks_BuildProjectionSQL:
  "BuildProjectionSQL raw dialect alias = Inr e \<Longrightarrow> clean_raw raw \<Longrightarrow> qmarks alias = 0 \<Longrightarrow>
     qmarks e = 0"
  by (auto simp: BuildProjectionSQL_def clean_raw_def qmarks_buildProjectionSQLite
      qmarks_buildProjectionPostgres split: if_splits option.splits)

subsection \<open>The projection that both dialects render\<close>

text \<open>A dialect-independent projection: a field, read at a path of the stored object, or
  a new object built from named projections.\<close>

datatype proj = PNull | PField "string list" | PObject "(string \<times> proj) list"

fun proj_of :: "json \<Rightarrow> string list \<Rightarrow> proj" where
  "proj_of (JBool v) ps = (if v then PField ps else PNull)"
| "proj_of (JObj m) ps =
     (if m = [] then PNull else PObject (map (\<lambda>p. (fst p, proj_of (snd p) (ps @ [fst p]))) m))"
| "proj_of v ps = PField ps"

fun render_sqlite :: "string \<Rightarrow> proj \<Rightarrow> string" where
  "render_sqlite al PNull = ''NULL''"
| "render_sqlite al (PField ps) = ''json_extract('' @ al @ ''.object, '$.'' @ Join ps ''.'' @ sq # '')''"
| "render_sqlite al (PObject m) =
     ''json_object('' @ Join (map (\<lambda>p. sq # fst p @ sq # '', '' @ render_sqlite al (snd p)) m) '', '' @ '')''"

fun render_postgres :: "string \<Rightarrow> proj \<Rightarrow> string" where
  "render_postgres al PNull = ''NULL''"
| "render_postgres al (PField ps) =
     al @ ''.object'' @ concat (map (\<lambda>p. ''->'' @ [sq] @ p @ [sq]) ps)"
| "render_postgres al (PObject m) =
     ''jsonb_build_object('' @ Join (map (\<lambda>p. sq # fst p @ sq # '', '' @ render_postgres al (snd p)) m) '', '' @ '')''"

definition plain_key :: "string \<Rightarrow> bool" where
  "plain_key k \<longleftrightarrow> k \<noteq> [] \<and> CHR ''.'' \<notin> set k"

lemma Join_eq_Nil: "list_all plain_key ps \<Longrightarrow> Join ps ''.'' = [] \<longleftrightarrow> ps = []"
  by (cases ps; cases "tl ps") (auto simp: plain_key_def)

lemma childPath_Join:
  "list_all plain_key ps \<Longrightarrow> childPath (Join ps ''.'') k = Join (ps @ [k]) ''.''"
  by (simp add: childPath_def Join_eq_Nil Join_append)

lemma buildProjectionSQLite_render:
  "all_keys plain_key v \<Longrightarrow> list_all plain_key ps \<Longrightarrow>
     buildProjectionSQLite v al (Join ps ''.'') = render_sqlite al (proj_of v ps)"
proof (induction v ps rule: proj_of.induct)
  case (2 m ps)
  have "buildProjectionSQLite (snd p) al (childPath (Join ps ''.'') (fst p)) =
      render_sqlite al (proj_of (snd p) (ps @ [fst p]))" if "p \<in> set m" for p
    using that 2 by (cases p) (auto simp: list_all_iff childPath_Join)
  then have "map (\<lambda>p. Sprintf (sq # ''%s', %s'')
      [fst p, buildProjectionSQLite (snd p) al (childPath (Join ps ''.'') (fst p))]) m =
      map (\<lambda>p. sq # fst p @ sq # '', '' @ render_sqlite al (proj_of (snd p) (ps @ [fst p]))) m"
    by (simp add: Sprintf.simps)
  then show ?case by (simp add: Let_def comp_def Sprintf.simps del: map_eq_conv)
qed (simp_all add: Sprintf.simps)

lemma buildPostgresPath_Join:
  "list_all plain_key ps \<Longrightarrow> ps \<noteq> [] \<Longrightarrow>
     buildPostgresPath al (Join ps ''.'') = render_postgres al (PField ps)"
  by (subst buildPostgresPath_concat, subst Split_Join) (auto simp: list_all_iff plain_key_def)

lemma buildProjectionPostgres_render:
  "all_keys plain_key v \<Longrightarrow> list_all plain_key ps \<Longrightarrow> ps \<noteq> [] \<or> (\<exists>m. v = JObj m) \<Longrightarrow>
     buildProjectionPostgres v al (Join ps ''.'') = render_postgres al (proj_of v ps)"
proof (induction v ps rule: proj_of.induct)
  case (2 m ps)
  have "buildProjectionPostgres (snd p) al (childPath (Join ps ''.'') (fst p)) =
      render_postgres al (proj_of (snd p) (ps @ [fst p]))" if "p \<in> set m" for p
    using that 2 by (cases p) (auto simp: list_all_iff childPath_Join)
  then have "map (\<lambda>p. Sprintf (sq # ''%s', %s'')
      [fst p, buildProjectionPostgres (snd p) al (childPath (Join ps ''.'') (fst p))]) m =
      map (\<lambda>p. sq # fst p @ sq # '', '' @ render_postgres al (proj_of (snd p) (ps @ [fst p]))) m"
    by (simp add: Sprintf.simps)
  then show ?case by (simp add: Let_def comp_def Sprintf.simps del: map_eq_conv)
qed (simp_all add: buildPostgresPath_Join del: render_postgres.simps(2))

subsection \<open>Properties\<close>

text \<open>C37. The two dialects render the same projection, as long as its keys are plain: for a spec whose
  field names, at every level, are non-empty and contain no dot, the SQLite text and the PostgreSQL text are the two
  renderings of one dialect-independent projection of the spec.\<close>

theorem projection_dialects_agree:
  assumes "all_keys plain_key (JObj m)"
  shows "buildProjectionSQLite (JObj m) al [] = render_sqlite al (proj_of (JObj m) [])
    \<and> buildProjectionPostgres (JObj m) al [] = render_postgres al (proj_of (JObj m) [])"
  using buildProjectionSQLite_render [of "JObj m" "[]" al]
    buildProjectionPostgres_render [of "JObj m" "[]" al] assms
  by simp

theorem projection_dialects_agree_witness:
  "all_keys plain_key (JObj [(''metadata'', JObj [(''name'', JBool True)])])
   \<and> buildProjectionSQLite (JObj [(''metadata'', JObj [(''name'', JBool True)])]) ''obj'' [] =
       ''json_object('metadata', json_object('name', json_extract(obj.object, '$.metadata.name')))''
   \<and> buildProjectionPostgres (JObj [(''metadata'', JObj [(''name'', JBool True)])]) ''obj'' [] =
       ''jsonb_build_object('metadata', jsonb_build_object('name', obj.object->'metadata'->'name'))''"
proof -
  have k: "all_keys plain_key (JObj [(''metadata'', JObj [(''name'', JBool True)])])"
    by (simp add: plain_key_def)
  show ?thesis
    unfolding projection_dialects_agree [OF k, of "''obj''", THEN conjunct1]
      projection_dialects_agree [OF k, of "''obj''", THEN conjunct2]
    using k by simp
qed

text \<open>A dotted field name, such as an annotation key, breaks the PostgreSQL projection:
  the path is split at the dot of the name, so the expression reads a nested field
  \<open>kuery\<close> and its member \<open>io/group\<close> instead of the field \<open>kuery.io/group\<close>.\<close>

theorem projection_dotted_key_postgres:
  "buildProjectionPostgres (JObj [(''kuery.io/group'', JBool True)]) ''obj'' [] =
     ''jsonb_build_object('kuery.io/group', obj.object->'kuery'->'io/group')''
   \<and> render_postgres ''obj'' (proj_of (JObj [(''kuery.io/group'', JBool True)]) []) =
     ''jsonb_build_object('kuery.io/group', obj.object->'kuery.io/group')''"
  by code_simp

end
