(* ===== verification/Query_Transitive.thy ===== *)
theory Query_Transitive
  imports Query_Relations Query_Projection
begin

text \<open>
  \<open>internal/engine/transitive.go\<close>: the recursive common table expression of a
  transitive relation (a relation name with a \<open>+\<close> suffix) and the SELECT that reads it.
\<close>

record ancestorLevel =
  al_alias :: string
  al_join :: string

record transitiveResult =
  tr_cteName :: string
  tr_cteSQL :: string
  tr_cteArgs :: "sqlarg list"
  tr_selectSQL :: string
  tr_selectArgs :: "sqlarg list"

definition descendantJoinCond :: "string \<Rightarrow> string \<Rightarrow> string \<Rightarrow> string" where
  "descendantJoinCond child parent dialect =
     (if dialect = ''postgres'' then
        Sprintf ''%s.owner_refs @> jsonb_build_array(jsonb_build_object('uid', %s.uid))'' [child, parent]
      else
        Sprintf ''EXISTS (SELECT 1 FROM json_each(%s.owner_refs) oref WHERE json_extract(oref.value, '$.uid') = %s.uid)''
          [child, parent])"

definition ownerJoinCond :: "string \<Rightarrow> string \<Rightarrow> string \<Rightarrow> string" where
  "ownerJoinCond child parent dialect =
     (if dialect = ''postgres'' then
        Sprintf ''%s.uid IN (SELECT ref->>'uid' FROM jsonb_array_elements(%s.owner_refs) ref)'' [child, parent]
      else
        Sprintf ''%s.uid IN (SELECT json_extract(oref.value, '$.uid') FROM json_each(%s.owner_refs) oref)''
          [child, parent])"

definition linkedJoinCond :: "string \<Rightarrow> string \<Rightarrow> string \<Rightarrow> string" where
  "linkedJoinCond child parent dialect =
     (if dialect = ''postgres'' then
        Sprintf (''EXISTS (SELECT 1 FROM jsonb_array_elements((%s.object->'metadata'->'annotations'->>'kuery.io/relates-to')::jsonb) ref '' @
          ''WHERE %s.cluster = COALESCE(ref->>'cluster', %s.cluster) '' @
          ''AND %s.api_group = COALESCE(ref->>'group', '' @ [sq, sq] @ '') '' @
          ''AND %s.kind = ref->>'kind' '' @
          ''AND %s.namespace = COALESCE(ref->>'namespace', '' @ [sq, sq] @ '') '' @
          ''AND %s.name = ref->>'name')'')
          [parent, child, parent, child, child, child, child]
      else
        Sprintf (''EXISTS (SELECT 1 FROM json_each(json_extract(%s.annotations, '$.'' @ [CHR 0x22] @ ''kuery.io/relates-to'' @ [CHR 0x22] @ sq # '')) ref '' @
          ''WHERE %s.cluster = COALESCE(json_extract(ref.value, '$.cluster'), %s.cluster) '' @
          ''AND %s.api_group = COALESCE(json_extract(ref.value, '$.group'), '' @ [sq, sq] @ '') '' @
          ''AND %s.kind = json_extract(ref.value, '$.kind') '' @
          ''AND %s.namespace = COALESCE(json_extract(ref.value, '$.namespace'), '' @ [sq, sq] @ '') '' @
          ''AND %s.name = json_extract(ref.value, '$.name'))'')
          [parent, child, parent, child, child, child, child])"

definition transitiveJoinCond :: "string \<Rightarrow> string \<Rightarrow> string \<Rightarrow> string \<Rightarrow> string result" where
  "transitiveJoinCond relationType child parent dialect =
     (if relationType = RelDescendants then Inr (descendantJoinCond child parent dialect)
      else if relationType = RelOwners then Inr (ownerJoinCond child parent dialect)
      else if relationType = RelLinked then Inr (linkedJoinCond child parent dialect)
      else Inl (UnsupportedTransitive relationType))"

text \<open>The path segment an alias adds to a path expression.\<close>

definition pathSegment :: "string \<Rightarrow> string" where
  "pathSegment al =
     Sprintf '' || '.' || lower(%s.kind) || '.' || %s.namespace || '/' || %s.name'' [al, al, al]"

definition optProjection :: "ObjectsSpec option \<Rightarrow> string \<Rightarrow> string \<Rightarrow> string result" where
  "optProjection objSpec dialect al =
     (case objSpec of
        Some os \<Rightarrow>
          (case os_Object os of
             Some raw \<Rightarrow> if raw \<noteq> [] then BuildProjectionSQL raw dialect al else Inr (al @ ''.object'')
           | None \<Rightarrow> Inr (al @ ''.object''))
      | None \<Rightarrow> Inr (al @ ''.object''))"

text \<open>The conditions and arguments a relation filter adds to the final SELECT.\<close>

definition transitiveFilter :: "ObjectFilter \<Rightarrow> string \<Rightarrow> (string \<times> sqlarg) list" where
  "transitiveFilter f child =
     (case of_GroupKind f of None \<Rightarrow> []
      | Some gk \<Rightarrow> if gk_Kind gk \<noteq> [] then [(Sprintf ''%s.kind = ?'' [child], ArgString (gk_Kind gk))] else [])
     @ (if of_Name f \<noteq> [] then [(Sprintf ''%s.name = ?'' [child], ArgString (of_Name f))] else [])
     @ (if of_Namespace f \<noteq> [] then [(Sprintf ''%s.namespace = ?'' [child], ArgString (of_Namespace f))] else [])"

definition nl :: string where "nl = [CHR 0x0A]"

definition transitiveSelectCols :: "string \<Rightarrow> string" where
  "transitiveSelectCols cteName =
     Sprintf (''%s.id, %s.uid, %s.cluster, %s.api_group, %s.api_version, %s.kind, %s.resource, '' @
       ''%s.namespace, %s.name, %s.labels, %s.annotations, %s.owner_refs, %s.conditions, '' @
       ''%s.creation_ts, %s.resource_version, '' @
       ''%s.projected_object, '' @
       ''%s.path, '' @
       ''%s.level, '' @
       ''%s.relation_name'')
       (replicate 19 cteName)"

definition baseVisited :: "string \<Rightarrow> string \<Rightarrow> string" where
  "baseVisited dialect childAlias =
     (if dialect = ''postgres'' then Sprintf ''ARRAY[%s.uid]'' [childAlias]
      else Sprintf (sq # '',' || %s.uid || ','' @ [sq]) [childAlias])"

definition recursiveVisited :: "string \<Rightarrow> string \<Rightarrow> string" where
  "recursiveVisited dialect cteName =
     (if dialect = ''postgres'' then Sprintf ''%s.visited || next.uid'' [cteName]
      else Sprintf (''%s.visited || next.uid || ','' @ [sq]) [cteName])"

definition cycleCheck :: "string \<Rightarrow> string \<Rightarrow> string" where
  "cycleCheck dialect cteName =
     (if dialect = ''postgres'' then Sprintf ''next.uid != ALL(%s.visited)'' [cteName]
      else Sprintf (''%s.visited NOT LIKE '%%,' || next.uid || ',%%'' @ [sq]) [cteName])"

definition baseCols :: "string \<Rightarrow> string \<Rightarrow> string \<Rightarrow> string \<Rightarrow> nat \<Rightarrow> string \<Rightarrow> string" where
  "baseCols childAlias projExpr basePathExpr visited levelNum relationName =
     Sprintf (''%s.id, %s.uid, %s.cluster, %s.api_group, %s.api_version, %s.kind, %s.resource, '' @
       ''%s.namespace, %s.name, %s.labels, %s.annotations, %s.owner_refs, %s.conditions, '' @
       ''%s.creation_ts, %s.resource_version, %s.object, '' @
       ''%s AS projected_object, '' @
       ''%s AS path, '' @
       ''1 AS depth, '' @
       ''%s AS visited, '' @
       ''%d AS level, '' @
       sq # ''%s' AS relation_name'')
       (replicate 16 childAlias @
        [projExpr, basePathExpr, visited, itoa (int levelNum), relationName])"

definition recursiveCols :: "string \<Rightarrow> string \<Rightarrow> string \<Rightarrow> string \<Rightarrow> nat \<Rightarrow> string \<Rightarrow> string" where
  "recursiveCols nextProjExpr recursivePathExpr cteName visited levelNum relationName =
     Sprintf (''next.id, next.uid, next.cluster, next.api_group, next.api_version, next.kind, next.resource, '' @
       ''next.namespace, next.name, next.labels, next.annotations, next.owner_refs, next.conditions, '' @
       ''next.creation_ts, next.resource_version, next.object, '' @
       ''%s AS projected_object, '' @
       ''%s AS path, '' @
       ''%s.depth + 1, '' @
       ''%s AS visited, '' @
       ''%d AS level, '' @
       sq # ''%s' AS relation_name'')
       [nextProjExpr, recursivePathExpr, cteName, visited, itoa (int levelNum), relationName]"

definition cteBody ::
  "string \<Rightarrow> string \<Rightarrow> string \<Rightarrow> string \<Rightarrow> string \<Rightarrow> ancestorLevel list \<Rightarrow> string \<Rightarrow> string \<Rightarrow> string \<Rightarrow>
   string \<Rightarrow> int32 \<Rightarrow> string" where
  "cteBody cteName base childAlias rootAlias parentAlias ancestors baseJoinCond rec recursiveJoinCond
     cycle maxDepth =
     Sprintf (''%s AS ('' @ nl) [cteName] @
     ''  SELECT '' @ base @ nl @ ''  FROM root_objects '' @ rootAlias @
     concat (map (\<lambda>a. '' '' @ al_join a) ancestors) @
     Sprintf (nl @ ''  JOIN objects %s ON %s AND %s.cluster = %s.cluster'')
       [childAlias, baseJoinCond, childAlias, parentAlias] @
     nl @ ''  UNION ALL'' @ nl @
     ''  SELECT '' @ rec @
     Sprintf (nl @ ''  FROM objects next'' @ nl @ ''  JOIN %s ON %s AND next.cluster = %s.cluster'')
       [cteName, recursiveJoinCond, cteName] @
     Sprintf (nl @ ''  WHERE %s AND %s.depth < %d'') [cycle, cteName, itoa (sint maxDepth)] @
     nl @ '')''"

definition whereClause :: "string list \<Rightarrow> string" where
  "whereClause cs = (if cs \<noteq> [] then '' WHERE '' @ Join cs '' AND '' else [])"

definition withLimit :: "int32 \<Rightarrow> string \<Rightarrow> string" where
  "withLimit limit sql =
     (if sint limit > 0 then Sprintf ''SELECT * FROM (%s LIMIT %d)'' [sql, itoa (sint limit)] else sql)"

definition buildTransitiveCTE ::
  "string \<Rightarrow> string \<Rightarrow> string \<Rightarrow> string \<Rightarrow> string \<Rightarrow> ancestorLevel list \<Rightarrow> RelationSpec \<Rightarrow>
   ObjectsSpec option \<Rightarrow> int32 \<Rightarrow> string \<Rightarrow> nat \<Rightarrow> string \<Rightarrow> transitiveResult result" where
  "buildTransitiveCTE relationType cteName rootAlias rootPath parentAlias ancestors relationSpec
     objSpec maxDepth dialect levelNum relationName =
     (let childAlias = ''curr'' in
      andthen (transitiveJoinCond relationType childAlias parentAlias dialect) (\<lambda>baseJoinCond.
      andthen (transitiveJoinCond relationType ''next'' cteName dialect) (\<lambda>recursiveJoinCond.
      let parentPathExpr = foldl (\<lambda>e a. e @ pathSegment (al_alias a)) rootPath ancestors in
      andthen (optProjection objSpec dialect childAlias) (\<lambda>projExpr.
      andthen (optProjection objSpec dialect ''next'') (\<lambda>nextProjExpr.
      let basePathExpr = Sprintf ''%s || '.' || lower(%s.kind) || '.' || %s.namespace || '/' || %s.name''
            [parentPathExpr, childAlias, childAlias, childAlias];
          base = baseCols childAlias projExpr basePathExpr (baseVisited dialect childAlias)
            levelNum relationName;
          recursivePathExpr = Sprintf ''%s.path || '.' || lower(next.kind) || '.' || next.namespace || '/' || next.name''
            [cteName];
          rec = recursiveCols nextProjExpr recursivePathExpr cteName (recursiveVisited dialect cteName)
            levelNum relationName;
          filters = concat (map (\<lambda>f. transitiveFilter f childAlias) (rs_Filters relationSpec));
          selectSQL = Sprintf ''SELECT %s FROM %s'' [transitiveSelectCols cteName, cteName] @
            whereClause (map fst filters)
      in Inr \<lparr>tr_cteName = cteName,
           tr_cteSQL = cteBody cteName base childAlias rootAlias parentAlias ancestors baseJoinCond
             rec recursiveJoinCond (cycleCheck dialect cteName) maxDepth,
           tr_cteArgs = [],
           tr_selectSQL = withLimit (rs_Limit relationSpec) selectSQL,
           tr_selectArgs = map snd filters\<rparr>)))))"

subsection \<open>Placeholders of a transitive relation\<close>

definition clean_ancestor :: "ancestorLevel \<Rightarrow> bool" where
  "clean_ancestor a \<longleftrightarrow> qmarks (al_alias a) = 0 \<and> qmarks (al_join a) = 0"

lemma qmarks_literals:
  "qmarks ''  SELECT '' = 0" "qmarks ''  FROM root_objects '' = 0" "qmarks '' '' = 0"
  "qmarks nl = 0" "qmarks ''  UNION ALL'' = 0" "qmarks '')'' = 0" "qmarks '' WHERE '' = 0"
  "qmarks '' AND '' = 0" "qmarks ''curr'' = 0" "qmarks ''next'' = 0" "qmarks ''.object'' = 0"
  by code_simp+

lemma joinCond_clean:
  assumes "qmarks child = 0" "qmarks parent = 0"
  shows "qmarks (descendantJoinCond child parent d) = 0" "qmarks (ownerJoinCond child parent d) = 0"
    "qmarks (linkedJoinCond child parent d) = 0"
  unfolding descendantJoinCond_def ownerJoinCond_def linkedJoinCond_def
  by (split if_split, rule conjI, (rule impI, rule qmarks_fmt0, code_simp, simp add: assms)+)+

lemma transitiveJoinCond_clean:
  "transitiveJoinCond rel child parent d = Inr c \<Longrightarrow> qmarks child = 0 \<Longrightarrow> qmarks parent = 0 \<Longrightarrow>
     qmarks c = 0"
  by (auto simp: transitiveJoinCond_def joinCond_clean split: if_splits)

lemma pathSegment_clean: "qmarks al = 0 \<Longrightarrow> qmarks (pathSegment al) = 0"
  unfolding pathSegment_def by (rule qmarks_fmt0, code_simp) simp

lemma ancestorPath_clean:
  "qmarks root = 0 \<Longrightarrow> list_all clean_ancestor as \<Longrightarrow>
     qmarks (foldl (\<lambda>e a. e @ pathSegment (al_alias a)) root as) = 0"
  by (simp add: foldl_append_concat qmarks_concat sum_list_zero_map list_all_iff clean_ancestor_def
      pathSegment_clean)

definition clean_projection :: "ObjectsSpec option \<Rightarrow> bool" where
  "clean_projection os = (case os of None \<Rightarrow> True
     | Some s \<Rightarrow> (case os_Object s of None \<Rightarrow> True | Some raw \<Rightarrow> clean_raw raw))"

lemma optProjection_clean:
  "optProjection os d al = Inr e \<Longrightarrow> clean_projection os \<Longrightarrow> qmarks al = 0 \<Longrightarrow> qmarks e = 0"
  by (auto simp: optProjection_def clean_projection_def qmarks_literals
      split: option.splits if_splits dest: qmarks_BuildProjectionSQL)

lemma visited_clean:
  assumes "qmarks al = 0"
  shows "qmarks (baseVisited d al) = 0" "qmarks (recursiveVisited d al) = 0" "qmarks (cycleCheck d al) = 0"
  unfolding baseVisited_def recursiveVisited_def cycleCheck_def
  by (split if_split, rule conjI, (rule impI, rule qmarks_fmt0, code_simp, simp add: assms)+)+

lemma baseCols_clean:
  "qmarks child = 0 \<Longrightarrow> qmarks p = 0 \<Longrightarrow> qmarks path = 0 \<Longrightarrow> qmarks v = 0 \<Longrightarrow> qmarks rel = 0 \<Longrightarrow>
     qmarks (baseCols child p path v l rel) = 0"
  unfolding baseCols_def by (rule qmarks_fmt0, code_simp) (simp add: list_all_iff)

lemma recursiveCols_clean:
  "qmarks p = 0 \<Longrightarrow> qmarks path = 0 \<Longrightarrow> qmarks cte = 0 \<Longrightarrow> qmarks v = 0 \<Longrightarrow> qmarks rel = 0 \<Longrightarrow>
     qmarks (recursiveCols p path cte v l rel) = 0"
  unfolding recursiveCols_def by (rule qmarks_fmt0, code_simp) simp

lemma selectCols_clean: "qmarks cte = 0 \<Longrightarrow> qmarks (transitiveSelectCols cte) = 0"
  unfolding transitiveSelectCols_def by (rule qmarks_fmt0, code_simp) (simp add: list_all_iff)

lemma cteBody_fmts:
  "qmarks cte = 0 \<Longrightarrow> qmarks (Sprintf (''%s AS ('' @ nl) [cte]) = 0"
  "qmarks a = 0 \<Longrightarrow> qmarks b = 0 \<Longrightarrow> qmarks p = 0 \<Longrightarrow>
     qmarks (Sprintf (nl @ ''  JOIN objects %s ON %s AND %s.cluster = %s.cluster'') [a, b, a, p]) = 0"
  "qmarks cte = 0 \<Longrightarrow> qmarks b = 0 \<Longrightarrow>
     qmarks (Sprintf (nl @ ''  FROM objects next'' @ nl @ ''  JOIN %s ON %s AND next.cluster = %s.cluster'') [cte, b, cte]) = 0"
  "qmarks cte = 0 \<Longrightarrow> qmarks b = 0 \<Longrightarrow>
     qmarks (Sprintf (nl @ ''  WHERE %s AND %s.depth < %d'') [b, cte, itoa i]) = 0"
  by (rule qmarks_fmt0, code_simp, simp)+

lemma cteBody_clean:
  assumes "qmarks cte = 0" "qmarks base = 0" "qmarks child = 0" "qmarks root = 0" "qmarks parent = 0"
    "list_all clean_ancestor as" "qmarks bj = 0" "qmarks rec = 0" "qmarks rj = 0" "qmarks cycle = 0"
  shows "qmarks (cteBody cte base child root parent as bj rec rj cycle d) = 0"
proof -
  have "qmarks (concat (map (\<lambda>a. '' '' @ al_join a) as)) = 0"
    using assms(6) by (simp only: qmarks_concat) (simp add: list_all_iff clean_ancestor_def)
  with assms show ?thesis
    unfolding cteBody_def by (simp only: qmarks_append cteBody_fmts qmarks_literals)
qed

lemma whereClause_qmarks: "qmarks (whereClause cs) = sum_list (map qmarks cs)"
  by (simp only: whereClause_def qmarks_append qmarks_Join qmarks_literals qmarks_Nil
      split: if_split) simp

lemma withLimit_qmarks: "qmarks (withLimit l s) = qmarks s"
proof -
  have "qmarks (Sprintf ''SELECT * FROM (%s LIMIT %d)'' [s, itoa i]) = qmarks s" for i
    by (subst qmarks_fmt [where k = 0], code_simp) simp
  then show ?thesis by (simp add: withLimit_def)
qed

lemma transitiveFilter_qmarks:
  assumes "qmarks child = 0" and "p \<in> set (transitiveFilter f child)"
  shows "qmarks (fst p) = 1"
proof -
  have "qmarks (Sprintf ''%s.kind = ?'' [child]) = 1" "qmarks (Sprintf ''%s.name = ?'' [child]) = 1"
    "qmarks (Sprintf ''%s.namespace = ?'' [child]) = 1"
    using assms(1) by (subst qmarks_fmt [where k = 1], code_simp, simp)+
  with assms(2) show ?thesis
    by (auto simp: transitiveFilter_def split: option.splits if_splits)
qed


lemma transitivePath_clean:
  "qmarks p = 0 \<Longrightarrow> qmarks al = 0 \<Longrightarrow>
     qmarks (Sprintf ''%s || '.' || lower(%s.kind) || '.' || %s.namespace || '/' || %s.name'' [p, al, al, al]) = 0"
  "qmarks cte = 0 \<Longrightarrow>
     qmarks (Sprintf ''%s.path || '.' || lower(next.kind) || '.' || next.namespace || '/' || next.name'' [cte]) = 0"
  by (rule qmarks_fmt0, code_simp, simp)+

lemma transitiveSelect_qmarks:
  "qmarks cols = 0 \<Longrightarrow> qmarks cte = 0 \<Longrightarrow> qmarks (Sprintf ''SELECT %s FROM %s'' [cols, cte]) = 0"
  by (rule qmarks_fmt0, code_simp) simp

lemma transitiveFilters_qmarks:
  "qmarks child = 0 \<Longrightarrow>
     sum_list (map qmarks (map fst (concat (map (\<lambda>f. transitiveFilter f child) fs)))) =
     length (concat (map (\<lambda>f. transitiveFilter f child) fs))"
  by (subst map_map, subst sum_list_const_map [where k = 1])
    (auto dest: transitiveFilter_qmarks)

lemmas transitive_clean =
  cteBody_clean baseCols_clean recursiveCols_clean transitivePath_clean ancestorPath_clean
  visited_clean qmarks_literals

lemma buildTransitiveCTE_ok:
  assumes b: "buildTransitiveCTE rel cte root rootPath parent as rspec os d dialect lvl name = Inr r"
    and c: "qmarks cte = 0" "qmarks root = 0" "qmarks rootPath = 0" "qmarks parent = 0" "qmarks name = 0"
    and as: "list_all clean_ancestor as" and os: "clean_projection os"
  shows "qmarks (tr_cteSQL r) = 0 \<and> qmarks (tr_selectSQL r) = length (tr_selectArgs r)"
proof -
  from b obtain bj rj p np where
    e: "transitiveJoinCond rel ''curr'' parent dialect = Inr bj"
       "transitiveJoinCond rel ''next'' cte dialect = Inr rj"
       "optProjection os dialect ''curr'' = Inr p" "optProjection os dialect ''next'' = Inr np"
    by (auto simp only: buildTransitiveCTE_def Let_def andthen_Inr_iff)
  have j: "qmarks bj = 0" "qmarks rj = 0"
    using transitiveJoinCond_clean e(1,2) c qmarks_literals by blast+
  have q: "qmarks p = 0" "qmarks np = 0"
    using optProjection_clean e(3,4) os qmarks_literals by blast+
  note clean = transitive_clean c j q as
  from b have "qmarks (tr_cteSQL r) = 0"
    unfolding buildTransitiveCTE_def e Let_def andthen_simps sum.inject
    by (elim subst) (simp only: transitiveResult.simps clean)
  moreover from b have "qmarks (tr_selectSQL r) = length (tr_selectArgs r)"
    unfolding buildTransitiveCTE_def e Let_def andthen_simps sum.inject
    by (elim subst) (simp only: transitiveResult.simps withLimit_qmarks qmarks_append whereClause_qmarks
        transitiveFilters_qmarks transitiveSelect_qmarks selectCols_clean clean length_map add_0)
  ultimately show ?thesis ..
qed

end
