(* ===== verification/Query_Validate.thy ===== *)
theory Query_Validate
  imports Query_Types
begin

text \<open>
  \<open>internal/engine/validate.go\<close>: the limits of the engine, the sortable fields, the
  check of a spec with its defaults (\<open>Validate\<close>) and the count of relation blocks.
  \<open>Validate\<close> mutates the spec it is given; the model returns the mutated spec.
\<close>

definition DefaultLimit :: int where "DefaultLimit = 100"
definition MaxLimit :: int where "MaxLimit = 10000"
definition DefaultMaxDepth :: int where "DefaultMaxDepth = 10"
definition HardMaxDepth :: int where "HardMaxDepth = 20"
definition MaxTotalRows :: nat where "MaxTotalRows = 10000"
definition MaxRelationBlocks :: nat where "MaxRelationBlocks = 10"

definition ValidSortFields :: "string gomap" where
  "ValidSortFields =
     [(''name'', ''obj.name''), (''namespace'', ''obj.namespace''), (''kind'', ''obj.kind''),
      (''apiGroup'', ''obj.api_group''), (''cluster'', ''obj.cluster''),
      (''creationTimestamp'', ''obj.creation_ts'')]"

fun countRelationBlocks :: "ObjectsSpec option \<Rightarrow> nat"
  and countRelationBlocks_rel :: "RelationSpec \<Rightarrow> nat" where
  "countRelationBlocks None = 0"
| "countRelationBlocks (Some (ObjectsSpec i c m raw rels)) =
     (if rels = [] then 0
      else length rels + sum_list (map (\<lambda>p. countRelationBlocks_rel (snd p)) rels))"
| "countRelationBlocks_rel (RelationSpec l fs os) = countRelationBlocks os"

fun validateOrder :: "OrderSpec list \<Rightarrow> kerror option" where
  "validateOrder [] = None"
| "validateOrder (ord # ords) =
     (if map_of ValidSortFields (ord_Field ord) = None
      then Some (UnsupportedSortField (ord_Field ord))
      else if ord_Direction ord \<noteq> [] \<and> ord_Direction ord \<noteq> SortAsc \<and> ord_Direction ord \<noteq> SortDesc
      then Some (InvalidSortDirection (ord_Direction ord))
      else validateOrder ords)"

definition Validate :: "QuerySpec \<Rightarrow> QuerySpec result" where
  "Validate spec =
     (let spec = (if sint (qs_Limit spec) \<le> 0
                  then spec\<lparr>qs_Limit := word_of_int DefaultLimit\<rparr> else spec)
      in if sint (qs_Limit spec) > MaxLimit then Inl (LimitExceeds (qs_Limit spec))
      else let spec = (if sint (qs_MaxDepth spec) \<le> 0
                  then spec\<lparr>qs_MaxDepth := word_of_int DefaultMaxDepth\<rparr> else spec)
      in if sint (qs_MaxDepth spec) > HardMaxDepth then Inl (MaxDepthExceeds (qs_MaxDepth spec))
      else case validateOrder (qs_Order spec) of Some e \<Rightarrow> Inl e
      | None \<Rightarrow>
        if (case qs_Page spec of None \<Rightarrow> False | Some p \<Rightarrow> sint (pg_First p) < 0)
        then Inl NegativePageFirst
        else if qs_Objects spec \<noteq> None \<and> countRelationBlocks (qs_Objects spec) > MaxRelationBlocks
        then Inl (TooManyRelationBlocks (countRelationBlocks (qs_Objects spec)))
        else Inr spec)"

subsection \<open>A specification of the accepted specs\<close>

definition sortable :: "OrderSpec \<Rightarrow> bool" where
  "sortable ord \<longleftrightarrow> ord_Field ord \<in> fst ` set ValidSortFields
     \<and> ord_Direction ord \<in> {[], SortAsc, SortDesc}"

definition page_ok :: "PageSpec option \<Rightarrow> bool" where
  "page_ok p = (case p of None \<Rightarrow> True | Some pg \<Rightarrow> 0 \<le> sint (pg_First pg))"

text \<open>What a validated spec promises to the generator and the engine.\<close>

definition valid_spec :: "QuerySpec \<Rightarrow> bool" where
  "valid_spec s \<longleftrightarrow>
     1 \<le> sint (qs_Limit s) \<and> sint (qs_Limit s) \<le> 10000
     \<and> 1 \<le> sint (qs_MaxDepth s) \<and> sint (qs_MaxDepth s) \<le> 20
     \<and> (\<forall>ord \<in> set (qs_Order s). sortable ord)
     \<and> page_ok (qs_Page s)
     \<and> countRelationBlocks (qs_Objects s) \<le> 10"

definition with_defaults :: "QuerySpec \<Rightarrow> QuerySpec" where
  "with_defaults s =
     s\<lparr>qs_Limit := (if sint (qs_Limit s) \<le> 0 then 100 else qs_Limit s),
       qs_MaxDepth := (if sint (qs_MaxDepth s) \<le> 0 then 10 else qs_MaxDepth s)\<rparr>"

lemmas limit_defs = DefaultLimit_def MaxLimit_def DefaultMaxDepth_def HardMaxDepth_def
  MaxTotalRows_def MaxRelationBlocks_def

lemma validateOrder_None: "validateOrder ords = None \<longleftrightarrow> (\<forall>ord \<in> set ords. sortable ord)"
  by (induction ords) (auto simp: sortable_def map_of_eq_None_iff)

definition order_error :: "OrderSpec \<Rightarrow> kerror" where
  "order_error ord = (if ord_Field ord \<in> fst ` set ValidSortFields
     then InvalidSortDirection (ord_Direction ord) else UnsupportedSortField (ord_Field ord))"

lemma validateOrder_find:
  "validateOrder ords = map_option order_error (find (\<lambda>ord. \<not> sortable ord) ords)"
  by (induction ords) (auto simp: sortable_def order_error_def map_of_eq_None_iff)

lemma sint_100_32 [simp]: "sint (100 :: int32) = 100" and sint_10_32 [simp]: "sint (10 :: int32) = 10"
  by simp_all

lemma valid_with_defaults:
  "valid_spec (with_defaults s) \<longleftrightarrow>
     sint (qs_Limit s) \<le> 10000 \<and> sint (qs_MaxDepth s) \<le> 20
     \<and> (\<forall>ord \<in> set (qs_Order s). sortable ord) \<and> page_ok (qs_Page s)
     \<and> countRelationBlocks (qs_Objects s) \<le> 10"
  by (auto simp: valid_spec_def with_defaults_def)

text \<open>The errors, in the order in which the code reports them.\<close>

lemma Validate_eq:
  "Validate s =
     (if sint (qs_Limit s) > 10000 then Inl (LimitExceeds (qs_Limit s))
      else if sint (qs_MaxDepth s) > 20 then Inl (MaxDepthExceeds (qs_MaxDepth s))
      else case validateOrder (qs_Order s) of Some e \<Rightarrow> Inl e
      | None \<Rightarrow> if \<not> page_ok (qs_Page s) then Inl NegativePageFirst
      else if countRelationBlocks (qs_Objects s) > 10
      then Inl (TooManyRelationBlocks (countRelationBlocks (qs_Objects s)))
      else Inr (with_defaults s))"
  by (auto simp: Validate_def limit_defs with_defaults_def page_ok_def Let_def
      split: option.splits)

lemma Validate_Inr_iff: "Validate s = Inr s' \<longleftrightarrow> valid_spec (with_defaults s) \<and> s' = with_defaults s"
  by (auto simp: Validate_eq valid_with_defaults validateOrder_None [symmetric]
      split: option.splits)

lemma with_defaults_id: "valid_spec s \<Longrightarrow> with_defaults s = s"
  by (auto simp: valid_spec_def with_defaults_def)

subsection \<open>Relation blocks\<close>

text \<open>The reference count: a relation block is named by its path of relation names
  from the root of the spec.\<close>

fun relation_paths :: "ObjectsSpec option \<Rightarrow> string list list"
  and relation_paths_rel :: "RelationSpec \<Rightarrow> string list list" where
  "relation_paths None = []"
| "relation_paths (Some (ObjectsSpec i c m raw rels)) =
     concat (map (\<lambda>p. [fst p] # map ((#) (fst p)) (relation_paths_rel (snd p))) rels)"
| "relation_paths_rel (RelationSpec l fs os) = relation_paths os"

lemma length_concat_paths:
  "length (concat (map (\<lambda>p. [fst p] # map ((#) (fst p)) (f p)) rels)) =
     length rels + sum_list (map (\<lambda>p. length (f p)) rels)"
  by (induction rels) auto

lemma length_relation_paths:
  "length (relation_paths os) = countRelationBlocks os"
  "length (relation_paths_rel r) = countRelationBlocks_rel r"
proof (induction os and r rule: countRelationBlocks_countRelationBlocks_rel.induct)
  case (2 i c m raw rels)
  then have "map (\<lambda>p. length (relation_paths_rel (snd p))) rels =
      map (\<lambda>p. countRelationBlocks_rel (snd p)) rels"
    by (cases "rels = []") auto
  then have "sum_list (map (\<lambda>p. length (relation_paths_rel (snd p))) rels) =
      sum_list (map (\<lambda>p. countRelationBlocks_rel (snd p)) rels)"
    by (simp only:)
  then show ?case by (simp add: length_concat_paths)
qed simp_all

lemma distinct_concat_paths:
  assumes "distinct (map fst rels)"
    and "\<And>p. p \<in> set rels \<Longrightarrow> distinct (f p) \<and> [] \<notin> set (f p)"
  shows "distinct (concat (map (\<lambda>p. [fst p] # map ((#) (fst p)) (f p)) rels))"
  using assms
proof (induction rels)
  case (Cons q rels)
  then show ?case by (auto simp: distinct_map image_iff)
qed simp

lemma distinct_relation_paths:
  "(case os of None \<Rightarrow> True | Some s \<Rightarrow> wf_objects s) \<Longrightarrow>
     distinct (relation_paths os) \<and> [] \<notin> set (relation_paths os)"
  "wf_relation r \<Longrightarrow> distinct (relation_paths_rel r) \<and> [] \<notin> set (relation_paths_rel r)"
proof (induction os and r rule: relation_paths_relation_paths_rel.induct)
  case (2 i c m raw rels)
  then have "\<And>p. p \<in> set rels \<Longrightarrow>
      distinct (relation_paths_rel (snd p)) \<and> [] \<notin> set (relation_paths_rel (snd p))"
    by (auto simp: list_all_iff)
  moreover have "distinct (map fst rels)" using 2 by simp
  ultimately show ?case by (auto intro!: distinct_concat_paths)
qed simp_all

subsection \<open>Properties\<close>

text \<open>C9. \<open>Validate\<close> accepts a spec exactly when, after the defaults are filled in, its
  limit is between 1 and 10000, its depth between 1 and 20, every sort criterion names a
  sortable field and a known direction, the page offset is not negative and there are at
  most 10 relation blocks; the spec it hands on differs from the given one in the two
  defaults only.\<close>

theorem Validate_correct:
  "Validate s = Inr s' \<longleftrightarrow> valid_spec (with_defaults s) \<and> s' = with_defaults s"
  by (rule Validate_Inr_iff)

text \<open>A validated spec validates again, to itself: the handler may run \<open>Validate\<close> on a
  spec that a previous request already mutated.\<close>

theorem Validate_idempotent: "Validate s = Inr s' \<Longrightarrow> Validate s' = Inr s'"
  by (simp add: Validate_Inr_iff with_defaults_id)

theorem Validate_idempotent_witness:
  "Validate (zero_QuerySpec\<lparr>qs_Limit := 100, qs_MaxDepth := 10\<rparr>) =
     Inr (zero_QuerySpec\<lparr>qs_Limit := 100, qs_MaxDepth := 10\<rparr>)"
  by (rule Validate_idempotent [of zero_QuerySpec])
    (simp add: Validate_eq zero_QuerySpec_def with_defaults_def page_ok_def)

text \<open>\<open>countRelationBlocks\<close> is the number of relation blocks of the spec, each
  counted once: the number of distinct paths of relation names that lead to a block.\<close>

theorem countRelationBlocks_card:
  assumes "wf_objects objs"
  shows "countRelationBlocks (Some objs) = card (set (relation_paths (Some objs)))"
proof -
  have "distinct (relation_paths (Some objs))"
    using distinct_relation_paths(1) [of "Some objs"] assms by simp
  then show ?thesis by (simp only: distinct_card length_relation_paths(1))
qed

theorem countRelationBlocks_card_witness:
  "countRelationBlocks (Some (ObjectsSpec True False False None
     [(''owners'', RelationSpec 0 [] None),
      (''descendants'', RelationSpec 0 [] (Some (ObjectsSpec False False False None
         [(''owners'', RelationSpec 0 [] None)])))])) = 3
   \<and> card (set (relation_paths (Some (ObjectsSpec True False False None
     [(''owners'', RelationSpec 0 [] None),
      (''descendants'', RelationSpec 0 [] (Some (ObjectsSpec False False False None
         [(''owners'', RelationSpec 0 [] None)])))])))) = 3"
  by (subst countRelationBlocks_card [symmetric]) simp_all

end
