(* ===== verification/Sql_Filters.thy ===== *)
theory Sql_Filters
  imports Query_Transitive Query_Validate
begin

text \<open>
  The clause builders of \<open>internal/engine/generator.go\<close>: object filters, the root
  WHERE and JOIN clauses, ORDER BY, the keyset cursor and its token, the SELECT column
  list and the REST path of an object. An object filter is built block by block; each
  block yields its clauses and the arguments bound to their placeholders.
\<close>

record GeneratedQuery =
  gq_SQL :: string
  gq_Args :: "sqlarg list"
  gq_CountSQL :: string
  gq_CountArgs :: "sqlarg list"
  gq_HasRelations :: bool

record Generator =
  gen_dialect :: string
  gen_refRegistry :: RefPathRegistry

definition NewGenerator :: "string \<Rightarrow> Generator" where
  "NewGenerator dialect = \<lparr>gen_dialect = dialect, gen_refRegistry = NewRefPathRegistry\<rparr>"

type_synonym filter_part = "string list \<times> sqlarg list"

definition cat_parts :: "filter_part list \<Rightarrow> filter_part" where
  "cat_parts ps = (concat (map fst ps), concat (map snd ps))"

subsection \<open>Object filters\<close>

definition filterGroupKind :: "Generator \<Rightarrow> GroupKindFilter option \<Rightarrow> string \<Rightarrow> string \<Rightarrow> filter_part" where
  "filterGroupKind g gko al rt =
     (case gko of None \<Rightarrow> ([], [])
      | Some gk \<Rightarrow> cat_parts
          [if gk_APIGroup gk \<noteq> [] then ([al @ ''.api_group = ?''], [ArgString (gk_APIGroup gk)]) else ([], []),
           if gk_Kind gk \<noteq> [] then
             ([if gen_dialect g = ''postgres'' then
                 Sprintf (''EXISTS (SELECT 1 FROM resource_types %s WHERE %s.cluster = %s.cluster AND %s.api_group = %s.api_group AND %s.kind = %s.kind AND '' @
                   ''(lower(%s.kind) = lower(?) OR lower(%s.resource) = lower(?) OR lower(%s.singular) = lower(?) OR ? = ANY(ARRAY(SELECT jsonb_array_elements_text(%s.short_names)))))'')
                   [rt, rt, al, rt, al, rt, al, rt, rt, rt, rt]
               else
                 Sprintf (''EXISTS (SELECT 1 FROM resource_types %s WHERE %s.cluster = %s.cluster AND %s.api_group = %s.api_group AND %s.kind = %s.kind AND '' @
                   ''(lower(%s.kind) = lower(?) OR lower(%s.resource) = lower(?) OR lower(%s.singular) = lower(?) OR EXISTS (SELECT 1 FROM json_each(%s.short_names) WHERE json_each.value = lower(?))))'')
                   [rt, rt, al, rt, al, rt, al, rt, rt, rt, rt]],
              [ArgString (gk_Kind gk), ArgString (gk_Kind gk), ArgString (gk_Kind gk),
               ArgString (ToLower (gk_Kind gk))])
           else ([], [])])"

definition filterEq :: "string \<Rightarrow> string \<Rightarrow> string \<Rightarrow> filter_part" where
  "filterEq al col v = (if v \<noteq> [] then ([al @ ''.'' @ col @ '' = ?''], [ArgString v]) else ([], []))"

definition filterLabels :: "Generator \<Rightarrow> string gomap \<Rightarrow> string \<Rightarrow> filter_part" where
  "filterLabels g labels al =
     (if labels = [] then ([], [])
      else if gen_dialect g = ''postgres'' then
        ([al @ ''.labels @> ?::jsonb''], [ArgString (marshal_string_map labels)])
      else
        (map (\<lambda>p. Sprintf ''json_extract(%s.labels, '$.%s') = ?'' [al, fst p]) labels,
         map (\<lambda>p. ArgString (snd p)) labels))"

definition filterCondition :: "Generator \<Rightarrow> string \<Rightarrow> ConditionFilter \<Rightarrow> filter_part" where
  "filterCondition g al cond =
     (if gen_dialect g = ''postgres'' then
        let condJSON = [(''type'', cond_Type cond)] @
              (if cond_Status cond \<noteq> [] then [(''status'', cond_Status cond)] else []) @
              (if cond_Reason cond \<noteq> [] then [(''reason'', cond_Reason cond)] else [])
        in ([al @ ''.conditions @> ?::jsonb''],
            [ArgString (''['' @ marshal_string_map condJSON @ '']'')])
      else
        let condParts = [''json_extract(je.value, '$.type') = ?''] @
              (if cond_Status cond \<noteq> [] then [''json_extract(je.value, '$.status') = ?''] else []) @
              (if cond_Reason cond \<noteq> [] then [''json_extract(je.value, '$.reason') = ?''] else []);
            condArgs = [ArgString (cond_Type cond)] @
              (if cond_Status cond \<noteq> [] then [ArgString (cond_Status cond)] else []) @
              (if cond_Reason cond \<noteq> [] then [ArgString (cond_Reason cond)] else [])
        in ([Sprintf ''EXISTS (SELECT 1 FROM json_each(%s.conditions) je WHERE %s)''
               [al, Join condParts '' AND '']], condArgs))"

definition filterTimestamp :: "TimestampFilter option \<Rightarrow> string \<Rightarrow> filter_part" where
  "filterTimestamp tso al =
     (case tso of None \<Rightarrow> ([], [])
      | Some ts \<Rightarrow> cat_parts
          [case ts_After ts of None \<Rightarrow> ([], []) | Some t \<Rightarrow> ([al @ ''.creation_ts > ?''], [ArgTime t]),
           case ts_Before ts of None \<Rightarrow> ([], []) | Some t \<Rightarrow> ([al @ ''.creation_ts < ?''], [ArgTime t])])"

definition filterCategory :: "Generator \<Rightarrow> string \<Rightarrow> string \<Rightarrow> string \<Rightarrow> filter_part" where
  "filterCategory g al rt cat =
     ([if gen_dialect g = ''postgres'' then
         Sprintf ''EXISTS (SELECT 1 FROM resource_types %s WHERE %s.cluster = %s.cluster AND %s.api_group = %s.api_group AND %s.kind = %s.kind AND ? = ANY(ARRAY(SELECT jsonb_array_elements_text(%s.categories))))''
           [rt, rt, al, rt, al, rt, al, rt]
       else
         Sprintf ''EXISTS (SELECT 1 FROM resource_types %s WHERE %s.cluster = %s.cluster AND %s.api_group = %s.api_group AND %s.kind = %s.kind AND EXISTS (SELECT 1 FROM json_each(%s.categories) WHERE json_each.value = ?))''
           [rt, rt, al, rt, al, rt, al, rt]],
      [ArgString cat])"

definition filterLabelExpr :: "Generator \<Rightarrow> string \<Rightarrow> LabelExpression \<Rightarrow> filter_part" where
  "filterLabelExpr g al expr =
     (let key = le_Key expr; vals = le_Values expr;
          placeholders = Join (map (\<lambda>_. ''?'') vals) '', '';
          pg = (gen_dialect g = ''postgres'')
      in if le_Operator expr = LabelOpIn then
           (if vals \<noteq> [] then
              ([if pg then Sprintf ''%s.labels->>'%s' IN (%s)'' [al, key, placeholders]
                else Sprintf ''json_extract(%s.labels, '$.%s') IN (%s)'' [al, key, placeholders]],
               map ArgString vals)
            else ([], []))
         else if le_Operator expr = LabelOpNotIn then
           (if vals \<noteq> [] then
              ([if pg then Sprintf ''(%s.labels->>'%s' IS NULL OR %s.labels->>'%s' NOT IN (%s))'' [al, key, al, key, placeholders]
                else Sprintf ''(json_extract(%s.labels, '$.%s') IS NULL OR json_extract(%s.labels, '$.%s') NOT IN (%s))'' [al, key, al, key, placeholders]],
               map ArgString vals)
            else ([], []))
         else if le_Operator expr = LabelOpExists then
           ([if pg then Sprintf (''%s.labels ? '%s'' @ [sq]) [al, key]
             else Sprintf ''json_extract(%s.labels, '$.%s') IS NOT NULL'' [al, key]], [])
         else if le_Operator expr = LabelOpDoesNotExist then
           ([if pg then Sprintf ''NOT (%s.labels ? '%s')'' [al, key]
             else Sprintf ''json_extract(%s.labels, '$.%s') IS NULL'' [al, key]], [])
         else ([], []))"

definition filterJSONPath :: "Generator \<Rightarrow> string \<Rightarrow> string \<Rightarrow> filter_part" where
  "filterJSONPath g al path =
     (if path = [] then ([], [])
      else if gen_dialect g = ''postgres'' then
        ([Sprintf ''jsonb_path_match(%s.object, ?::jsonpath)'' [al]], [ArgString path])
      else
        ([Sprintf ''json_extract(%s.object, ?) IS NOT NULL AND json_extract(%s.object, ?) != 'false' AND json_extract(%s.object, ?) != 0'' [al, al, al]],
         [ArgString path, ArgString path, ArgString path]))"

text \<open>The third component, \<open>needsRT\<close>, is never set.\<close>

definition buildObjectFilterWithRT ::
  "Generator \<Rightarrow> ObjectFilter \<Rightarrow> string \<Rightarrow> string \<Rightarrow> string list \<times> sqlarg list \<times> bool" where
  "buildObjectFilterWithRT g f al rt =
     (let (clauses, args) = cat_parts
        ([filterGroupKind g (of_GroupKind f) al rt,
          filterEq al ''name'' (of_Name f),
          filterEq al ''namespace'' (of_Namespace f),
          filterLabels g (of_Labels f) al] @
         map (filterCondition g al) (of_Conditions f) @
         [filterTimestamp (of_CreationTimestamp f) al,
          filterEq al ''id'' (of_ID f)] @
         map (filterCategory g al rt) (of_Categories f) @
         map (filterLabelExpr g al) (of_LabelExpressions f) @
         [filterJSONPath g al (of_JSONPath f)])
      in (clauses, args, False))"

definition buildObjectFilter :: "Generator \<Rightarrow> ObjectFilter \<Rightarrow> string \<Rightarrow> string list \<times> sqlarg list \<times> bool" where
  "buildObjectFilter g f al = buildObjectFilterWithRT g f al ''rt''"

subsection \<open>Root clauses\<close>

fun rootOrGroups :: "Generator \<Rightarrow> string \<Rightarrow> ObjectFilter list \<Rightarrow> filter_part" where
  "rootOrGroups g al [] = ([], [])"
| "rootOrGroups g al (f # fs) =
     (let (andClauses, filterArgs, _) = buildObjectFilter g f al;
          (orGroups, args) = rootOrGroups g al fs
      in if andClauses \<noteq> [] then ((''('' @ Join andClauses '' AND '' @ '')'') # orGroups, filterArgs @ args)
         else (orGroups, args))"

definition clusterClauses :: "Generator \<Rightarrow> ClusterFilter option \<Rightarrow> string \<Rightarrow> filter_part" where
  "clusterClauses g co al =
     (case co of None \<Rightarrow> ([], [])
      | Some c \<Rightarrow> cat_parts
          [if cf_Name c \<noteq> [] then ([al @ ''.cluster = ?''], [ArgString (cf_Name c)]) else ([], []),
           (map (\<lambda>p. if gen_dialect g = ''postgres'' then ''cl.labels @> ?::jsonb''
                     else Sprintf ''json_extract(cl.labels, '$.%s') = ?'' [fst p]) (cf_Labels c),
            map (\<lambda>p. if gen_dialect g = ''postgres'' then ArgString (marshal_string_map [p])
                     else ArgString (snd p)) (cf_Labels c))])"

definition clusterJoins :: "ClusterFilter option \<Rightarrow> string \<Rightarrow> string list" where
  "clusterJoins co al =
     (case co of None \<Rightarrow> []
      | Some c \<Rightarrow> if cf_Labels c \<noteq> [] then [''JOIN clusters cl ON cl.name = '' @ al @ ''.cluster''] else [])"

definition buildRootClauses ::
  "Generator \<Rightarrow> QuerySpec \<Rightarrow> string \<Rightarrow> (string list \<times> sqlarg list \<times> string list) result" where
  "buildRootClauses g spec al =
     (let (cw, ca) = clusterClauses g (qs_Cluster spec) al;
          (orGroups, fargs) = (case qs_Filter spec of None \<Rightarrow> ([], [])
                               | Some qf \<Rightarrow> rootOrGroups g al (qf_Objects qf))
      in Inr (cw @ (if orGroups \<noteq> [] then [''('' @ Join orGroups '' OR '' @ '')''] else []),
              ca @ fargs, clusterJoins (qs_Cluster spec) al))"

subsection \<open>Projection, path and columns\<close>

definition buildProjection :: "Generator \<Rightarrow> ObjectsSpec option \<Rightarrow> string \<Rightarrow> string result" where
  "buildProjection g objSpec al =
     (case objSpec of
        None \<Rightarrow> Inr (al @ ''.object'')
      | Some os \<Rightarrow>
          (case os_Object os of
             None \<Rightarrow> Inr (al @ ''.object'')
           | Some raw \<Rightarrow>
               if raw \<noteq> [] then BuildProjectionSQL raw (gen_dialect g) al else Inr (al @ ''.object'')))"

definition buildPathExpr :: "string \<Rightarrow> string" where
  "buildPathExpr al =
     Sprintf (sq # ''.' || lower(%s.kind) || '.' || %s.namespace || '/' || %s.name'') [al, al, al]"

definition metaCols :: string where
  "metaCols = '', 0 AS level, '' @ [sq, sq] @ '' AS relation_name''"

definition buildSelectCols :: "string \<Rightarrow> string \<Rightarrow> string \<Rightarrow> bool \<Rightarrow> string" where
  "buildSelectCols al projectionExpr pathExpr includeMetaCols =
     Sprintf (''%s.id, %s.uid, %s.cluster, %s.api_group, %s.api_version, %s.kind, %s.resource, '' @
       ''%s.namespace, %s.name, %s.labels, %s.annotations, %s.owner_refs, %s.conditions, '' @
       ''%s.creation_ts, %s.resource_version, '' @
       ''%s AS projected_object, '' @
       ''%s AS path'')
       (replicate 15 al @ [projectionExpr, pathExpr]) @
     (if includeMetaCols then metaCols else [])"

subsection \<open>Order and cursor\<close>

definition orderPart :: "OrderSpec \<Rightarrow> string" where
  "orderPart ord = map_get ValidSortFields (ord_Field ord) @ '' '' @
     (if ord_Direction ord = SortDesc then ''DESC'' else ''ASC'')"

definition orderParts :: "OrderSpec list \<Rightarrow> string list" where
  "orderParts ords =
     (let parts = map orderPart ords;
          tiebreakers = map (\<lambda>p. hd (Split p (CHR '' ''))) parts
      in parts @ (if ''obj.namespace'' \<in> set tiebreakers then [] else [''obj.namespace ASC''])
               @ (if ''obj.name'' \<in> set tiebreakers then [] else [''obj.name ASC'']))"

definition buildOrderBy :: "QuerySpec \<Rightarrow> string" where
  "buildOrderBy spec =
     (if qs_Order spec = [] then ''obj.name ASC, obj.namespace ASC''
      else Join (orderParts (qs_Order spec)) '', '')"

record CursorData =
  cd_Values :: "string gomap"

text \<open>\<open>json.Unmarshal\<close> into \<open>CursorData\<close>: the member \<open>v\<close> (in either case) is an object of
  strings, merged into the map so far; \<open>null\<close> resets the map, a \<open>null\<close> value is the empty
  string, any other type is an error, other members are skipped.\<close>

fun cursor_map :: "(string \<times> json) list \<Rightarrow> string gomap \<Rightarrow> string gomap option" where
  "cursor_map [] m = Some m"
| "cursor_map ((k, v) # kvs) m =
     (case v of
        JStr s \<Rightarrow> cursor_map kvs (AList.update k s m)
      | JNull \<Rightarrow> cursor_map kvs (AList.update k [] m)
      | _ \<Rightarrow> None)"

fun cursor_members :: "(string \<times> json) list \<Rightarrow> string gomap \<Rightarrow> string gomap option" where
  "cursor_members [] m = Some m"
| "cursor_members ((k, v) # kvs) m =
     (if EqualFold k ''v'' then
        (case v of
           JObj vs \<Rightarrow> Option.bind (cursor_map vs m) (cursor_members kvs)
         | JNull \<Rightarrow> cursor_members kvs []
         | _ \<Rightarrow> None)
      else cursor_members kvs m)"

definition unmarshal_cursor :: "string \<Rightarrow> CursorData option" where
  "unmarshal_cursor data =
     (case Unmarshal data of
        Some (JObj kvs) \<Rightarrow> map_option (\<lambda>m. \<lparr>cd_Values = m\<rparr>) (cursor_members kvs [])
      | Some JNull \<Rightarrow> Some \<lparr>cd_Values = []\<rparr>
      | _ \<Rightarrow> None)"

definition marshal_cursor :: "CursorData \<Rightarrow> string" where
  "marshal_cursor c = ''{'' @ marshal_string ''v'' @ '':'' @ marshal_string_map (cd_Values c) @ ''}''"

definition BuildCursorToken :: "string gomap \<Rightarrow> string" where
  "BuildCursorToken values = EncodeToString (marshal_cursor \<lparr>cd_Values = values\<rparr>)"

definition decodeCursor :: "string \<Rightarrow> CursorData option" where
  "decodeCursor token = Option.bind (DecodeString token) unmarshal_cursor"

definition cursorOrder :: "OrderSpec list \<Rightarrow> OrderSpec list" where
  "cursorOrder ords =
     (let orderFields = (if ords = [] then [\<lparr>ord_Field = ''name'', ord_Direction = SortAsc\<rparr>] else ords);
          hasNamespace = list_ex (\<lambda>ord. ord_Field ord = ''namespace'') orderFields;
          hasName = list_ex (\<lambda>ord. ord_Field ord = ''name'') orderFields
      in orderFields @
         (if hasNamespace then [] else [\<lparr>ord_Field = ''namespace'', ord_Direction = SortAsc\<rparr>]) @
         (if hasName then [] else [\<lparr>ord_Field = ''name'', ord_Direction = SortAsc\<rparr>]))"

definition cursorCols :: "OrderSpec list \<Rightarrow> string list" where
  "cursorCols ords = map (\<lambda>ord. map_get ValidSortFields (ord_Field ord)) (cursorOrder ords)"

definition cursorOp :: "OrderSpec list \<Rightarrow> string" where
  "cursorOp ords =
     (case ords of [] \<Rightarrow> ''>'' | ord # _ \<Rightarrow> if ord_Direction ord = SortDesc then ''<'' else ''>'')"

definition Repeat :: "string \<Rightarrow> nat \<Rightarrow> string" where
  "Repeat s n = concat (replicate n s)"

text \<open>A cursor that does not decode is ignored: the clause is empty.\<close>

definition buildCursorFilter :: "QuerySpec \<Rightarrow> string \<times> sqlarg list" where
  "buildCursorFilter spec =
     (case qs_Page spec of
        None \<Rightarrow> ([], [])
      | Some page \<Rightarrow>
          if pg_Cursor page = [] then ([], [])
          else (case decodeCursor (pg_Cursor page) of
             None \<Rightarrow> ([], [])
           | Some cursor \<Rightarrow>
               let cols = cursorCols (qs_Order spec);
                   args = map (\<lambda>ord. ArgString (map_get (cd_Values cursor) (ord_Field ord)))
                            (cursorOrder (qs_Order spec))
               in (Sprintf ''(%s) %s (%s)''
                     [Join cols '', '', cursorOp (qs_Order spec),
                      Join (take (length cols) (Split (Repeat ''?,'' (length cols)) (CHR '',''))) '', ''],
                   args)))"

subsection \<open>REST path, sorted keys\<close>

definition MutablePath :: "string \<Rightarrow> string \<Rightarrow> string \<Rightarrow> string \<Rightarrow> string \<Rightarrow> string" where
  "MutablePath apiGroup apiVersion resource namespace name =
     (let prefix = (if apiGroup = [] then ''/api/'' @ apiVersion
                    else ''/apis/'' @ apiGroup @ ''/'' @ apiVersion)
      in if namespace \<noteq> [] then prefix @ ''/namespaces/'' @ namespace @ ''/'' @ resource @ ''/'' @ name
         else prefix @ ''/'' @ resource @ ''/'' @ name)"

definition SortMapKeys :: "string gomap \<Rightarrow> string list" where
  "SortMapKeys m = sort (map fst m)"


subsection \<open>Placeholders of a filter\<close>

text \<open>A block is well bound when its clauses contain as many placeholders as it has
  arguments.\<close>

definition part_ok :: "filter_part \<Rightarrow> bool" where
  "part_ok p \<longleftrightarrow> sum_list (map qmarks (fst p)) = length (snd p)"

text \<open>The strings a filter interpolates into the SQL text (label keys) contain no
  placeholder, and on PostgreSQL the operators \<open>Exists\<close> and \<open>DoesNotExist\<close>, which are
  rendered with the \<open>?\<close> operator of \<open>jsonb\<close>, are not used.\<close>

definition clean_expr :: "Generator \<Rightarrow> LabelExpression \<Rightarrow> bool" where
  "clean_expr g e \<longleftrightarrow> qmarks (le_Key e) = 0 \<and>
     (gen_dialect g = ''postgres'' \<longrightarrow> le_Operator e \<notin> {LabelOpExists, LabelOpDoesNotExist})"

definition clean_filter :: "Generator \<Rightarrow> ObjectFilter \<Rightarrow> bool" where
  "clean_filter g f \<longleftrightarrow> list_all (\<lambda>p. qmarks (fst p) = 0) (of_Labels f) \<and>
     list_all (clean_expr g) (of_LabelExpressions f)"

lemma part_ok_Nil [simp]: "part_ok ([], [])"
  by (simp add: part_ok_def)

lemma part_ok_single: "qmarks c = length as \<Longrightarrow> part_ok ([c], as)"
  by (simp add: part_ok_def)

lemma part_ok_map: "\<forall>x \<in> set xs. qmarks (f x) = 1 \<Longrightarrow> part_ok (map f xs, map h xs)"
  using sum_list_const_map [of xs "\<lambda>x. qmarks (f x)" 1] by (simp add: part_ok_def comp_def)

lemma part_ok_if: "(c \<Longrightarrow> qmarks x = length as) \<Longrightarrow> part_ok (if c then ([x], as) else ([], []))"
  by (simp add: part_ok_single)

lemma part_ok_cases: "(c \<Longrightarrow> part_ok a) \<Longrightarrow> (\<not> c \<Longrightarrow> part_ok b) \<Longrightarrow> part_ok (if c then a else b)"
  by simp

lemma cat_parts_ok: "list_all part_ok ps \<Longrightarrow> part_ok (cat_parts ps)"
  by (induction ps) (auto simp: cat_parts_def part_ok_def)

lemma filter_literals:
  "qmarks ''.api_group = ?'' = 1" "qmarks ''.labels @> ?::jsonb'' = 1"
  "qmarks ''.conditions @> ?::jsonb'' = 1" "qmarks ''.creation_ts > ?'' = 1"
  "qmarks ''.creation_ts < ?'' = 1" "qmarks ''.cluster = ?'' = 1"
  "qmarks ''cl.labels @> ?::jsonb'' = 1" "qmarks ''.'' = 0" "qmarks '' = ?'' = 1"
  "qmarks ''json_extract(je.value, '$.type') = ?'' = 1"
  "qmarks ''json_extract(je.value, '$.status') = ?'' = 1"
  "qmarks ''json_extract(je.value, '$.reason') = ?'' = 1"
  "qmarks ''name'' = 0" "qmarks ''namespace'' = 0" "qmarks ''id'' = 0"
  "qmarks ''('' = 0" "qmarks '' OR '' = 0" "qmarks '', '' = 0" "qmarks ''?'' = 1"
  by code_simp+

lemma filterGroupKind_fmts:
  assumes "qmarks al = 0" "qmarks rt = 0"
  shows "qmarks (Sprintf (''EXISTS (SELECT 1 FROM resource_types %s WHERE %s.cluster = %s.cluster AND %s.api_group = %s.api_group AND %s.kind = %s.kind AND '' @
                   ''(lower(%s.kind) = lower(?) OR lower(%s.resource) = lower(?) OR lower(%s.singular) = lower(?) OR ? = ANY(ARRAY(SELECT jsonb_array_elements_text(%s.short_names)))))'')
                   [rt, rt, al, rt, al, rt, al, rt, rt, rt, rt]) = 4"
    "qmarks (Sprintf (''EXISTS (SELECT 1 FROM resource_types %s WHERE %s.cluster = %s.cluster AND %s.api_group = %s.api_group AND %s.kind = %s.kind AND '' @
                   ''(lower(%s.kind) = lower(?) OR lower(%s.resource) = lower(?) OR lower(%s.singular) = lower(?) OR EXISTS (SELECT 1 FROM json_each(%s.short_names) WHERE json_each.value = lower(?))))'')
                   [rt, rt, al, rt, al, rt, al, rt, rt, rt, rt]) = 4"
  by (subst qmarks_fmt [where k = 4], code_simp, simp add: assms)+

lemma filterGroupKind_ok:
  assumes "qmarks al = 0" "qmarks rt = 0"
  shows "part_ok (filterGroupKind g gk al rt)"
proof (cases gk)
  case None
  then show ?thesis by (simp add: filterGroupKind_def)
next
  case (Some k)
  show ?thesis
    unfolding filterGroupKind_def Some option.case
    by (rule cat_parts_ok, unfold list.pred_inject, intro conjI TrueI part_ok_if)
      (simp_all only: filterGroupKind_fmts [OF assms] qmarks_append filter_literals assms list.size
        if_distrib [of qmarks] if_cancel, simp_all)
qed

lemma filterEq_ok: "qmarks al = 0 \<Longrightarrow> qmarks col = 0 \<Longrightarrow> part_ok (filterEq al col v)"
  unfolding filterEq_def by (rule part_ok_if) (simp only: qmarks_append filter_literals list.size)

lemma filterLabels_ok:
  assumes "qmarks al = 0" "list_all (\<lambda>p. qmarks (fst p) = 0) ls"
  shows "part_ok (filterLabels g ls al)"
proof -
  have "qmarks (Sprintf ''json_extract(%s.labels, '$.%s') = ?'' [al, k]) = 1" if "qmarks k = 0" for k
    using assms(1) that by (subst qmarks_fmt [where k = 1], code_simp) simp
  moreover have "part_ok ([al @ ''.labels @> ?::jsonb''], [a])" for a
    by (rule part_ok_single) (simp only: qmarks_append assms filter_literals list.size)
  ultimately show ?thesis
    using assms(2) by (simp only: filterLabels_def split: if_split)
      (auto simp: list_all_iff intro!: part_ok_map)
qed


lemma filterCondition_ok:
  assumes "qmarks al = 0"
  shows "part_ok (filterCondition g al c)"
proof -
  have e: "qmarks (Sprintf ''EXISTS (SELECT 1 FROM json_each(%s.conditions) je WHERE %s)'' [al, x]) = qmarks x" for x
    using assms by (subst qmarks_fmt [where k = 0], code_simp) simp
  show ?thesis
    unfolding filterCondition_def Let_def
    by (split if_split, intro conjI impI part_ok_single)
      (simp only: qmarks_append filter_literals assms list.size,
       simp only: e qmarks_Join filter_literals qmarks_literals map_append list.map
         length_append list.size sum_list_append sum_list.Cons sum_list.Nil split: if_split, simp)
qed

lemma filterTimestamp_ok:
  assumes "qmarks al = 0"
  shows "part_ok (filterTimestamp ts al)"
proof -
  have "part_ok ([al @ ''.creation_ts > ?''], [a])" "part_ok ([al @ ''.creation_ts < ?''], [a])" for a
    by (rule part_ok_single, simp only: qmarks_append filter_literals assms list.size)+
  then show ?thesis
    unfolding filterTimestamp_def by (auto intro!: cat_parts_ok split: option.split)
qed

lemma filterCategory_ok:
  assumes "qmarks al = 0" "qmarks rt = 0"
  shows "part_ok (filterCategory g al rt cat)"
  unfolding filterCategory_def
  by (rule part_ok_single, split if_split, intro conjI impI;
      subst qmarks_fmt [where k = 1], code_simp, simp add: assms)

lemma filterJSONPath_ok:
  assumes "qmarks al = 0"
  shows "part_ok (filterJSONPath g al path)"
proof -
  have "part_ok ([Sprintf ''jsonb_path_match(%s.object, ?::jsonpath)'' [al]], [a])" for a
    by (rule part_ok_single, subst qmarks_fmt [where k = 1], code_simp) (simp add: assms)
  moreover have "part_ok ([Sprintf ''json_extract(%s.object, ?) IS NOT NULL AND json_extract(%s.object, ?) != 'false' AND json_extract(%s.object, ?) != 0'' [al, al, al]], [a, b, c])" for a b c
    by (rule part_ok_single, subst qmarks_fmt [where k = 3], code_simp) (simp add: assms)
  ultimately show ?thesis by (simp only: filterJSONPath_def part_ok_Nil split: if_split) blast
qed

lemma qmarks_placeholder_list: "qmarks (Join (map (\<lambda>_. ''?'') xs) '', '') = length xs"
  by (simp only: qmarks_Join map_map comp_def filter_literals sum_list_triv) simp

lemma filterLabelExpr_fmts:
  assumes "qmarks al = 0" "qmarks k = 0"
  shows "qmarks (Sprintf ''%s.labels->>'%s' IN (%s)'' [al, k, ph]) = qmarks ph"
    "qmarks (Sprintf ''json_extract(%s.labels, '$.%s') IN (%s)'' [al, k, ph]) = qmarks ph"
    "qmarks (Sprintf ''(%s.labels->>'%s' IS NULL OR %s.labels->>'%s' NOT IN (%s))'' [al, k, al, k, ph]) = qmarks ph"
    "qmarks (Sprintf ''(json_extract(%s.labels, '$.%s') IS NULL OR json_extract(%s.labels, '$.%s') NOT IN (%s))'' [al, k, al, k, ph]) = qmarks ph"
    "qmarks (Sprintf ''json_extract(%s.labels, '$.%s') IS NOT NULL'' [al, k]) = 0"
    "qmarks (Sprintf ''json_extract(%s.labels, '$.%s') IS NULL'' [al, k]) = 0"
  by (subst qmarks_fmt [where k = 0], code_simp, simp add: assms)+

lemma filterLabelExpr_ok:
  assumes "qmarks al = 0" "clean_expr g e"
  shows "part_ok (filterLabelExpr g al e)"
proof -
  have k: "qmarks (le_Key e) = 0" using assms(2) by (simp add: clean_expr_def)
  note f = filterLabelExpr_fmts [OF assms(1) k] qmarks_placeholder_list
  have pg: "gen_dialect g \<noteq> ''postgres''" if "le_Operator e \<in> {LabelOpExists, LabelOpDoesNotExist}"
    using that assms(2) by (auto simp only: clean_expr_def)
  show ?thesis
    unfolding filterLabelExpr_def Let_def
    by (intro part_ok_cases part_ok_single part_ok_Nil)
      (use pg in \<open>simp_all only: f if_distrib [of qmarks] if_cancel length_map insertI1 insertI2
        if_False list.size not_False_eq_True\<close>)
qed

lemma buildObjectFilterWithRT_ok:
  assumes "buildObjectFilterWithRT g f al rt = (cs, as, b)"
    and "qmarks al = 0" "qmarks rt = 0" "clean_filter g f"
  shows "part_ok (cs, as)"
proof -
  have "part_ok (cat_parts
        ([filterGroupKind g (of_GroupKind f) al rt,
          filterEq al ''name'' (of_Name f),
          filterEq al ''namespace'' (of_Namespace f),
          filterLabels g (of_Labels f) al] @
         map (filterCondition g al) (of_Conditions f) @
         [filterTimestamp (of_CreationTimestamp f) al,
          filterEq al ''id'' (of_ID f)] @
         map (filterCategory g al rt) (of_Categories f) @
         map (filterLabelExpr g al) (of_LabelExpressions f) @
         [filterJSONPath g al (of_JSONPath f)]))"
    using assms(2-4)
    by (intro cat_parts_ok)
      (auto simp: clean_filter_def list_all_iff filter_literals intro!: filterGroupKind_ok filterEq_ok
        filterLabels_ok filterCondition_ok filterTimestamp_ok filterCategory_ok filterLabelExpr_ok filterJSONPath_ok)
  with assms(1) show ?thesis by (simp add: buildObjectFilterWithRT_def split: prod.splits)
qed


lemma buildObjectFilter_ok:
  "buildObjectFilter g f al = (cs, as, b) \<Longrightarrow> qmarks al = 0 \<Longrightarrow> clean_filter g f \<Longrightarrow> part_ok (cs, as)"
  using buildObjectFilterWithRT_ok [of g f al "''rt''" cs as b]
  by (simp add: buildObjectFilter_def)

text \<open>A filter without clauses has no arguments, so skipping its empty group drops none.\<close>

lemma part_ok_no_clauses: "part_ok ([], as) \<Longrightarrow> as = []"
  by (simp add: part_ok_def)

lemma rootOrGroups_ok:
  "qmarks al = 0 \<Longrightarrow> list_all (clean_filter g) fs \<Longrightarrow> part_ok (rootOrGroups g al fs)"
proof (induction fs)
  case Nil
  then show ?case by simp
next
  case (Cons f fs)
  obtain cs as b where f: "buildObjectFilter g f al = (cs, as, b)" by (metis prod_cases3)
  obtain gs args where r: "rootOrGroups g al fs = (gs, args)" by fastforce
  have "part_ok (cs, as)" using Cons.prems f by (auto intro: buildObjectFilter_ok)
  moreover have "part_ok (gs, args)" using Cons r by simp
  ultimately show ?case
    by (simp only: rootOrGroups.simps f r Let_def prod.case part_ok_def fst_conv snd_conv list.map
        sum_list.Cons qmarks_append qmarks_Join filter_literals qmarks_literals length_append split: if_split)
      simp
qed

text \<open>A spec whose interpolated strings contain no placeholder.\<close>

definition clean_root :: "Generator \<Rightarrow> QuerySpec \<Rightarrow> bool" where
  "clean_root g spec \<longleftrightarrow>
     (case qs_Cluster spec of None \<Rightarrow> True | Some c \<Rightarrow> list_all (\<lambda>p. qmarks (fst p) = 0) (cf_Labels c)) \<and>
     (case qs_Filter spec of None \<Rightarrow> True | Some qf \<Rightarrow> list_all (clean_filter g) (qf_Objects qf))"

lemma clusterClauses_ok:
  assumes al: "qmarks al = 0"
    and c: "case co of None \<Rightarrow> True | Some c \<Rightarrow> list_all (\<lambda>p. qmarks (fst p) = 0) (cf_Labels c)"
  shows "part_ok (clusterClauses g co al)"
proof (cases co)
  case None
  then show ?thesis by (simp add: clusterClauses_def)
next
  case (Some c)
  have s: "qmarks (Sprintf ''json_extract(cl.labels, '$.%s') = ?'' [k]) = 1" if "qmarks k = 0" for k
    using that by (subst qmarks_fmt [where k = 1], code_simp) simp
  have "part_ok (map (\<lambda>p. if gen_dialect g = ''postgres'' then ''cl.labels @> ?::jsonb''
                     else Sprintf ''json_extract(cl.labels, '$.%s') = ?'' [fst p]) (cf_Labels c),
            map (\<lambda>p. if gen_dialect g = ''postgres'' then ArgString (marshal_string_map [p])
                     else ArgString (snd p)) (cf_Labels c))"
    using c Some
    by (intro part_ok_map ballI)
      (simp only: filter_literals option.case list_all_iff s if_distrib [of qmarks] if_cancel)
  moreover have "part_ok (if cf_Name c \<noteq> [] then ([al @ ''.cluster = ?''], [ArgString (cf_Name c)]) else ([], []))"
    by (rule part_ok_if) (simp only: qmarks_append filter_literals al list.size)
  ultimately show ?thesis
    unfolding clusterClauses_def Some option.case by (intro cat_parts_ok) simp
qed

lemma clusterJoins_clean: "qmarks al = 0 \<Longrightarrow> j \<in> set (clusterJoins co al) \<Longrightarrow> qmarks j = 0"
proof -
  assume al: "qmarks al = 0" and j: "j \<in> set (clusterJoins co al)"
  have "qmarks ''JOIN clusters cl ON cl.name = '' = 0" "qmarks ''.cluster'' = 0" by code_simp+
  with al have "qmarks (''JOIN clusters cl ON cl.name = '' @ al @ ''.cluster'') = 0"
    by (simp only: qmarks_append)
  with j show ?thesis by (auto simp only: clusterJoins_def option.set list.set split: option.splits if_splits)
qed

lemma buildRootClauses_ok:
  assumes "buildRootClauses g spec al = Inr (wh, args, joins)"
    and al: "qmarks al = 0" and c: "clean_root g spec"
  shows "part_ok (wh, args) \<and> (\<forall>j \<in> set joins. qmarks j = 0)"
proof -
  obtain cw ca where cc: "clusterClauses g (qs_Cluster spec) al = (cw, ca)" by fastforce
  obtain gs fargs where fg: "(case qs_Filter spec of None \<Rightarrow> ([], [])
      | Some qf \<Rightarrow> rootOrGroups g al (qf_Objects qf)) = (gs, fargs)" by fastforce
  have "part_ok (cw, ca)" using clusterClauses_ok [OF al] c cc by (metis clean_root_def)
  moreover have "part_ok (gs, fargs)"
    using rootOrGroups_ok [OF al] c fg by (force simp: clean_root_def split: option.splits)
  moreover have "wh = cw @ (if gs \<noteq> [] then [''('' @ Join gs '' OR '' @ '')''] else [])"
    "args = ca @ fargs" "joins = clusterJoins (qs_Cluster spec) al"
    using assms(1) by (simp_all add: buildRootClauses_def cc fg)
  ultimately show ?thesis using clusterJoins_clean [OF al]
    by (simp only: part_ok_def fst_conv snd_conv map_append list.map sum_list_append sum_list.Cons
        sum_list.Nil qmarks_append qmarks_Join filter_literals qmarks_literals length_append split: if_split)
      auto
qed

subsection \<open>Columns, order and cursor\<close>

lemma buildProjection_eq: "buildProjection g os al = optProjection os (gen_dialect g) al"
  by (simp add: buildProjection_def optProjection_def split: option.split)

lemma buildProjection_clean:
  "buildProjection g os al = Inr e \<Longrightarrow> clean_projection os \<Longrightarrow> qmarks al = 0 \<Longrightarrow> qmarks e = 0"
  unfolding buildProjection_eq by (rule optProjection_clean)

lemma buildPathExpr_clean: "qmarks al = 0 \<Longrightarrow> qmarks (buildPathExpr al) = 0"
  unfolding buildPathExpr_def by (rule qmarks_fmt0, code_simp) simp

lemma buildSelectCols_clean:
  assumes "qmarks al = 0" "qmarks p = 0" "qmarks path = 0"
  shows "qmarks (buildSelectCols al p path meta) = 0"
proof -
  have "qmarks metaCols = 0" by code_simp
  moreover have "qmarks (Sprintf (''%s.id, %s.uid, %s.cluster, %s.api_group, %s.api_version, %s.kind, %s.resource, '' @
       ''%s.namespace, %s.name, %s.labels, %s.annotations, %s.owner_refs, %s.conditions, '' @
       ''%s.creation_ts, %s.resource_version, '' @
       ''%s AS projected_object, '' @
       ''%s AS path'')
       (replicate 15 al @ [p, path])) = 0"
    by (rule qmarks_fmt0, code_simp) (simp add: assms list_all_iff)
  ultimately show ?thesis by (simp only: buildSelectCols_def qmarks_append qmarks_Nil split: if_split) simp
qed

lemma sort_column_clean: "qmarks (map_get ValidSortFields f) = 0"
proof -
  have "list_all (\<lambda>p. qmarks (snd p) = 0) ValidSortFields" by code_simp
  then show ?thesis
    by (auto simp: map_get_def list_all_iff split: option.split dest!: map_of_SomeD)
qed

lemma orderPart_clean: "qmarks (orderPart ord) = 0"
proof -
  have "qmarks ''DESC'' = 0" "qmarks ''ASC'' = 0" by code_simp+
  then show ?thesis
    by (simp only: orderPart_def qmarks_append sort_column_clean qmarks_literals split: if_split) simp
qed

lemma buildOrderBy_clean: "qmarks (buildOrderBy spec) = 0"
proof -
  have l: "qmarks ''obj.name ASC, obj.namespace ASC'' = 0" "qmarks ''obj.namespace ASC'' = 0"
    "qmarks ''obj.name ASC'' = 0" by code_simp+
  have "\<forall>p \<in> set (orderParts ords). qmarks p = 0" for ords
    using orderPart_clean l by (auto simp only: orderParts_def Let_def set_append set_map list.set split: if_splits)
  then have "qmarks (Join (orderParts ords) '', '') = 0" for ords
    using filter_literals by (intro qmarks_Join_zero)
  then show ?thesis by (simp only: buildOrderBy_def l split: if_split) simp
qed

lemma Split_Repeat: "Split (Repeat ''?,'' n) (CHR '','') = replicate n ''?'' @ [[]]"
proof (induction n)
  case 0
  then show ?case by (simp add: Repeat_def)
next
  case (Suc n)
  have "Repeat ''?,'' (Suc n) = ''?'' @ CHR '','' # Repeat ''?,'' n" by (simp add: Repeat_def)
  with Suc show ?case by (simp only: Split_append_sep) simp
qed

lemma buildCursorFilter_ok:
  assumes "buildCursorFilter spec = (clause, args)"
  shows "qmarks clause = length args \<and> (clause = [] \<longrightarrow> args = [])"
proof -
  have f: "qmarks (Sprintf ''(%s) %s (%s)'' [a, b, c]) = qmarks a + qmarks b + qmarks c" for a b c
    by (subst qmarks_fmt [where k = 0], code_simp) simp
  have "qmarks (cursorOp ords) = 0" for ords
    by (auto simp: cursorOp_def split: list.split)
  moreover have "qmarks (Join (cursorCols ords) '', '') = 0" for ords
    by (rule qmarks_Join_zero) (auto simp: cursorCols_def sort_column_clean)
  moreover have "qmarks (Join (take n (Split (Repeat ''?,'' n) (CHR '',''))) '', '') = n" for n
    by (simp only: Split_Repeat take_append length_replicate qmarks_Join) (simp add: sum_list_replicate qmarks_Cons)
  ultimately have "qmarks (Sprintf ''(%s) %s (%s)''
      [Join (cursorCols ords) '', '', cursorOp ords,
       Join (take (length (cursorCols ords)) (Split (Repeat ''?,'' (length (cursorCols ords))) (CHR '',''))) '', '']) =
      length (cursorCols ords)" for ords
    by (simp only: f)
  then have "qmarks clause = length args"
    using assms by (auto simp: buildCursorFilter_def Let_def cursorCols_def split: option.splits if_splits)
  then show ?thesis by auto
qed


subsection \<open>The cursor token\<close>

lemma Unmarshal_marshal_cursor:
  "Unmarshal (marshal_cursor c) =
     Some (JObj [(''v'', JObj (map (\<lambda>p. (fst p, JStr (snd p))) (sort_key fst (cd_Values c))))])"
proof -
  let ?m = "marshal_string_map (cd_Values c)" and ?v = "marshal_string ''v''"
  let ?n = "2 * length (marshal_cursor c)"
  have eq: "marshal_cursor c = CHR ''{'' # ?v @ CHR '':'' # ?m @ [CHR ''}'']"
    by (simp add: marshal_cursor_def)
  then have "2 * length ?m + 1 \<le> ?n" by simp
  then have "pval ?n (?m @ [CHR ''}'']) =
      Some (JObj (map (\<lambda>p. (fst p, JStr (snd p))) (sort_key fst (cd_Values c))), [CHR ''}''])"
    by (rule pval_marshal_map)
  then have "pobj (Suc ?n) (?v @ CHR '':'' # ?m @ [CHR ''}'']) =
      Some ([(''v'', JObj (map (\<lambda>p. (fst p, JStr (snd p))) (sort_key fst (cd_Values c))))], [])"
    by (simp add: skip_ws_Cons del: pval.simps)
  moreover have "\<exists>t. ?v @ CHR '':'' # ?m @ [CHR ''}''] = CHR 0x22 # t" by (simp add: marshal_string_def)
  ultimately have "pval (Suc (Suc ?n)) (marshal_cursor c) =
      Some (JObj [(''v'', JObj (map (\<lambda>p. (fst p, JStr (snd p))) (sort_key fst (cd_Values c))))], [])"
    unfolding eq by (auto simp: skip_ws_Cons simp del: pobj.simps)
  then show ?thesis by (simp add: Unmarshal_def skip_ws_def del: pval.simps)
qed

lemma cursor_map_strings:
  "distinct (map fst (acc @ kvs)) \<Longrightarrow>
     cursor_map (map (\<lambda>p. (fst p, JStr (snd p))) kvs) acc = Some (acc @ kvs)"
proof (induction kvs arbitrary: acc)
  case (Cons p kvs)
  obtain k v where p: "p = (k, v)" by fastforce
  with Cons.prems have "k \<notin> fst ` set acc" by auto
  then have "AList.update k v acc = acc @ [(k, v)]"
    by (induction acc) auto
  with Cons.IH [of "acc @ [(k, v)]"] Cons.prems show ?case by (simp add: p)
qed simp

lemma decodeCursor_BuildCursorToken:
  assumes "distinct (map fst m)"
  shows "decodeCursor (BuildCursorToken m) = Some \<lparr>cd_Values = sort_key fst m\<rparr>"
proof -
  have "distinct (map fst (sort_key fst m))"
    using assms by (metis distinct_map distinct_sort set_sort)
  then have "cursor_map (map (\<lambda>p. (fst p, JStr (snd p))) (sort_key fst m)) [] = Some (sort_key fst m)"
    using cursor_map_strings [of "[]" "sort_key fst m"] by simp
  moreover have "EqualFold ''v'' ''v''" by (simp add: EqualFold_def)
  ultimately show ?thesis
    by (simp add: decodeCursor_def BuildCursorToken_def DecodeString_EncodeToString unmarshal_cursor_def
        Unmarshal_marshal_cursor)
qed

lemma map_of_sort_key:
  assumes "distinct (map fst m)"
  shows "map_of (sort_key fst m) = map_of m"
proof -
  have "distinct (map fst (sort_key fst m))" using assms by (metis distinct_map distinct_sort set_sort)
  then show ?thesis using assms by (intro map_of_inject_set [THEN iffD2]) simp_all
qed

lemma BuildCursorToken_not_Nil [simp]: "BuildCursorToken m \<noteq> []"
  by (metis BuildCursorToken_def DecodeString_EncodeToString DecodeString_def b64_decode.simps(1)
      filter.simps(1) option.inject Unmarshal_marshal_cursor marshal_cursor_def append_Cons list.distinct(1))

text \<open>The clause of a page that starts at a token: the sort columns compared with the
  values the token was built from.\<close>

lemma buildCursorFilter_token:
  assumes "distinct (map fst m)" and "qs_Page spec = Some p" and "pg_Cursor p = BuildCursorToken m"
  shows "snd (buildCursorFilter spec) =
     map (\<lambda>ord. ArgString (map_get m (ord_Field ord))) (cursorOrder (qs_Order spec))"
  using assms decodeCursor_BuildCursorToken [OF assms(1)]
  by (simp add: buildCursorFilter_def map_get_def map_of_sort_key Let_def)


subsection \<open>Properties\<close>

text \<open>A cursor token is read back: \<open>buildCursorFilter\<close> decodes the token that
  \<open>BuildCursorToken\<close> made from a map of sort keys to exactly that map, whatever bytes the
  values contain, so every argument of the cursor clause is the value the token was built
  from, in the order of the sort columns.\<close>

theorem cursor_token_roundtrip:
  assumes "distinct (map fst m)" and "qs_Page spec = Some p" and "pg_Cursor p = BuildCursorToken m"
  shows "decodeCursor (pg_Cursor p) = Some \<lparr>cd_Values = sort_key fst m\<rparr>
    \<and> snd (buildCursorFilter spec) =
        map (\<lambda>ord. ArgString (map_get m (ord_Field ord))) (cursorOrder (qs_Order spec))"
  using decodeCursor_BuildCursorToken [OF assms(1)] buildCursorFilter_token [OF assms] assms(3) by simp

theorem cursor_token_roundtrip_witness:
  "snd (buildCursorFilter (zero_QuerySpec\<lparr>qs_Page := Some \<lparr>pg_First = 0,
     pg_Cursor = BuildCursorToken [(''name'', ''nginx''), (''namespace'', ''default'')]\<rparr>\<rparr>)) =
     [ArgString ''nginx'', ArgString ''default'']"
proof -
  let ?m = "[(''name'', ''nginx''), (''namespace'', ''default'')]"
  let ?p = "\<lparr>pg_First = 0, pg_Cursor = BuildCursorToken ?m\<rparr>"
  have "snd (buildCursorFilter (zero_QuerySpec\<lparr>qs_Page := Some ?p\<rparr>)) =
      map (\<lambda>ord. ArgString (map_get ?m (ord_Field ord)))
        (cursorOrder (qs_Order (zero_QuerySpec\<lparr>qs_Page := Some ?p\<rparr>)))"
    by (rule cursor_token_roundtrip [where p = ?p, THEN conjunct2]) simp_all
  then show ?thesis by (simp add: zero_QuerySpec_def cursorOrder_def map_get_def)
qed

text \<open>On PostgreSQL a label expression with \<open>Exists\<close> or \<open>DoesNotExist\<close> yields a \<open>?\<close>
  that no argument is bound to: it is meant as the \<open>jsonb\<close> operator, and the query layer
  reads it as a placeholder.\<close>

theorem postgres_exists_unbound:
  assumes "gen_dialect g = ''postgres''" and "le_Operator e \<in> {LabelOpExists, LabelOpDoesNotExist}"
  shows "\<not> part_ok (filterLabelExpr g al e)"
proof -
  have "qmarks (Sprintf (''%s.labels ? '%s'' @ [sq]) [al, le_Key e]) \<noteq> 0"
    "qmarks (Sprintf ''NOT (%s.labels ? '%s')'' [al, le_Key e]) \<noteq> 0"
    by (subst qmarks_fmt [where k = 1], code_simp, simp)+
  with assms show ?thesis
    by (auto simp: filterLabelExpr_def part_ok_def)
qed

theorem postgres_exists_unbound_witness:
  "\<not> part_ok (filterLabelExpr (NewGenerator ''postgres'') ''obj''
     \<lparr>le_Key = ''app'', le_Operator = LabelOpExists, le_Values = []\<rparr>)"
  by (rule postgres_exists_unbound) (simp_all add: NewGenerator_def)

end
