(* ===== verification/Sql_Generator.thy ===== *)
theory Sql_Generator
  imports Sql_Filters "HOL-Library.Multiset"
begin

text \<open>
  \<open>Generate\<close> of \<open>internal/engine/generator.go\<close>: the flat query over the root objects and
  the UNION ALL query over a tree of relations. The breadth-first traversal of the
  relation tree is a state machine: its state holds the queue, the subqueries and common
  table expressions emitted so far, the level counter that numbers the aliases, and the
  arguments collected so far; \<open>bfsStep\<close> is one round of the loop. The field
  \<open>parentObjSpec\<close> of a queue node is never read and left out.
\<close>

subsection \<open>Shared clauses\<close>

definition joinsText :: "string list \<Rightarrow> string" where
  "joinsText js = concat (map (\<lambda>j. '' '' @ j) js)"

definition limitOffset :: "QuerySpec \<Rightarrow> string" where
  "limitOffset spec =
     Sprintf '' LIMIT %d'' [itoa (sint (qs_Limit spec))] @
     (case qs_Page spec of
        None \<Rightarrow> []
      | Some page \<Rightarrow>
          if sint (pg_First page) > 0 \<and> pg_Cursor page = []
          then Sprintf '' OFFSET %d'' [itoa (sint (pg_First page))] else [])"

definition countQuery :: "string \<Rightarrow> string list \<Rightarrow> string list \<Rightarrow> string" where
  "countQuery al rootJoins rootWhere =
     ''SELECT COUNT(*) FROM objects '' @ al @ joinsText rootJoins @ whereClause rootWhere"

subsection \<open>Root objects only\<close>

definition generateRootOnly :: "Generator \<Rightarrow> QuerySpec \<Rightarrow> GeneratedQuery result" where
  "generateRootOnly g spec =
     (let al = ''obj'' in
      andthen (buildRootClauses g spec al) (\<lambda>(rootWhere, rootArgs, rootJoins).
      andthen (buildProjection g (qs_Objects spec) al) (\<lambda>projectionExpr.
      let selectCols = buildSelectCols al projectionExpr (buildPathExpr al) True;
          (cursorWhere, cursorArgs) = buildCursorFilter spec;
          sql = ''SELECT '' @ selectCols @ '' FROM objects '' @ al @ joinsText rootJoins @
            whereClause rootWhere @
            (if cursorWhere \<noteq> [] then (if rootWhere \<noteq> [] then '' AND '' else '' WHERE '') @ cursorWhere
             else []) @
            '' ORDER BY '' @ buildOrderBy spec @ limitOffset spec
      in Inr \<lparr>gq_SQL = sql,
              gq_Args = rootArgs @ (if cursorWhere \<noteq> [] then cursorArgs else []),
              gq_CountSQL = countQuery al rootJoins rootWhere,
              gq_CountArgs = rootArgs,
              gq_HasRelations = False\<rparr>)))"

subsection \<open>Traversal of the relation tree\<close>

record bfsNode =
  bn_level :: nat
  bn_relationName :: string
  bn_relationSpec :: RelationSpec
  bn_ancestors :: "ancestorLevel list"

record bfsState =
  bs_queue :: "bfsNode list"
  bs_subqueries :: "string list"
  bs_extraCTEs :: "string list"
  bs_levelCounter :: nat
  bs_allArgs :: "sqlarg list"

definition relationsOf :: "ObjectsSpec option \<Rightarrow> (string \<times> RelationSpec) list" where
  "relationsOf os = (case os of None \<Rightarrow> [] | Some s \<Rightarrow> os_Relations s)"

definition seedQueue :: "ObjectsSpec option \<Rightarrow> bfsNode list" where
  "seedQueue os =
     sort_key bn_relationName
       (map (\<lambda>(relName, relSpec). \<lparr>bn_level = 1, bn_relationName = relName, bn_relationSpec = relSpec,
          bn_ancestors = []\<rparr>) (relationsOf os))"

definition childNodes :: "bfsNode \<Rightarrow> ancestorLevel list \<Rightarrow> bfsNode list" where
  "childNodes node currentAncestors =
     map (\<lambda>(relName, relSpec). \<lparr>bn_level = bn_level node + 1, bn_relationName = relName,
          bn_relationSpec = relSpec, bn_ancestors = currentAncestors\<rparr>)
       (sort_key fst (relationsOf (rs_Objects (bn_relationSpec node))))"

definition parentAliasOf :: "string \<Rightarrow> bfsNode \<Rightarrow> string" where
  "parentAliasOf rootAlias node =
     (if bn_ancestors node \<noteq> [] then al_alias (last (bn_ancestors node)) else rootAlias)"

text \<open>The WHERE clauses and arguments of the filters of a relation.\<close>

definition relationFilters :: "Generator \<Rightarrow> ObjectFilter list \<Rightarrow> string \<Rightarrow> string \<Rightarrow> filter_part" where
  "relationFilters g fs al rt =
     cat_parts (map (\<lambda>f. case buildObjectFilterWithRT g f al rt of (cs, as, _) \<Rightarrow> (cs, as)) fs)"

definition levelCols :: "nat \<Rightarrow> string \<Rightarrow> string" where
  "levelCols level relName =
     Sprintf ('', %d AS level, '' @ sq # ''%s' AS relation_name'') [itoa (int level), relName]"

text \<open>A relation below a transitive relation joins from the rows of the common table
  expression; its limit and its own relations are not looked at.\<close>

definition subRelation ::
  "Generator \<Rightarrow> string \<Rightarrow> nat \<Rightarrow> nat \<Rightarrow> string \<times> RelationSpec \<Rightarrow> (string \<times> sqlarg list) list result" where
  "subRelation g cteName level levelCounter rel =
     (let relName = fst rel; relSpec = snd rel in
      if IsTransitive relName then Inr []
      else
        let child = Sprintf ''l%d'' [itoa (int (levelCounter + 1))];
            rt = Sprintf ''rt%d'' [itoa (int (levelCounter + 1))];
            (joinClause, extraWhere, extraArgs) = buildRelationJoin (BaseRelation relName)
              \<lparr>rc_parentAlias = cteName, rc_childAlias = child, rc_dialect = gen_dialect g,
               rc_filters = rs_Filters relSpec, rc_refRegistry = Some (gen_refRegistry g)\<rparr>;
            (filterWhere, filterArgs) = relationFilters g (rs_Filters relSpec) child rt
        in andthen (buildProjection g (rs_Objects relSpec) child) (\<lambda>subProj.
           let path = Sprintf ''%s.path || '.' || lower(%s.kind) || '.' || %s.namespace || '/' || %s.name''
                 [cteName, child, child, child]
           in Inr [(''SELECT '' @ buildSelectCols child subProj path False @ levelCols (level + 1) relName @
                    Sprintf '' FROM %s'' [cteName] @ '' '' @ joinClause @
                    whereClause (extraWhere @ filterWhere),
                    extraArgs @ filterArgs)]))"

fun subRelations ::
  "Generator \<Rightarrow> string \<Rightarrow> nat \<Rightarrow> nat \<Rightarrow> (string \<times> RelationSpec) list \<Rightarrow> (string \<times> sqlarg list) list result" where
  "subRelations g cteName level levelCounter [] = Inr []"
| "subRelations g cteName level levelCounter (r # rs) =
     andthen (subRelation g cteName level levelCounter r) (\<lambda>s.
     andthen (subRelations g cteName level levelCounter rs) (\<lambda>ss. Inr (s @ ss)))"

definition cteNameOf :: "string \<Rightarrow> nat \<Rightarrow> string" where
  "cteNameOf relName levelCounter =
     Sprintf ''trans_%s_%d'' [ReplaceAll (BaseRelation relName) ''-'' ''_'', itoa (int levelCounter)]"

definition visitTransitive ::
  "Generator \<Rightarrow> QuerySpec \<Rightarrow> string \<Rightarrow> string \<Rightarrow> bfsNode \<Rightarrow> bfsState \<Rightarrow> bfsState result" where
  "visitTransitive g spec rootAlias rootPath node st =
     (let n = bs_levelCounter st;
          cteName = cteNameOf (bn_relationName node) n
      in andthen (buildTransitiveCTE (BaseRelation (bn_relationName node)) cteName rootAlias rootPath
              (parentAliasOf rootAlias node) (bn_ancestors node) (bn_relationSpec node)
              (rs_Objects (bn_relationSpec node)) (qs_MaxDepth spec) (gen_dialect g)
              (bn_level node) (bn_relationName node)) (\<lambda>result.
         andthen (subRelations g cteName (bn_level node) n
              (relationsOf (rs_Objects (bn_relationSpec node)))) (\<lambda>subs.
         Inr (st\<lparr>bs_extraCTEs := bs_extraCTEs st @ [tr_cteSQL result],
                 bs_subqueries := bs_subqueries st @ [tr_selectSQL result] @ map fst subs,
                 bs_allArgs := bs_allArgs st @ tr_selectArgs result @ concat (map snd subs),
                 bs_levelCounter := n + 1\<rparr>))))"

definition childPathExpr :: "string \<Rightarrow> bfsNode \<Rightarrow> string \<Rightarrow> string" where
  "childPathExpr rootPath node child =
     (let seg = Sprintf (sq # ''.' || lower(%s.kind) || '.' || %s.namespace || '/' || %s.name'')
            [child, child, child]
      in if bn_ancestors node = [] then Sprintf ''%s || %s'' [rootPath, seg]
         else foldl (\<lambda>e a. e @ pathSegment (al_alias a)) rootPath (bn_ancestors node) @
           Sprintf '' || %s'' [seg])"

definition visitPlain ::
  "Generator \<Rightarrow> string \<Rightarrow> string \<Rightarrow> bfsNode \<Rightarrow> bfsState \<Rightarrow> bfsState result" where
  "visitPlain g rootAlias rootPath node st =
     (let n = bs_levelCounter st;
          child = Sprintf ''l%d'' [itoa (int n)];
          rt = Sprintf ''rt%d'' [itoa (int n)];
          relSpec = bn_relationSpec node;
          (joinClause, extraWhere, extraArgs) = buildRelationJoin (BaseRelation (bn_relationName node))
            \<lparr>rc_parentAlias = parentAliasOf rootAlias node, rc_childAlias = child,
             rc_dialect = gen_dialect g, rc_filters = rs_Filters relSpec,
             rc_refRegistry = Some (gen_refRegistry g)\<rparr>;
          (filterWhere, filterArgs) = relationFilters g (rs_Filters relSpec) child rt
      in andthen (buildProjection g (rs_Objects relSpec) child) (\<lambda>childProj.
         let sub = ''SELECT '' @ buildSelectCols child childProj (childPathExpr rootPath node child) False @
               levelCols (bn_level node) (bn_relationName node) @
               '' FROM root_objects '' @ rootAlias @
               joinsText (map al_join (bn_ancestors node)) @ '' '' @ joinClause @
               whereClause (extraWhere @ filterWhere);
             currentAncestors = bn_ancestors node @ [\<lparr>al_alias = child, al_join = joinClause\<rparr>]
         in Inr (st\<lparr>bs_subqueries := bs_subqueries st @ [withLimit (rs_Limit relSpec) sub],
                    bs_allArgs := bs_allArgs st @ extraArgs @ filterArgs,
                    bs_queue := bs_queue st @ childNodes node currentAncestors,
                    bs_levelCounter := n + 1\<rparr>)))"

text \<open>One round of the loop, for the node taken from the queue and the state without it.\<close>

definition bfsStep ::
  "Generator \<Rightarrow> QuerySpec \<Rightarrow> string \<Rightarrow> string \<Rightarrow> bfsNode \<Rightarrow> bfsState \<Rightarrow> bfsState result" where
  "bfsStep g spec rootAlias rootPath node st =
     (if int (bn_level node) > sint (qs_MaxDepth spec) then Inr st
      else if IsTransitive (bn_relationName node) then visitTransitive g spec rootAlias rootPath node st
      else visitPlain g rootAlias rootPath node st)"

text \<open>The loop ends because a round takes one relation block off the queue and puts back
  only the blocks below it.\<close>

definition node_blocks :: "bfsNode \<Rightarrow> nat" where
  "node_blocks node = 1 + countRelationBlocks_rel (bn_relationSpec node)"

definition queue_blocks :: "bfsState \<Rightarrow> nat" where
  "queue_blocks st = sum_list (map node_blocks (bs_queue st))"

lemma countRelationBlocks_relationsOf:
  "countRelationBlocks os = sum_list (map (\<lambda>r. 1 + countRelationBlocks_rel (snd r)) (relationsOf os))"
proof (cases os)
  case None
  then show ?thesis by (simp add: relationsOf_def)
next
  case (Some s)
  then show ?thesis by (cases s) (simp add: relationsOf_def sum_list_Suc)
qed

lemma countRelationBlocks_rel_objects: "countRelationBlocks_rel r = countRelationBlocks (rs_Objects r)"
  by (cases r) simp

lemma sum_list_sort_key: "sum_list (map f (sort_key k xs)) = (sum_list (map f xs) :: nat)"
  by (metis mset_map mset_sort sum_mset_sum_list)

lemma childNodes_blocks:
  "sum_list (map node_blocks (childNodes node as)) = countRelationBlocks_rel (bn_relationSpec node)"
  unfolding countRelationBlocks_rel_objects [of "bn_relationSpec node"] countRelationBlocks_relationsOf
  by (simp add: childNodes_def comp_def case_prod_beta node_blocks_def sum_list_sort_key)

lemma seedQueue_blocks: "sum_list (map node_blocks (seedQueue os)) = countRelationBlocks os"
  by (simp add: seedQueue_def countRelationBlocks_relationsOf sum_list_sort_key comp_def case_prod_beta
      node_blocks_def)

lemma visitTransitive_queue:
  "visitTransitive g spec root path node st = Inr st' \<Longrightarrow> bs_queue st' = bs_queue st"
  by (auto simp: visitTransitive_def Let_def andthen_Inr_iff)

lemma visitPlain_queue:
  "visitPlain g root path node st = Inr st' \<Longrightarrow>
     \<exists>as. bs_queue st' = bs_queue st @ childNodes node as"
  by (auto simp: visitPlain_def Let_def andthen_Inr_iff split: prod.splits)

lemma bfsStep_blocks:
  "bfsStep g spec root path node st = Inr st' \<Longrightarrow> queue_blocks st' < node_blocks node + queue_blocks st"
  by (auto simp: bfsStep_def queue_blocks_def node_blocks_def childNodes_blocks split: if_splits
      dest!: visitTransitive_queue visitPlain_queue)

function bfs :: "Generator \<Rightarrow> QuerySpec \<Rightarrow> string \<Rightarrow> string \<Rightarrow> bfsState \<Rightarrow> bfsState result" where
  "bfs g spec rootAlias rootPath st =
     (case bs_queue st of
        [] \<Rightarrow> Inr st
      | node # queue \<Rightarrow>
          (case bfsStep g spec rootAlias rootPath node (st\<lparr>bs_queue := queue\<rparr>) of
             Inl e \<Rightarrow> Inl e
           | Inr st' \<Rightarrow> bfs g spec rootAlias rootPath st'))"
  by pat_completeness auto

termination
  by (relation "measure (\<lambda>(g, spec, rootAlias, rootPath, st). queue_blocks st)")
    (auto dest!: bfsStep_blocks simp: queue_blocks_def)

declare bfs.simps [simp del]

subsection \<open>Root objects with relations\<close>

definition rootInner :: "Generator \<Rightarrow> QuerySpec \<Rightarrow> string \<Rightarrow> string list \<Rightarrow> string list \<Rightarrow> string" where
  "rootInner g spec rootAlias rootJoins rootWhereAll =
     ''SELECT * FROM objects '' @ rootAlias @ joinsText rootJoins @ whereClause rootWhereAll @
     '' ORDER BY '' @ ReplaceAll (buildOrderBy spec) ''obj.'' (rootAlias @ ''.'') @ limitOffset spec"

text \<open>The WITH clause is written once the traversal is done: with transitive relations,
  the prefix of the root query is replaced by a recursive WITH that also holds their
  expressions.\<close>

definition assembleUnion :: "string \<Rightarrow> string \<Rightarrow> string list \<Rightarrow> string list \<Rightarrow> string" where
  "assembleUnion inner rootSelect extraCTEs subqueries =
     (let withPrefix = Sprintf ''WITH root_objects AS (%s) '' [inner];
          rootSQL = withPrefix @ rootSelect
      in (if extraCTEs \<noteq> [] then
            ''WITH RECURSIVE root_objects AS ('' @ inner @ ''), '' @ Join extraCTEs '', '' @ '' '' @
            TrimPrefix rootSQL withPrefix
          else rootSQL) @
         concat (map (\<lambda>s. '' UNION ALL '' @ s) subqueries) @ '' ORDER BY path'')"

definition seedState :: "QuerySpec \<Rightarrow> sqlarg list \<Rightarrow> bfsState" where
  "seedState spec args = \<lparr>bs_queue = seedQueue (qs_Objects spec), bs_subqueries = [], bs_extraCTEs = [],
     bs_levelCounter = 1, bs_allArgs = args\<rparr>"

definition generateWithRelations :: "Generator \<Rightarrow> QuerySpec \<Rightarrow> GeneratedQuery result" where
  "generateWithRelations g spec =
     (let rootAlias = ''l0'' in
      andthen (buildRootClauses g spec rootAlias) (\<lambda>(rootWhere, rootArgs, rootJoins).
      andthen (buildProjection g (qs_Objects spec) rootAlias) (\<lambda>rootProj.
      let rootPath = buildPathExpr rootAlias;
          (cursorWhere, cursorArgs) = buildCursorFilter spec;
          rootWhereAll = rootWhere @ (if cursorWhere \<noteq> [] then [cursorWhere] else []);
          args = rootArgs @ (if cursorWhere \<noteq> [] then cursorArgs else []);
          inner = rootInner g spec rootAlias rootJoins rootWhereAll;
          rootSelect = ''SELECT '' @ buildSelectCols rootAlias rootProj rootPath False @
            metaCols @ '' FROM root_objects '' @ rootAlias
      in andthen (bfs g spec rootAlias rootPath (seedState spec args)) (\<lambda>st.
         Inr \<lparr>gq_SQL = assembleUnion inner rootSelect (bs_extraCTEs st) (bs_subqueries st),
              gq_Args = bs_allArgs st,
              gq_CountSQL = countQuery rootAlias rootJoins rootWhere,
              gq_CountArgs = rootArgs,
              gq_HasRelations = True\<rparr>))))"

definition Generate :: "Generator \<Rightarrow> QuerySpec \<Rightarrow> GeneratedQuery result" where
  "Generate g spec =
     (if relationsOf (qs_Objects spec) \<noteq> [] then generateWithRelations g spec
      else generateRootOnly g spec)"


subsection \<open>Reachable states and loop invariants\<close>

inductive bfs_reachable ::
  "Generator \<Rightarrow> QuerySpec \<Rightarrow> string \<Rightarrow> string \<Rightarrow> bfsState \<Rightarrow> bfsState \<Rightarrow> bool"
  for g spec rootAlias rootPath init where
  start: "bfs_reachable g spec rootAlias rootPath init init"
| round: "bfs_reachable g spec rootAlias rootPath init st \<Longrightarrow> bs_queue st = node # queue \<Longrightarrow>
    bfsStep g spec rootAlias rootPath node (st\<lparr>bs_queue := queue\<rparr>) = Inr st' \<Longrightarrow>
    bfs_reachable g spec rootAlias rootPath init st'"

inductive_cases bfs_reachableE: "bfs_reachable g spec rootAlias rootPath init st"

lemma bfs_result_reachable:
  "bfs g spec rootAlias rootPath st = Inr st' \<Longrightarrow> bfs_reachable g spec rootAlias rootPath init st \<Longrightarrow>
     bfs_reachable g spec rootAlias rootPath init st' \<and> bs_queue st' = []"
proof (induction g spec rootAlias rootPath st rule: bfs.induct)
  case (1 g spec rootAlias rootPath st)
  show ?case
  proof (cases "bs_queue st")
    case Nil
    with "1.prems" show ?thesis by (simp add: bfs.simps [of _ _ _ _ st])
  next
    case (Cons node queue)
    with "1.prems" obtain st1 where "bfsStep g spec rootAlias rootPath node (st\<lparr>bs_queue := queue\<rparr>) = Inr st1"
      "bfs g spec rootAlias rootPath st1 = Inr st'"
      by (auto simp: bfs.simps [of _ _ _ _ st] split: sum.splits)
    with "1.IH" [OF Cons] "1.prems"(2) Cons show ?thesis by (blast intro: bfs_reachable.round)
  qed
qed

text \<open>The contract of the loop: what one round preserves holds of every reachable state,
  and of the result with its empty queue.\<close>

locale bfs_invariant =
  fixes g :: Generator and spec :: QuerySpec and rootAlias rootPath :: string
    and Inv :: "bfsState \<Rightarrow> bool"
  assumes preserved: "Inv st \<Longrightarrow> bs_queue st = node # queue \<Longrightarrow>
    bfsStep g spec rootAlias rootPath node (st\<lparr>bs_queue := queue\<rparr>) = Inr st' \<Longrightarrow> Inv st'"
begin

lemma reachable: "bfs_reachable g spec rootAlias rootPath init st \<Longrightarrow> Inv init \<Longrightarrow> Inv st"
  by (induction rule: bfs_reachable.induct) (auto intro: preserved)

lemma result:
  "bfs g spec rootAlias rootPath st = Inr st' \<Longrightarrow> Inv st \<Longrightarrow> Inv st' \<and> bs_queue st' = []"
  using bfs_result_reachable [OF _ bfs_reachable.start] reachable by blast

end

subsection \<open>Placeholders of the traversal\<close>

text \<open>Relation names, label keys and projections are the strings of a spec that reach the
  SQL text uninterpreted.\<close>

fun clean_objects :: "Generator \<Rightarrow> ObjectsSpec \<Rightarrow> bool"
  and clean_relation :: "Generator \<Rightarrow> RelationSpec \<Rightarrow> bool" where
  "clean_objects g (ObjectsSpec i c m raw rels) \<longleftrightarrow>
     (case raw of None \<Rightarrow> True | Some r \<Rightarrow> clean_raw r) \<and>
     list_all (\<lambda>p. qmarks (fst p) = 0 \<and> clean_relation g (snd p)) rels"
| "clean_relation g (RelationSpec l fs os) \<longleftrightarrow>
     list_all (clean_filter g) fs \<and> (case os of None \<Rightarrow> True | Some s \<Rightarrow> clean_objects g s)"

definition clean_node :: "Generator \<Rightarrow> bfsNode \<Rightarrow> bool" where
  "clean_node g node \<longleftrightarrow> qmarks (bn_relationName node) = 0 \<and> clean_relation g (bn_relationSpec node) \<and>
     list_all clean_ancestor (bn_ancestors node)"

definition bound_state :: "Generator \<Rightarrow> nat \<Rightarrow> bfsState \<Rightarrow> bool" where
  "bound_state g k st \<longleftrightarrow> list_all (clean_node g) (bs_queue st) \<and>
     (\<forall>c \<in> set (bs_extraCTEs st). qmarks c = 0) \<and>
     k + sum_list (map qmarks (bs_subqueries st)) = length (bs_allArgs st)"

lemma clean_relation_parts:
  assumes "clean_relation g r"
  shows "list_all (clean_filter g) (rs_Filters r)" "clean_projection (rs_Objects r)"
    "list_all (\<lambda>p. qmarks (fst p) = 0 \<and> clean_relation g (snd p)) (relationsOf (rs_Objects r))"
proof -
  obtain l fs os where r: "r = RelationSpec l fs os" by (cases r)
  with assms show "list_all (clean_filter g) (rs_Filters r)" by simp
  show "clean_projection (rs_Objects r)"
    using assms unfolding r by (cases os; cases "the os") (auto simp: clean_projection_def split: option.splits)
  show "list_all (\<lambda>p. qmarks (fst p) = 0 \<and> clean_relation g (snd p)) (relationsOf (rs_Objects r))"
    using assms unfolding r by (cases os; cases "the os") (auto simp: relationsOf_def)
qed

lemma level_alias: "Sprintf ''l%d'' [itoa (int n)] = ''l'' @ nat_str n"
  "Sprintf ''rt%d'' [itoa (int n)] = ''rt'' @ nat_str n"
  by (simp_all add: Sprintf.simps itoa_def)

lemma level_alias_clean: "qmarks (''l'' @ nat_str n) = 0" "qmarks (''rt'' @ nat_str n) = 0"
  by simp_all

lemma relationFilters_ok:
  assumes "list_all (clean_filter g) fs" "qmarks al = 0" "qmarks rt = 0"
  shows "part_ok (relationFilters g fs al rt)"
  unfolding relationFilters_def
  using assms by (intro cat_parts_ok) (auto simp: list_all_iff intro: buildObjectFilterWithRT_ok split: prod.split)

lemma levelCols_clean: "qmarks name = 0 \<Longrightarrow> qmarks (levelCols n name) = 0"
  unfolding levelCols_def by (rule qmarks_fmt0, code_simp) simp

lemma generator_literals:
  "qmarks ''SELECT '' = 0" "qmarks '' FROM root_objects '' = 0" "qmarks '' FROM objects '' = 0"
  "qmarks ''l0'' = 0" "qmarks ''obj'' = 0" "qmarks '' ORDER BY '' = 0" "qmarks '' ORDER BY path'' = 0"
  "qmarks '' UNION ALL '' = 0" "qmarks ''SELECT COUNT(*) FROM objects '' = 0"
  "qmarks ''SELECT * FROM objects '' = 0" "qmarks ''WITH RECURSIVE root_objects AS ('' = 0"
  "qmarks ''), '' = 0" "qmarks metaCols = 0"
  by code_simp+

lemma cteNameOf_clean: "qmarks name = 0 \<Longrightarrow> qmarks (cteNameOf name n) = 0"
proof -
  assume "qmarks name = 0"
  then have "qmarks (ReplaceAll (BaseRelation name) ''-'' ''_'') = 0"
    by (intro qmarks_ReplaceAll qmarks_BaseRelation) simp_all
  then show ?thesis unfolding cteNameOf_def by (intro qmarks_fmt0, code_simp) simp
qed

lemma from_clean: "qmarks cte = 0 \<Longrightarrow> qmarks (Sprintf '' FROM %s'' [cte]) = 0"
  by (rule qmarks_fmt0, code_simp) simp

lemma subPath_clean:
  "qmarks cte = 0 \<Longrightarrow> qmarks al = 0 \<Longrightarrow>
     qmarks (Sprintf ''%s.path || '.' || lower(%s.kind) || '.' || %s.namespace || '/' || %s.name'' [cte, al, al, al]) = 0"
  by (rule qmarks_fmt0, code_simp) simp

lemma joinsText_qmarks: "\<forall>j \<in> set js. qmarks j = 0 \<Longrightarrow> qmarks (joinsText js) = 0"
  unfolding joinsText_def qmarks_concat by (rule sum_list_zero_map) (auto simp: qmarks_literals)


text \<open>A subquery of a relation: SELECT, columns, level, source, join and conditions.\<close>

lemma subquery_qmarks:
  assumes "qmarks cols = 0" "qmarks lvl = 0" "qmarks src = 0" "join_args_ok (j, wh, as)" "part_ok (fw, fas)"
  shows "qmarks (''SELECT '' @ cols @ lvl @ src @ '' '' @ j @ whereClause (wh @ fw)) = length (as @ fas)"
  using assms
  by (simp only: qmarks_append generator_literals qmarks_literals whereClause_qmarks join_args_ok_def part_ok_def
      prod.case fst_conv snd_conv map_append sum_list_append length_append add_0)

lemma subRelation_ok:
  assumes "subRelation g cte lvl n r = Inr subs" and "qmarks cte = 0"
    and "qmarks (fst r) = 0" and r: "clean_relation g (snd r)"
  shows "\<forall>s \<in> set subs. qmarks (fst s) = length (snd s)"
proof (cases "IsTransitive (fst r)")
  case True
  with assms(1) show ?thesis by (simp add: subRelation_def)
next
  case False
  let ?al = "''l'' @ nat_str (n + 1)" and ?rt = "''rt'' @ nat_str (n + 1)"
  let ?ctx = "\<lparr>rc_parentAlias = cte, rc_childAlias = ?al, rc_dialect = gen_dialect g,
    rc_filters = rs_Filters (snd r), rc_refRegistry = Some (gen_refRegistry g)\<rparr>"
  obtain j wh as where J: "buildRelationJoin (BaseRelation (fst r)) ?ctx = (j, wh, as)" by (metis prod_cases3)
  obtain fw fas where F: "relationFilters g (rs_Filters (snd r)) ?al ?rt = (fw, fas)" by fastforce
  from assms(1) False obtain p where P: "buildProjection g (rs_Objects (snd r)) ?al = Inr p"
    by (auto simp only: subRelation_def Let_def level_alias J F prod.case if_False andthen_Inr_iff)
  have p: "qmarks p = 0"
    by (rule buildProjection_clean [OF P clean_relation_parts(2) [OF r] level_alias_clean(1)])
  have j: "join_args_ok (j, wh, as)"
    using buildRelationJoin_ok [of ?ctx] J assms(2) level_alias_clean by (metis clean_ctx_def relationContext.simps(1,2))
  have f: "part_ok (fw, fas)"
    using relationFilters_ok clean_relation_parts(1) [OF r] level_alias_clean F by metis
  have "subs = [(''SELECT '' @ buildSelectCols ?al p
      (Sprintf ''%s.path || '.' || lower(%s.kind) || '.' || %s.namespace || '/' || %s.name'' [cte, ?al, ?al, ?al]) False @
      levelCols (lvl + 1) (fst r) @ Sprintf '' FROM %s'' [cte] @ '' '' @ j @ whereClause (wh @ fw), as @ fas)]"
    using assms(1) False
    by (simp only: subRelation_def Let_def level_alias J F prod.case if_False P andthen_simps sum.inject)
  then show ?thesis
    by (simp only: list.set ball_simps fst_conv snd_conv simp_thms
        subquery_qmarks [OF buildSelectCols_clean [OF level_alias_clean(1) p subPath_clean [OF assms(2) level_alias_clean(1)]]
          levelCols_clean [OF assms(3)] from_clean [OF assms(2)] j f])
qed

lemma subRelations_ok:
  "subRelations g cte lvl n rs = Inr subs \<Longrightarrow> qmarks cte = 0 \<Longrightarrow>
     list_all (\<lambda>p. qmarks (fst p) = 0 \<and> clean_relation g (snd p)) rs \<Longrightarrow>
     sum_list (map qmarks (map fst subs)) = length (concat (map snd subs))"
proof (induction rs arbitrary: subs)
  case Nil
  then show ?case by simp
next
  case (Cons r rs)
  then obtain s ss where s: "subRelation g cte lvl n r = Inr s" "subRelations g cte lvl n rs = Inr ss"
    "subs = s @ ss" by (auto simp: andthen_Inr_iff)
  have "\<forall>x \<in> set s. qmarks (fst x) = length (snd x)"
    using subRelation_ok [OF s(1)] Cons.prems by simp
  then have "sum_list (map qmarks (map fst s)) = length (concat (map snd s))" by (induction s) auto
  with Cons.IH [OF s(2)] Cons.prems s(3) show ?case by simp
qed

lemma parentAliasOf_clean: "clean_node g node \<Longrightarrow> qmarks root = 0 \<Longrightarrow> qmarks (parentAliasOf root node) = 0"
  by (auto simp: parentAliasOf_def clean_node_def list_all_iff clean_ancestor_def)

lemma visitTransitive_bound:
  assumes "visitTransitive g spec root path node st = Inr st'" "bound_state g k st" "clean_node g node"
    "qmarks root = 0" "qmarks path = 0"
  shows "bound_state g k st'"
proof -
  let ?n = "bs_levelCounter st" let ?cte = "cteNameOf (bn_relationName node) ?n"
  have n: "qmarks (bn_relationName node) = 0" "list_all clean_ancestor (bn_ancestors node)"
    "clean_relation g (bn_relationSpec node)"
    using assms(3) by (simp_all add: clean_node_def)
  from assms(1) obtain r subs where
    r: "buildTransitiveCTE (BaseRelation (bn_relationName node)) ?cte root path
        (parentAliasOf root node) (bn_ancestors node) (bn_relationSpec node)
        (rs_Objects (bn_relationSpec node)) (qs_MaxDepth spec) (gen_dialect g)
        (bn_level node) (bn_relationName node) = Inr r"
    and s: "subRelations g ?cte (bn_level node) ?n (relationsOf (rs_Objects (bn_relationSpec node))) = Inr subs"
    and st': "st' = st\<lparr>bs_extraCTEs := bs_extraCTEs st @ [tr_cteSQL r],
                 bs_subqueries := bs_subqueries st @ [tr_selectSQL r] @ map fst subs,
                 bs_allArgs := bs_allArgs st @ tr_selectArgs r @ concat (map snd subs),
                 bs_levelCounter := ?n + 1\<rparr>"
    by (auto simp only: visitTransitive_def Let_def andthen_Inr_iff sum.inject)
  have "qmarks (tr_cteSQL r) = 0 \<and> qmarks (tr_selectSQL r) = length (tr_selectArgs r)"
    by (rule buildTransitiveCTE_ok [OF r])
      (use assms n cteNameOf_clean parentAliasOf_clean clean_relation_parts(2) in blast)+
  moreover have "sum_list (map qmarks (map fst subs)) = length (concat (map snd subs))"
    by (rule subRelations_ok [OF s]) (use n cteNameOf_clean clean_relation_parts(3) in blast)+
  ultimately show ?thesis using assms(2) by (auto simp: st' bound_state_def)
qed

lemma childPathExpr_clean:
  assumes "qmarks path = 0" "qmarks child = 0" "list_all clean_ancestor (bn_ancestors node)"
  shows "qmarks (childPathExpr path node child) = 0"
proof -
  have "qmarks (Sprintf (sq # ''.' || lower(%s.kind) || '.' || %s.namespace || '/' || %s.name'')
      [child, child, child]) = 0"
    by (rule qmarks_fmt0, code_simp) (simp add: assms)
  moreover have "qmarks (Sprintf ''%s || %s'' [path, x]) = qmarks x" "qmarks (Sprintf '' || %s'' [x]) = qmarks x" for x
    by (subst qmarks_fmt [where k = 0], code_simp, simp add: assms)+
  ultimately show ?thesis
    using ancestorPath_clean [OF assms(1,3)] unfolding childPathExpr_def Let_def
    by (simp only: qmarks_append split: if_split) simp
qed

lemma childNodes_clean:
  assumes "clean_node g node" "list_all clean_ancestor as"
  shows "list_all (clean_node g) (childNodes node as)"
  using assms clean_relation_parts(3) [of g "bn_relationSpec node"]
  by (auto simp: childNodes_def clean_node_def list_all_iff)


lemma bound_state_push:
  "bound_state g k st \<Longrightarrow> list_all (clean_node g) ns \<Longrightarrow> qmarks sub = length as \<Longrightarrow>
     bound_state g k (st\<lparr>bs_subqueries := bs_subqueries st @ [sub], bs_allArgs := bs_allArgs st @ as,
       bs_queue := bs_queue st @ ns, bs_levelCounter := n\<rparr>)"
  by (simp add: bound_state_def)

lemma visitPlain_bound:
  assumes "visitPlain g root path node st = Inr st'" "bound_state g k st" "clean_node g node"
    "qmarks root = 0" "qmarks path = 0"
  shows "bound_state g k st'"
proof -
  let ?n = "bs_levelCounter st" let ?al = "''l'' @ nat_str ?n" and ?rt = "''rt'' @ nat_str ?n"
  let ?rel = "bn_relationSpec node" and ?name = "bn_relationName node"
  let ?ctx = "\<lparr>rc_parentAlias = parentAliasOf root node, rc_childAlias = ?al, rc_dialect = gen_dialect g,
    rc_filters = rs_Filters ?rel, rc_refRegistry = Some (gen_refRegistry g)\<rparr>"
  have n: "qmarks ?name = 0" "list_all clean_ancestor (bn_ancestors node)" "clean_relation g ?rel"
    using assms(3) by (simp_all add: clean_node_def)
  obtain j wh as where J: "buildRelationJoin (BaseRelation ?name) ?ctx = (j, wh, as)" by (metis prod_cases3)
  obtain fw fas where F: "relationFilters g (rs_Filters ?rel) ?al ?rt = (fw, fas)" by fastforce
  from assms(1) obtain p where P: "buildProjection g (rs_Objects ?rel) ?al = Inr p"
    by (auto simp only: visitPlain_def Let_def level_alias J F prod.case andthen_Inr_iff)
  have p: "qmarks p = 0"
    by (rule buildProjection_clean [OF P clean_relation_parts(2) [OF n(3)] level_alias_clean(1)])
  have j: "join_args_ok (j, wh, as)"
    using buildRelationJoin_ok [of ?ctx] J parentAliasOf_clean [OF assms(3,4)] level_alias_clean
    by (metis clean_ctx_def relationContext.simps(1,2))
  have f: "part_ok (fw, fas)"
    using relationFilters_ok clean_relation_parts(1) [OF n(3)] level_alias_clean F by metis
  let ?as = "bn_ancestors node @ [\<lparr>al_alias = ?al, al_join = j\<rparr>]"
  let ?sub = "''SELECT '' @ buildSelectCols ?al p (childPathExpr path node ?al) False @
      levelCols (bn_level node) ?name @
      ('' FROM root_objects '' @ root @ joinsText (map al_join (bn_ancestors node))) @ '' '' @ j @
      whereClause (wh @ fw)"
  have st': "st' = st\<lparr>bs_subqueries := bs_subqueries st @ [withLimit (rs_Limit ?rel) ?sub],
      bs_allArgs := bs_allArgs st @ as @ fas, bs_queue := bs_queue st @ childNodes node ?as,
      bs_levelCounter := ?n + 1\<rparr>"
    using assms(1)
    by (simp only: visitPlain_def Let_def level_alias J F prod.case P andthen_simps sum.inject append_assoc)
  have "qmarks ('' FROM root_objects '' @ root @ joinsText (map al_join (bn_ancestors node))) = 0"
    using joinsText_qmarks [of "map al_join (bn_ancestors node)"] n(2) assms(4)
    by (simp only: qmarks_append generator_literals) (simp add: list_all_iff clean_ancestor_def)
  note q = subquery_qmarks [OF buildSelectCols_clean [OF level_alias_clean(1) p
        childPathExpr_clean [OF assms(5) level_alias_clean(1) n(2)]] levelCols_clean [OF n(1)] this j f]
  have "clean_ancestor \<lparr>al_alias = ?al, al_join = j\<rparr>"
    using j level_alias_clean(1) [of ?n] by (simp only: clean_ancestor_def ancestorLevel.simps join_args_ok_def prod.case simp_thms)
  then have "list_all (clean_node g) (childNodes node ?as)"
    using n(2) by (intro childNodes_clean [OF assms(3)]) simp
  then show ?thesis unfolding st'
    by (rule bound_state_push [OF assms(2)]) (simp only: withLimit_qmarks q)
qed

lemma bfsStep_bound:
  assumes "bound_state g k st" "bs_queue st = node # queue" "qmarks root = 0" "qmarks path = 0"
    and "bfsStep g spec root path node (st\<lparr>bs_queue := queue\<rparr>) = Inr st'"
  shows "bound_state g k st'"
proof -
  have "bound_state g k (st\<lparr>bs_queue := queue\<rparr>)" "clean_node g node"
    using assms(1,2) by (simp_all add: bound_state_def)
  with assms(3-5) visitTransitive_bound visitPlain_bound show ?thesis
    by (auto simp: bfsStep_def split: if_splits)
qed

interpretation binding: bfs_invariant g spec "''l0''" "buildPathExpr ''l0''" "bound_state g k" for g spec k
  using bfsStep_bound buildPathExpr_clean generator_literals(4) by unfold_locales metis


subsection \<open>Placeholders of the generated queries\<close>

definition clean_spec :: "Generator \<Rightarrow> QuerySpec \<Rightarrow> bool" where
  "clean_spec g spec \<longleftrightarrow> clean_root g spec \<and>
     (case qs_Objects spec of None \<Rightarrow> True | Some os \<Rightarrow> clean_objects g os)"

lemma clean_spec_parts:
  assumes "clean_spec g spec"
  shows "clean_root g spec" "clean_projection (qs_Objects spec)"
    "list_all (\<lambda>p. qmarks (fst p) = 0 \<and> clean_relation g (snd p)) (relationsOf (qs_Objects spec))"
  using assms
  by (cases "qs_Objects spec"; cases "the (qs_Objects spec)";
      auto simp: clean_spec_def clean_projection_def relationsOf_def split: option.splits)+

lemma limitOffset_clean: "qmarks (limitOffset spec) = 0"
proof -
  have "qmarks (Sprintf '' LIMIT %d'' [itoa i]) = 0" "qmarks (Sprintf '' OFFSET %d'' [itoa i]) = 0" for i
    by (rule qmarks_fmt0, code_simp, simp)+
  then show ?thesis
    by (simp only: limitOffset_def qmarks_append qmarks_Nil split: option.split if_split) simp
qed

lemma countQuery_qmarks:
  assumes "part_ok (wh, args)" "\<forall>j \<in> set joins. qmarks j = 0" "qmarks al = 0"
  shows "qmarks (countQuery al joins wh) = length args"
  using assms(1)
  by (simp only: countQuery_def qmarks_append generator_literals joinsText_qmarks [OF assms(2)] assms(3)
      whereClause_qmarks part_ok_def fst_conv snd_conv add_0)

lemma rootInner_qmarks:
  assumes "part_ok (wh, args)" "\<forall>j \<in> set joins. qmarks j = 0" "qmarks al = 0"
  shows "qmarks (rootInner g spec al joins wh) = length args"
proof -
  have "qmarks (ReplaceAll (buildOrderBy spec) ''obj.'' (al @ ''.'')) = 0"
    by (rule qmarks_ReplaceAll [OF buildOrderBy_clean]) (simp only: qmarks_append filter_literals assms)
  then show ?thesis
    using assms(1)
    by (simp only: rootInner_def qmarks_append generator_literals joinsText_qmarks [OF assms(2)] assms(3)
        whereClause_qmarks part_ok_def limitOffset_clean fst_conv snd_conv add_0 add_0_right)
qed

lemma assembleUnion_qmarks:
  assumes "qmarks sel = 0" "\<forall>c \<in> set ctes. qmarks c = 0"
  shows "qmarks (assembleUnion inner sel ctes subs) = qmarks inner + sum_list (map qmarks subs)"
proof -
  have w: "qmarks (Sprintf ''WITH root_objects AS (%s) '' [inner]) = qmarks inner"
    by (subst qmarks_fmt [where k = 0], code_simp) simp
  have u: "qmarks (concat (map (\<lambda>s. '' UNION ALL '' @ s) subs)) = sum_list (map qmarks subs)"
    by (simp only: qmarks_concat map_map comp_def qmarks_append generator_literals add_0)
  have c: "qmarks (Join ctes '', '') = 0"
    by (rule qmarks_Join_zero [OF assms(2)]) (simp only: filter_literals)
  show ?thesis
    unfolding assembleUnion_def Let_def TrimPrefix_append
    by (simp only: qmarks_append w u c generator_literals qmarks_literals assms(1) add_0 add_0_right split: if_split) simp
qed

lemma cursor_part_ok:
  assumes "part_ok (wh, args)" "buildCursorFilter spec = (cw, ca)"
  shows "part_ok (wh @ (if cw \<noteq> [] then [cw] else []), args @ (if cw \<noteq> [] then ca else []))"
  using assms(1) buildCursorFilter_ok [OF assms(2)] by (simp add: part_ok_def)

definition well_bound :: "GeneratedQuery \<Rightarrow> bool" where
  "well_bound q \<longleftrightarrow> qmarks (gq_SQL q) = length (gq_Args q) \<and> qmarks (gq_CountSQL q) = length (gq_CountArgs q)"

lemma buildRootClauses_Inr: "\<exists>wh args joins. buildRootClauses g spec al = Inr (wh, args, joins)"
  by (simp add: buildRootClauses_def split: prod.split)

lemma generateRootOnly_bound:
  assumes "generateRootOnly g spec = Inr q" and c: "clean_spec g spec"
  shows "well_bound q"
proof -
  obtain wh args joins where r: "buildRootClauses g spec ''obj'' = Inr (wh, args, joins)"
    using buildRootClauses_Inr by blast
  obtain cw ca where cw: "buildCursorFilter spec = (cw, ca)" by fastforce
  from assms(1) obtain p where p: "buildProjection g (qs_Objects spec) ''obj'' = Inr p"
    by (auto simp only: generateRootOnly_def Let_def r cw prod.case andthen_simps andthen_Inr_iff)
  have ok: "part_ok (wh, args)" "\<forall>j \<in> set joins. qmarks j = 0"
    using buildRootClauses_ok [OF r generator_literals(5) clean_spec_parts(1) [OF c]] by auto
  have pc: "qmarks p = 0" by (rule buildProjection_clean [OF p clean_spec_parts(2) [OF c] generator_literals(5)])
  note cols = buildSelectCols_clean [OF generator_literals(5) pc buildPathExpr_clean [OF generator_literals(5)]]
  have "qmarks (if cw \<noteq> [] then (if wh \<noteq> [] then '' AND '' else '' WHERE '') @ cw else []) =
      length (if cw \<noteq> [] then ca else [])"
    using buildCursorFilter_ok [OF cw]
    by (simp only: qmarks_append qmarks_literals qmarks_Nil list.size split: if_split) simp
  moreover have "q = \<lparr>gq_SQL = ''SELECT '' @ buildSelectCols ''obj'' p (buildPathExpr ''obj'') True @
        '' FROM objects '' @ ''obj'' @ joinsText joins @ whereClause wh @
        (if cw \<noteq> [] then (if wh \<noteq> [] then '' AND '' else '' WHERE '') @ cw else []) @
        '' ORDER BY '' @ buildOrderBy spec @ limitOffset spec,
      gq_Args = args @ (if cw \<noteq> [] then ca else []), gq_CountSQL = countQuery ''obj'' joins wh,
      gq_CountArgs = args, gq_HasRelations = False\<rparr>"
    using assms(1) unfolding generateRootOnly_def Let_def r p cw andthen_simps prod.case sum.inject by (rule sym)
  ultimately show ?thesis
    using ok(1)
    by (simp only: well_bound_def GeneratedQuery.simps countQuery_qmarks [OF ok generator_literals(5)] qmarks_append
        generator_literals cols joinsText_qmarks [OF ok(2)] whereClause_qmarks part_ok_def fst_conv snd_conv
        buildOrderBy_clean limitOffset_clean length_append add_0 add_0_right simp_thms)
qed

lemma seedState_bound:
  assumes "clean_spec g spec"
  shows "bound_state g (length args) (seedState spec args)"
  using clean_spec_parts(3) [OF assms]
  by (auto simp: bound_state_def seedState_def seedQueue_def clean_node_def list_all_iff)

lemma generateWithRelations_bound:
  assumes "generateWithRelations g spec = Inr q" and c: "clean_spec g spec"
  shows "well_bound q"
proof -
  obtain wh args joins where r: "buildRootClauses g spec ''l0'' = Inr (wh, args, joins)"
    using buildRootClauses_Inr by blast
  obtain cw ca where cw: "buildCursorFilter spec = (cw, ca)" by fastforce
  from assms(1) obtain p where p: "buildProjection g (qs_Objects spec) ''l0'' = Inr p"
    by (auto simp only: generateWithRelations_def Let_def r cw prod.case andthen_simps andthen_Inr_iff)
  let ?wh = "wh @ (if cw \<noteq> [] then [cw] else [])" and ?args = "args @ (if cw \<noteq> [] then ca else [])"
  from assms(1) obtain st where
    st: "bfs g spec ''l0'' (buildPathExpr ''l0'') (seedState spec ?args) = Inr st"
    by (auto simp only: generateWithRelations_def Let_def r p cw andthen_simps prod.case andthen_Inr_iff)
  have ok: "part_ok (wh, args)" "\<forall>j \<in> set joins. qmarks j = 0"
    using buildRootClauses_ok [OF r generator_literals(4) clean_spec_parts(1) [OF c]] by auto
  have pc: "qmarks p = 0" by (rule buildProjection_clean [OF p clean_spec_parts(2) [OF c] generator_literals(4)])
  note cols = buildSelectCols_clean [OF generator_literals(4) pc buildPathExpr_clean [OF generator_literals(4)]]
  have b: "bound_state g (length ?args) st" using binding.result [OF st seedState_bound [OF c]] ..
  let ?sel = "''SELECT '' @ buildSelectCols ''l0'' p (buildPathExpr ''l0'') False @ metaCols @
      '' FROM root_objects '' @ ''l0''"
  have sel: "qmarks ?sel = 0" by (simp only: qmarks_append generator_literals cols add_0)
  have ctes: "\<forall>c \<in> set (bs_extraCTEs st). qmarks c = 0" using b by (simp add: bound_state_def)
  have "q = \<lparr>gq_SQL = assembleUnion (rootInner g spec ''l0'' joins ?wh) ?sel (bs_extraCTEs st) (bs_subqueries st),
      gq_Args = bs_allArgs st, gq_CountSQL = countQuery ''l0'' joins wh, gq_CountArgs = args,
      gq_HasRelations = True\<rparr>"
    using assms(1) unfolding generateWithRelations_def Let_def r p cw st andthen_simps prod.case sum.inject by (rule sym)
  then show ?thesis using b
    by (simp only: well_bound_def GeneratedQuery.simps countQuery_qmarks [OF ok generator_literals(4)] bound_state_def simp_thms
        assembleUnion_qmarks [OF sel ctes] rootInner_qmarks [OF cursor_part_ok [OF ok(1) cw] ok(2) generator_literals(4)])
qed


subsection \<open>Aliases\<close>

abbreviation level_name :: "nat \<Rightarrow> string" where "level_name k \<equiv> ''l'' @ nat_str k"

text \<open>The join chain of a queued node names the levels \<open>ks\<close>, each of them older than the
  next alias to be given out.\<close>

definition chain_ok :: "nat \<Rightarrow> bfsNode \<Rightarrow> bool" where
  "chain_ok n node \<longleftrightarrow> (\<exists>ks. map al_alias (bn_ancestors node) = map level_name ks \<and> sorted_wrt (<) ks \<and>
     (\<forall>k \<in> set ks. 1 \<le> k \<and> k < n) \<and> bn_level node = length ks + 1)"

definition alias_state :: "bfsState \<Rightarrow> bool" where
  "alias_state st \<longleftrightarrow> 1 \<le> bs_levelCounter st \<and> (\<forall>node \<in> set (bs_queue st). chain_ok (bs_levelCounter st) node)"

lemma chain_ok_mono: "chain_ok n node \<Longrightarrow> n \<le> m \<Longrightarrow> chain_ok m node"
  unfolding chain_ok_def by (meson order_less_le_trans)

lemma chain_ok_child:
  assumes "chain_ok n node" "1 \<le> n" "c \<in> set (childNodes node (bn_ancestors node @ [a]))" "al_alias a = level_name n"
  shows "chain_ok (n + 1) c"
proof -
  obtain ks where ks: "map al_alias (bn_ancestors node) = map level_name ks" "sorted_wrt (<) ks"
    "\<forall>k \<in> set ks. 1 \<le> k \<and> k < n" "bn_level node = length ks + 1"
    using assms(1) by (auto simp: chain_ok_def)
  have c: "bn_ancestors c = bn_ancestors node @ [a]" "bn_level c = bn_level node + 1"
    using assms(3) by (auto simp: childNodes_def)
  have "sorted_wrt (<) (ks @ [n])" using ks(2,3) by (simp add: sorted_wrt_append)
  moreover have "\<forall>k \<in> set (ks @ [n]). 1 \<le> k \<and> k < n + 1" using ks(3) assms(2) by force
  moreover have "map al_alias (bn_ancestors c) = map level_name (ks @ [n])" using ks(1) assms(4) by (simp add: c)
  moreover have "bn_level c = length (ks @ [n]) + 1" using ks(4) by (simp add: c)
  ultimately show ?thesis unfolding chain_ok_def by blast
qed

lemma visitPlain_step:
  "visitPlain g root path node st = Inr st' \<Longrightarrow>
     bs_levelCounter st' = bs_levelCounter st + 1 \<and> length (bs_subqueries st') = length (bs_subqueries st) + 1 \<and>
     (\<exists>j. bs_queue st' = bs_queue st @
       childNodes node (bn_ancestors node @ [\<lparr>al_alias = level_name (bs_levelCounter st), al_join = j\<rparr>]))"
  by (auto simp only: visitPlain_def Let_def level_alias andthen_Inr_iff sum.inject split: prod.splits) auto

lemma length_subRelations: "subRelations g cte lvl n rs = Inr subs \<Longrightarrow> length subs \<le> length rs"
proof (induction rs arbitrary: subs)
  case (Cons r rs)
  then obtain s ss where s: "subRelation g cte lvl n r = Inr s" "subRelations g cte lvl n rs = Inr ss"
    "subs = s @ ss" by (auto simp: andthen_Inr_iff)
  then have "length s \<le> 1"
    by (auto simp only: subRelation_def Let_def andthen_Inr_iff sum.inject list.size split: if_splits prod.splits)
  with Cons.IH [OF s(2)] s(3) show ?case by simp
qed simp

lemma visitTransitive_step:
  assumes "visitTransitive g spec root path node st = Inr st'"
  shows "bs_levelCounter st' = bs_levelCounter st + 1 \<and> bs_queue st' = bs_queue st \<and>
     length (bs_subqueries st') \<le> length (bs_subqueries st) + node_blocks node"
proof -
  from assms obtain subs where s: "subRelations g (cteNameOf (bn_relationName node) (bs_levelCounter st))
      (bn_level node) (bs_levelCounter st) (relationsOf (rs_Objects (bn_relationSpec node))) = Inr subs"
    and l: "length (bs_subqueries st') = length (bs_subqueries st) + 1 + length subs"
    by (auto simp: visitTransitive_def Let_def andthen_Inr_iff)
  have "length (relationsOf (rs_Objects (bn_relationSpec node))) \<le> countRelationBlocks_rel (bn_relationSpec node)"
    unfolding countRelationBlocks_rel_objects [of "bn_relationSpec node"] countRelationBlocks_relationsOf
    by (simp add: sum_list_Suc)
  with length_subRelations [OF s] l assms show ?thesis
    by (auto simp: node_blocks_def visitTransitive_def Let_def andthen_Inr_iff)
qed

lemma bfsStep_cases:
  assumes "bfsStep g spec root path node st = Inr st'"
  obtains "st' = st" | "visitTransitive g spec root path node st = Inr st'" | "visitPlain g root path node st = Inr st'"
  using assms unfolding bfsStep_def by (metis sum.inject(2))

lemma bfsStep_alias:
  assumes "alias_state st" "bs_queue st = node # queue"
    and "bfsStep g spec root path node (st\<lparr>bs_queue := queue\<rparr>) = Inr st'"
  shows "alias_state st'"
proof -
  let ?st = "st\<lparr>bs_queue := queue\<rparr>"
  have a: "alias_state ?st" "chain_ok (bs_levelCounter st) node" "1 \<le> bs_levelCounter st"
    using assms(1,2) by (simp_all add: alias_state_def)
  consider "st' = ?st" | "visitTransitive g spec root path node ?st = Inr st'" | "visitPlain g root path node ?st = Inr st'"
    using assms(3) by (rule bfsStep_cases)
  then show ?thesis
  proof cases
    case 1
    then show ?thesis using a(1) by simp
  next
    case 2
    from visitTransitive_step [OF this] a(1) show ?thesis
      by (auto simp: alias_state_def intro: chain_ok_mono)
  next
    case 3
    let ?n = "bs_levelCounter st"
    from visitPlain_step [OF 3] obtain j where n: "bs_levelCounter st' = ?n + 1" and
      q: "bs_queue st' = queue @ childNodes node (bn_ancestors node @ [\<lparr>al_alias = level_name ?n, al_join = j\<rparr>])"
      by auto
    have "chain_ok (?n + 1) c" if "c \<in> set queue" for c
      using that a(1) by (auto simp: alias_state_def intro: chain_ok_mono)
    with chain_ok_child [OF a(2,3)] show ?thesis unfolding alias_state_def n q by auto
  qed
qed

interpretation aliasing: bfs_invariant g spec root path alias_state for g spec root path
  using bfsStep_alias by unfold_locales blast

text \<open>The number of subqueries.\<close>

definition blocks_state :: "nat \<Rightarrow> bfsState \<Rightarrow> bool" where
  "blocks_state n st \<longleftrightarrow> length (bs_subqueries st) + queue_blocks st \<le> n"

lemma bfsStep_blocks_state:
  assumes "blocks_state n st" "bs_queue st = node # queue"
    and "bfsStep g spec root path node (st\<lparr>bs_queue := queue\<rparr>) = Inr st'"
  shows "blocks_state n st'"
  using assms(3)
proof (cases rule: bfsStep_cases)
  case 1
  then show ?thesis using assms(1,2) by (simp add: blocks_state_def queue_blocks_def)
next
  case 2
  from visitTransitive_step [OF this] assms(1,2) show ?thesis
    by (simp add: blocks_state_def queue_blocks_def)
next
  case 3
  from visitPlain_step [OF this] assms(1,2) show ?thesis
    by (auto simp: blocks_state_def queue_blocks_def childNodes_blocks node_blocks_def)
qed

interpretation blocks: bfs_invariant g spec root path "blocks_state n" for g spec root path n
  using bfsStep_blocks_state by unfold_locales blast


subsection \<open>Queries that are generated\<close>

text \<open>A loop whose invariant also lets every round succeed returns a result.\<close>

locale bfs_progress = bfs_invariant +
  assumes progress: "Inv st \<Longrightarrow> bs_queue st = node # queue \<Longrightarrow>
    \<exists>st'. bfsStep g spec rootAlias rootPath node (st\<lparr>bs_queue := queue\<rparr>) = Inr st'"
begin

lemma returns: "Inv st \<Longrightarrow> \<exists>st'. bfs g spec rootAlias rootPath st = Inr st'"
proof (induction "queue_blocks st" arbitrary: st rule: less_induct)
  case less
  show ?case
  proof (cases "bs_queue st")
    case Nil
    then show ?thesis by (simp add: bfs.simps [of _ _ _ _ st])
  next
    case (Cons node queue)
    then obtain st1 where s: "bfsStep g spec rootAlias rootPath node (st\<lparr>bs_queue := queue\<rparr>) = Inr st1"
      using progress less.prems by blast
    then have "queue_blocks st1 < queue_blocks st"
      using bfsStep_blocks [OF s] Cons by (simp add: queue_blocks_def)
    with less.hyps preserved [OF less.prems Cons s] obtain st' where "bfs g spec rootAlias rootPath st1 = Inr st'"
      by blast
    then show ?thesis by (simp add: bfs.simps [of _ _ _ _ st] Cons s)
  qed
qed

end

definition projectable :: "string option \<Rightarrow> bool" where
  "projectable raw = (case raw of None \<Rightarrow> True | Some r \<Rightarrow> r = [] \<or> UnmarshalAny r \<noteq> None)"

text \<open>Every projection is valid JSON, and every relation with a \<open>+\<close> suffix is one of the
  three that have a transitive form.\<close>

fun supported_objects :: "ObjectsSpec \<Rightarrow> bool" and supported_relation :: "RelationSpec \<Rightarrow> bool" where
  "supported_objects (ObjectsSpec i c m raw rels) \<longleftrightarrow> projectable raw \<and>
     list_all (\<lambda>p. (IsTransitive (fst p) \<longrightarrow> BaseRelation (fst p) \<in> {RelDescendants, RelOwners, RelLinked})
       \<and> supported_relation (snd p)) rels"
| "supported_relation (RelationSpec l fs os) \<longleftrightarrow> (case os of None \<Rightarrow> True | Some s \<Rightarrow> supported_objects s)"

abbreviation supported_name :: "string \<Rightarrow> bool" where
  "supported_name n \<equiv> IsTransitive n \<longrightarrow> BaseRelation n \<in> {RelDescendants, RelOwners, RelLinked}"

definition supported_state :: "bfsState \<Rightarrow> bool" where
  "supported_state st \<longleftrightarrow> (\<forall>node \<in> set (bs_queue st).
     supported_name (bn_relationName node) \<and> supported_relation (bn_relationSpec node))"

lemma supported_parts:
  assumes "case os of None \<Rightarrow> True | Some s \<Rightarrow> supported_objects s"
  shows "\<exists>e. optProjection os d al = Inr e"
    "p \<in> set (relationsOf os) \<Longrightarrow> supported_name (fst p) \<and> supported_relation (snd p)"
proof -
  show "\<exists>e. optProjection os d al = Inr e"
    using assms by (cases os; cases "the os")
      (auto simp: optProjection_def projectable_def BuildProjectionSQL_def split: option.splits)
  show "p \<in> set (relationsOf os) \<Longrightarrow> supported_name (fst p) \<and> supported_relation (snd p)"
    using assms by (cases os; cases "the os") (auto simp: relationsOf_def list_all_iff)
qed

lemma supported_relation_objects:
  "supported_relation r \<longleftrightarrow> (case rs_Objects r of None \<Rightarrow> True | Some s \<Rightarrow> supported_objects s)"
  by (cases r) simp

lemma subRelation_returns: "supported_relation (snd r) \<Longrightarrow> \<exists>s. subRelation g cte lvl n r = Inr s"
  using supported_parts(1) [of "rs_Objects (snd r)"]
  by (auto simp: subRelation_def Let_def buildProjection_eq supported_relation_objects andthen_def
      split: prod.split sum.split) (metis sum.distinct(1))

lemma subRelations_returns:
  "\<forall>r \<in> set rs. supported_relation (snd r) \<Longrightarrow> \<exists>s. subRelations g cte lvl n rs = Inr s"
proof (induction rs)
  case (Cons r rs)
  then obtain s ss where "subRelation g cte lvl n r = Inr s" "subRelations g cte lvl n rs = Inr ss"
    using subRelation_returns by fastforce
  then show ?case by simp
qed simp

lemma buildTransitiveCTE_returns:
  assumes "rel \<in> {RelDescendants, RelOwners, RelLinked}"
    and "case os of None \<Rightarrow> True | Some s \<Rightarrow> supported_objects s"
  shows "\<exists>r. buildTransitiveCTE rel cte root path parent as rspec os d dialect lvl name = Inr r"
proof -
  obtain e where e: "\<And>al. optProjection os dialect al = Inr (e al)"
    using supported_parts(1) [OF assms(2)] by metis
  obtain c where "\<And>x y. transitiveJoinCond rel x y dialect = Inr (c x y)"
    using assms(1) by (cases "rel = RelDescendants"; cases "rel = RelOwners") (auto simp: transitiveJoinCond_def)
  then show ?thesis unfolding buildTransitiveCTE_def Let_def e by simp
qed

lemma bfsStep_progress:
  assumes "supported_name (bn_relationName node)" and s: "supported_relation (bn_relationSpec node)"
  shows "\<exists>st'. bfsStep g spec root path node st = Inr st'"
proof -
  have os: "case rs_Objects (bn_relationSpec node) of None \<Rightarrow> True | Some s \<Rightarrow> supported_objects s"
    using s by (simp only: supported_relation_objects)
  have "\<exists>st'. visitPlain g root path node st = Inr st'"
    using supported_parts(1) [OF os]
    by (auto simp: visitPlain_def Let_def buildProjection_eq andthen_def split: prod.split sum.split)
      (metis sum.distinct(1))
  moreover have "\<exists>st'. visitTransitive g spec root path node st = Inr st'" if "IsTransitive (bn_relationName node)"
  proof -
    from that assms(1) have "BaseRelation (bn_relationName node) \<in> {RelDescendants, RelOwners, RelLinked}" by simp
    note c = buildTransitiveCTE_returns [OF this os]
    have "\<forall>r \<in> set (relationsOf (rs_Objects (bn_relationSpec node))). supported_relation (snd r)"
      using supported_parts(2) [OF os] by blast
    note r = subRelations_returns [OF this]
    show ?thesis unfolding visitTransitive_def Let_def andthen_Inr_iff using c r by blast
  qed
  ultimately show ?thesis by (auto simp: bfsStep_def)
qed

lemma bfsStep_supported:
  assumes "supported_state st" "bs_queue st = node # queue"
    and "bfsStep g spec root path node (st\<lparr>bs_queue := queue\<rparr>) = Inr st'"
  shows "supported_state st'"
proof -
  have "supported_relation (bn_relationSpec node)" using assms(1,2) by (simp add: supported_state_def)
  then have "supported_name (bn_relationName c) \<and> supported_relation (bn_relationSpec c)"
    if "c \<in> set (childNodes node as)" for c as
    using that supported_parts(2) by (fastforce simp: childNodes_def supported_relation_objects)
  moreover have "\<exists>as. set (bs_queue st') \<subseteq> set queue \<union> set (childNodes node as)"
    using assms(3) by (cases rule: bfsStep_cases) (auto dest!: visitTransitive_step visitPlain_step)
  ultimately show ?thesis using assms(1,2) unfolding supported_state_def by fastforce
qed

interpretation support: bfs_progress g spec root path supported_state for g spec root path
proof unfold_locales
  show "supported_state st'" if "supported_state st" "bs_queue st = node # queue"
    "bfsStep g spec root path node (st\<lparr>bs_queue := queue\<rparr>) = Inr st'" for st node queue st'
    using that by (rule bfsStep_supported)
  show "\<exists>st'. bfsStep g spec root path node (st\<lparr>bs_queue := queue\<rparr>) = Inr st'"
    if "supported_state st" "bs_queue st = node # queue" for st node queue
    by (rule bfsStep_progress) (use that in \<open>simp_all add: supported_state_def\<close>)
qed

lemma seedState_supported:
  "case qs_Objects spec of None \<Rightarrow> True | Some s \<Rightarrow> supported_objects s \<Longrightarrow> supported_state (seedState spec args)"
  using supported_parts(2) by (auto simp: supported_state_def seedState_def seedQueue_def) blast

lemma Generate_returns:
  assumes "case qs_Objects spec of None \<Rightarrow> True | Some s \<Rightarrow> supported_objects s"
  shows "\<exists>q. Generate g spec = Inr q"
proof -
  obtain e where e: "\<And>al. buildProjection g (qs_Objects spec) al = Inr (e al)"
    using supported_parts(1) [OF assms] unfolding buildProjection_eq by metis
  have "\<forall>al. \<exists>w. buildRootClauses g spec al = Inr w" using buildRootClauses_Inr by blast
  then obtain w where w: "\<And>al. buildRootClauses g spec al = Inr (w al)" by metis
  obtain b where "\<And>args. bfs g spec ''l0'' (buildPathExpr ''l0'') (seedState spec args) = Inr (b args)"
    using support.returns [OF seedState_supported [OF assms]] by metis
  then show ?thesis
    unfolding Generate_def generateWithRelations_def generateRootOnly_def Let_def e w
    by (simp split: prod.split)
qed


lemma andthen_flag:
  "(\<And>x y. f x = Inr y \<Longrightarrow> P y) \<Longrightarrow> andthen r f = Inr q \<Longrightarrow> P (q :: GeneratedQuery)"
  by (cases r) auto

lemma Generate_flag:
  assumes "Generate g spec = Inr q"
  shows "gq_HasRelations q = (relationsOf (qs_Objects spec) \<noteq> [])"
proof -
  have "gq_HasRelations q = False" if "generateRootOnly g spec = Inr q"
    using that unfolding generateRootOnly_def Let_def
    by (elim andthen_flag [rotated]) (auto simp only: GeneratedQuery.simps sum.inject split: prod.splits elim!: andthen_flag [rotated])
  moreover have "gq_HasRelations q = True" if "generateWithRelations g spec = Inr q"
    using that unfolding generateWithRelations_def Let_def
    by (elim andthen_flag [rotated]) (auto simp only: GeneratedQuery.simps sum.inject split: prod.splits elim!: andthen_flag [rotated])
  ultimately show ?thesis using assms by (simp add: Generate_def split: if_splits)
qed

lemma Generate_count:
  assumes "Generate g spec = Inr q"
    and al: "al = (if relationsOf (qs_Objects spec) \<noteq> [] then ''l0'' else ''obj'')"
    and r: "buildRootClauses g spec al = Inr (wh, args, joins)"
  shows "gq_CountSQL q = countQuery al joins wh \<and> gq_CountArgs q = args"
proof (cases "relationsOf (qs_Objects spec) \<noteq> []")
  case True
  with assms have "generateWithRelations g spec = Inr q" and "al = ''l0''" by (simp_all add: Generate_def)
  with r show ?thesis unfolding generateWithRelations_def Let_def
    by (simp only: andthen_simps prod.case)
      (auto simp only: GeneratedQuery.simps sum.inject split: prod.splits elim!: andthen_flag [rotated])
next
  case False
  with assms have "generateRootOnly g spec = Inr q" and "al = ''obj''" by (simp_all add: Generate_def)
  with r show ?thesis unfolding generateRootOnly_def Let_def
    by (simp only: andthen_simps prod.case)
      (auto simp only: GeneratedQuery.simps sum.inject split: prod.splits elim!: andthen_flag [rotated])
qed

lemma seedState_alias: "alias_state (seedState spec args)"
  by (auto simp: alias_state_def seedState_def seedQueue_def chain_ok_def)

lemma seedState_blocks: "blocks_state (countRelationBlocks (qs_Objects spec)) (seedState spec args)"
  by (simp add: blocks_state_def seedState_def queue_blocks_def seedQueue_blocks)

text \<open>A spec for the witnesses: the pods of every deployment, and everything the
  deployment owns, directly or not.\<close>

definition example_spec :: QuerySpec where
  "example_spec = zero_QuerySpec\<lparr>
     qs_Filter := Some \<lparr>qf_Objects = [zero_ObjectFilter\<lparr>of_GroupKind := Some \<lparr>gk_APIGroup = ''apps'',
       gk_Kind = ''Deployment''\<rparr>, of_Labels := [(''app'', ''web'')]\<rparr>]\<rparr>,
     qs_Limit := 100, qs_MaxDepth := 10,
     qs_Objects := Some (ObjectsSpec True True False None
       [(''selects'', RelationSpec 5 [zero_ObjectFilter\<lparr>of_Namespace := ''prod''\<rparr>]
           (Some (ObjectsSpec True False False None [(''events'', RelationSpec 0 [] None)]))),
        (''descendants+'', RelationSpec 0 [zero_ObjectFilter\<lparr>of_Name := ''web-1''\<rparr>] None)])\<rparr>"

lemma example_clean: "clean_spec (NewGenerator ''sqlite'') example_spec"
  by (simp add: clean_spec_def clean_root_def clean_filter_def example_spec_def zero_QuerySpec_def
      zero_ObjectFilter_def)

lemma example_supported: "case qs_Objects example_spec of None \<Rightarrow> True | Some s \<Rightarrow> supported_objects s"
  by code_simp

subsection \<open>Properties\<close>

text \<open>C1. Statements and arguments fit together for clean specs: if no relation name, no label key of
  a cluster or object filter and no projected field name contains a question mark, and no test for
  the existence of a label is made on PostgreSQL, then both statements that \<open>Generate\<close>
  returns, the query and the count query, contain exactly as many placeholders as arguments, for
  every cursor, nesting of relations and dialect. A spec that is not clean may break this:
  see \<open>postgres_exists_unbound\<close>.\<close>

theorem Generate_placeholders:
  assumes "Generate g spec = Inr q" and "clean_spec g spec"
  shows "qmarks (gq_SQL q) = length (gq_Args q) \<and> qmarks (gq_CountSQL q) = length (gq_CountArgs q)"
  using assms generateRootOnly_bound generateWithRelations_bound
  by (auto simp: Generate_def well_bound_def split: if_splits)

theorem Generate_placeholders_witness:
  "\<exists>q. Generate (NewGenerator ''sqlite'') example_spec = Inr q \<and>
     qmarks (gq_SQL q) = length (gq_Args q) \<and> qmarks (gq_CountSQL q) = length (gq_CountArgs q)"
  using Generate_returns [OF example_supported, of "NewGenerator ''sqlite''"]
    Generate_placeholders [OF _ example_clean] by blast

text \<open>C7. The traversal always ends, and SQL is generated for every spec whose projections
  are valid JSON and whose transitive relations are \<open>descendants+\<close>, \<open>owners+\<close> or
  \<open>linked+\<close>, with the flag that sends it to tree assembly exactly when it has
  relations.\<close>

theorem Generate_succeeds:
  assumes "case qs_Objects spec of None \<Rightarrow> True | Some s \<Rightarrow> supported_objects s"
  shows "\<exists>q. Generate g spec = Inr q \<and> gq_HasRelations q = (relationsOf (qs_Objects spec) \<noteq> [])"
proof -
  from Generate_returns [OF assms] obtain q where q: "Generate g spec = Inr q" by blast
  then have "gq_HasRelations q = (relationsOf (qs_Objects spec) \<noteq> [])"
    by (rule Generate_flag)
  with q show ?thesis by blast
qed

theorem Generate_succeeds_witness:
  "\<exists>q. Generate (NewGenerator ''postgres'') example_spec = Inr q \<and> gq_HasRelations q"
  using Generate_succeeds [OF example_supported, of "NewGenerator ''postgres''"]
  by (auto simp: relationsOf_def example_spec_def)

text \<open>C32. The aliases of the levels never clash: whenever a relation is expanded, the alias \<open>l0\<close> of
  the root, the numbered aliases of the objects tables in the join chain above it and the one it
  is given are pairwise different, and its level is one more than the length of that chain. The
  alias \<open>ref\<close>, which every linked relation gives to its list of links, is not one of these: it occurs
  twice when a linked relation is nested below another.\<close>

theorem relation_aliases_distinct:
  assumes "bfs_reachable g spec ''l0'' rootPath (seedState spec args) st" and "node \<in> set (bs_queue st)"
  shows "distinct (''l0'' # map al_alias (bn_ancestors node) @ [''l'' @ nat_str (bs_levelCounter st)])
    \<and> bn_level node = length (bn_ancestors node) + 1"
proof -
  let ?n = "bs_levelCounter st"
  have "alias_state st" using aliasing.reachable [OF assms(1) seedState_alias] .
  then obtain ks where ks: "map al_alias (bn_ancestors node) = map level_name ks" "sorted_wrt (<) ks"
    "\<forall>k \<in> set ks. 1 \<le> k \<and> k < ?n" "bn_level node = length ks + 1" "1 \<le> ?n"
    using assms(2) by (fastforce simp: alias_state_def chain_ok_def)
  have l0: "''l0'' = level_name 0" by code_simp
  have "distinct (map level_name (0 # ks @ [?n]))"
    using ks(2,3,5) by (auto simp: distinct_map inj_on_def strict_sorted_iff)
  moreover have "length ks = length (bn_ancestors node)" using ks(1) by (metis length_map)
  ultimately show ?thesis using ks(1,4) by (simp add: l0 del: append_Cons)
qed

theorem relation_aliases_distinct_witness:
  "\<exists>node. node \<in> set (bs_queue (seedState example_spec [])) \<and>
     distinct (''l0'' # map al_alias (bn_ancestors node) @
       [''l'' @ nat_str (bs_levelCounter (seedState example_spec []))])"
proof -
  have "bs_queue (seedState example_spec []) \<noteq> []" by code_simp
  then obtain node where "node \<in> set (bs_queue (seedState example_spec []))" by (meson last_in_set)
  with relation_aliases_distinct [OF bfs_reachable.start this] show ?thesis by blast
qed

text \<open>C33. A validated spec produces at most ten relation subqueries: the traversal emits no
  more subqueries than the spec has relation blocks, also where the relations below a
  transitive relation are emitted together with it.\<close>

theorem relation_subqueries_bound:
  assumes "Validate s = Inr spec" and "bfs g spec rootAlias rootPath (seedState spec args) = Inr st"
  shows "length (bs_subqueries st) \<le> 10"
proof -
  have "blocks_state (countRelationBlocks (qs_Objects spec)) st"
    using blocks.result [OF assms(2) seedState_blocks] ..
  moreover have "countRelationBlocks (qs_Objects spec) \<le> 10"
    using assms(1) by (auto simp: Validate_Inr_iff valid_spec_def)
  ultimately show ?thesis by (simp add: blocks_state_def)
qed

theorem relation_subqueries_bound_witness:
  "\<exists>st. bfs (NewGenerator ''sqlite'') example_spec ''l0'' (buildPathExpr ''l0'') (seedState example_spec []) = Inr st
     \<and> length (bs_subqueries st) \<le> 10"
proof -
  have "Validate example_spec = Inr example_spec" by code_simp
  moreover obtain st where "bfs (NewGenerator ''sqlite'') example_spec ''l0'' (buildPathExpr ''l0'')
      (seedState example_spec []) = Inr st"
    using support.returns [OF seedState_supported [OF example_supported]] by blast
  ultimately show ?thesis using relation_subqueries_bound by blast
qed


text \<open>The count is the count of all matches: the count query does not depend on the page,
  the order or the limit, so every page of a result reports the same total.\<close>

theorem count_ignores_paging:
  assumes "Generate g spec = Inr q"
    and "Generate g (spec\<lparr>qs_Page := page, qs_Order := order, qs_Limit := limit\<rparr>) = Inr q'"
  shows "gq_CountSQL q' = gq_CountSQL q \<and> gq_CountArgs q' = gq_CountArgs q"
proof -
  let ?spec = "spec\<lparr>qs_Page := page, qs_Order := order, qs_Limit := limit\<rparr>"
  let ?al = "if relationsOf (qs_Objects spec) \<noteq> [] then ''l0'' else ''obj''"
  obtain wh args joins where r: "buildRootClauses g spec ?al = Inr (wh, args, joins)"
    using buildRootClauses_Inr by blast
  then have "buildRootClauses g ?spec ?al = Inr (wh, args, joins)" by (simp add: buildRootClauses_def)
  from Generate_count [OF assms(2) _ this] Generate_count [OF assms(1) refl r] show ?thesis by simp
qed

theorem count_ignores_paging_witness:
  "\<exists>q q'. Generate (NewGenerator ''sqlite'') example_spec = Inr q \<and>
     Generate (NewGenerator ''sqlite'') (example_spec\<lparr>qs_Page := Some \<lparr>pg_First = 20, pg_Cursor = []\<rparr>,
       qs_Order := [], qs_Limit := 20\<rparr>) = Inr q' \<and> gq_CountSQL q' = gq_CountSQL q \<and> gq_CountArgs q' = gq_CountArgs q"
proof -
  let ?s = "example_spec\<lparr>qs_Page := Some \<lparr>pg_First = 20, pg_Cursor = []\<rparr>, qs_Order := [], qs_Limit := 20\<rparr>"
  obtain q where q: "Generate (NewGenerator ''sqlite'') example_spec = Inr q"
    using Generate_returns [OF example_supported] by blast
  have "case qs_Objects ?s of None \<Rightarrow> True | Some s \<Rightarrow> supported_objects s" using example_supported by simp
  then obtain q' where q': "Generate (NewGenerator ''sqlite'') ?s = Inr q'" using Generate_returns by blast
  from count_ignores_paging [OF q q'] q q' show ?thesis by blast
qed

text \<open>A cursor on a query with relations names an alias that does not exist: the
  ORDER BY columns are renamed to the root alias \<open>l0\<close>, the columns of the cursor clause
  are not, so the inner query over \<open>objects l0\<close> compares columns of \<open>obj\<close>.\<close>

theorem relations_cursor_alias:
  "let spec = zero_QuerySpec\<lparr>qs_Limit := 10, qs_Page := Some \<lparr>pg_First = 0,
         pg_Cursor = BuildCursorToken [(''name'', ''a''), (''namespace'', ''b'')]\<rparr>\<rparr>
   in rootInner (NewGenerator ''sqlite'') spec ''l0'' [] [fst (buildCursorFilter spec)] =
      ''SELECT * FROM objects l0 WHERE (obj.name, obj.namespace) > (?, ?) ORDER BY l0.name ASC, l0.namespace ASC LIMIT 10''"
  by code_simp

end
