(* ===== verification/Result_Tree.thy ===== *)
theory Result_Tree
  imports Sql_Filters "HOL-Library.Multiset"
begin

text \<open>
  \<open>internal/engine/tree.go\<close>: scanning the rows of a UNION ALL query and rebuilding the
  tree of results from their paths. A \<open>*treeNode\<close> is an index into an arena of nodes: the
  code allocates one node per row, so node \<open>i\<close> is the node of row \<open>i\<close>, and appending to
  \<open>parent.children\<close> updates the arena at the parent's index. \<open>nodeToResult\<close> follows
  those pointers, with fuel; the number of nodes is enough for every root
  (\<open>AssembleTree_total\<close>).
\<close>

record flatRow =
  fr_ID :: string
  fr_UID :: string
  fr_Cluster :: string
  fr_APIGroup :: string
  fr_APIVersion :: string
  fr_Kind :: string
  fr_Resource :: string
  fr_Namespace :: string
  fr_Name :: string
  fr_Labels :: "string option"
  fr_Annotations :: "string option"
  fr_OwnerRefs :: "string option"
  fr_Conditions :: "string option"
  fr_CreationTS :: "gotime option"
  fr_ResourceVersion :: string
  fr_ProjectedObject :: "string option"
  fr_Path :: string
  fr_Level :: int
  fr_RelationName :: string

subsection \<open>Scanning\<close>

text \<open>A \<open>*sql.Rows\<close>: what \<open>Scan\<close> yields for each row that \<open>Next\<close> reaches, and what
  \<open>Err\<close> reports afterwards, when the rows were exhausted (\<open>False\<close>) and when the loop
  stopped early (\<open>True\<close>).\<close>

record sql_rows =
  rows_scans :: "flatRow result list"
  rows_err :: "bool \<Rightarrow> kerror option"

fun scanLoop :: "nat \<Rightarrow> flatRow result list \<Rightarrow> flatRow list \<Rightarrow> (flatRow list \<times> bool) result" where
  "scanLoop maxRows [] result = Inr (result, False)"
| "scanLoop maxRows (s # ss) result =
     (if maxRows > 0 \<and> length result \<ge> maxRows then Inr (result, True)
      else case s of
        Inl e \<Rightarrow> Inl (Wrapped ''scanning flat row'' e)
      | Inr r \<Rightarrow> scanLoop maxRows ss (result @ [r]))"

definition scanFlatRows :: "sql_rows \<Rightarrow> nat \<Rightarrow> (flatRow list \<times> bool) result" where
  "scanFlatRows rows maxRows =
     andthen (scanLoop maxRows (rows_scans rows) []) (\<lambda>(result, truncated).
       case rows_err rows truncated of Some e \<Rightarrow> Inl e | None \<Rightarrow> Inr (result, truncated))"

subsection \<open>Building the arena\<close>

record treeNode =
  tn_row :: flatRow
  tn_children :: "nat list gomap"

record treeState =
  ts_nodes :: "treeNode list"
  ts_nodesByPath :: "nat gomap"
  ts_rootNodes :: "nat list"

definition parentPathOf :: "string \<Rightarrow> string" where
  "parentPathOf path =
     (let parts = Split path (CHR ''.'') in
      if length parts \<le> 3 then []
      else Join (take (length parts - 2) parts) ''.'')"

text \<open>\<open>parent.children[rel] = append(parent.children[rel], node)\<close>\<close>

definition appendChild :: "string \<Rightarrow> nat \<Rightarrow> treeNode \<Rightarrow> treeNode" where
  "appendChild rel i node =
     node\<lparr>tn_children := AList.update rel
       ((case map_of (tn_children node) rel of None \<Rightarrow> [] | Some cs \<Rightarrow> cs) @ [i]) (tn_children node)\<rparr>"

definition addRow :: "treeState \<Rightarrow> flatRow \<Rightarrow> treeState" where
  "addRow st row =
     (let i = length (ts_nodes st);
          nodes = ts_nodes st @ [\<lparr>tn_row = row, tn_children = []\<rparr>];
          byPath = AList.update (fr_Path row) i (ts_nodesByPath st)
      in if fr_Level row = 0 then
           \<lparr>ts_nodes = nodes, ts_nodesByPath = byPath, ts_rootNodes = ts_rootNodes st @ [i]\<rparr>
         else case map_of byPath (parentPathOf (fr_Path row)) of
           Some p \<Rightarrow> \<lparr>ts_nodes = nodes[p := appendChild (fr_RelationName row) i (nodes ! p)],
                      ts_nodesByPath = byPath, ts_rootNodes = ts_rootNodes st\<rparr>
         | None \<Rightarrow> \<lparr>ts_nodes = nodes, ts_nodesByPath = byPath, ts_rootNodes = ts_rootNodes st\<rparr>)"

definition buildArena :: "flatRow list \<Rightarrow> treeState" where
  "buildArena rows = foldl addRow \<lparr>ts_nodes = [], ts_nodesByPath = [], ts_rootNodes = []\<rparr> rows"

subsection \<open>Converting nodes\<close>

definition objectsSpecForLevel :: "QuerySpec \<Rightarrow> int \<Rightarrow> string \<Rightarrow> ObjectsSpec option" where
  "objectsSpecForLevel spec level relationName =
     (if level = 0 then qs_Objects spec else qs_Objects spec)"

definition findRelationObjectsSpec :: "ObjectsSpec option \<Rightarrow> string \<Rightarrow> ObjectsSpec option" where
  "findRelationObjectsSpec parentSpec relationName =
     (case parentSpec of
        None \<Rightarrow> None
      | Some s \<Rightarrow> (case map_of (os_Relations s) relationName of None \<Rightarrow> None | Some rel \<Rightarrow> rs_Objects rel))"

text \<open>The fields of a result that its own row determines.\<close>

definition wants :: "(ObjectsSpec \<Rightarrow> bool) \<Rightarrow> ObjectsSpec option \<Rightarrow> bool" where
  "wants f objSpec = (case objSpec of None \<Rightarrow> False | Some s \<Rightarrow> f s)"

definition rowObject :: "flatRow \<Rightarrow> string option" where
  "rowObject row =
     (case fr_ProjectedObject row of
        Some s \<Rightarrow> if s \<noteq> [] \<and> s \<noteq> ''null'' then Some s else None
      | None \<Rightarrow> None)"

definition rowResult :: "flatRow \<Rightarrow> ObjectsSpec option \<Rightarrow> (string \<times> ObjectResult list) list \<Rightarrow> ObjectResult" where
  "rowResult row objSpec relations =
     ObjectResult
       (if wants os_ID objSpec then fr_ID row else [])
       (if wants os_Cluster objSpec then fr_Cluster row else [])
       (if wants os_MutablePath objSpec
        then MutablePath (fr_APIGroup row) (fr_APIVersion row) (fr_Resource row) (fr_Namespace row) (fr_Name row)
        else [])
       (rowObject row) relations"

fun nodeToResult :: "treeNode list \<Rightarrow> nat \<Rightarrow> nat \<Rightarrow> ObjectsSpec option \<Rightarrow> ObjectResult option" where
  "nodeToResult nodes 0 i objSpec = None"
| "nodeToResult nodes (Suc n) i objSpec =
     map_option (rowResult (tn_row (nodes ! i)) objSpec)
       (those (map (\<lambda>(relName, children).
          map_option (Pair relName)
            (those (map (\<lambda>c. nodeToResult nodes n c (findRelationObjectsSpec objSpec relName)) children)))
          (tn_children (nodes ! i))))"

definition AssembleTree :: "flatRow list \<Rightarrow> QuerySpec \<Rightarrow> ObjectResult list option" where
  "AssembleTree flatRows spec =
     (if flatRows = [] then Some []
      else let st = buildArena flatRows in
        those (map (\<lambda>i. nodeToResult (ts_nodes st) (length flatRows) i (objectsSpecForLevel spec 0 []))
          (ts_rootNodes st)))"

subsection \<open>The cursor row\<close>

text \<open>\<open>Time.Format(time.RFC3339)\<close> of a time in UTC; a date is counted in days from
  1970-01-01 and the year starts in March.\<close>

definition pad :: "nat \<Rightarrow> int \<Rightarrow> string" where
  "pad w i = (let s = nat_str (nat i) in replicate (w - length s) (CHR ''0'') @ s)"

definition civil :: "int \<Rightarrow> int \<times> int \<times> int" where
  "civil days =
     (let z = days + 719468; era = z div 146097; doe = z mod 146097;
          yoe = (doe - doe div 1460 + doe div 36524 - doe div 146096) div 365;
          doy = doe - (365 * yoe + yoe div 4 - yoe div 100);
          mp = (5 * doy + 2) div 153;
          d = doy - (153 * mp + 2) div 5 + 1;
          m = (if mp < 10 then mp + 3 else mp - 9)
      in (yoe + era * 400 + (if m \<le> 2 then 1 else 0), m, d))"

definition RFC3339 :: "gotime \<Rightarrow> string" where
  "RFC3339 t =
     (let secs = t div 1000000000; tod = secs mod 86400; (y, m, d) = civil (secs div 86400)
      in pad 4 y @ ''-'' @ pad 2 m @ ''-'' @ pad 2 d @ ''T'' @ pad 2 (tod div 3600) @ '':'' @
         pad 2 (tod div 60 mod 60) @ '':'' @ pad 2 (tod mod 60) @ ''Z'')"

definition cursorRow :: "flatRow \<Rightarrow> string gomap" where
  "cursorRow r =
     [(''name'', fr_Name r), (''namespace'', fr_Namespace r), (''kind'', fr_Kind r),
      (''apiGroup'', fr_APIGroup r), (''cluster'', fr_Cluster r)] @
     (case fr_CreationTS r of None \<Rightarrow> [] | Some t \<Rightarrow> [(''creationTimestamp'', RFC3339 t)])"

definition ExtractLastRowForCursor :: "flatRow list \<Rightarrow> string gomap option" where
  "ExtractLastRowForCursor flatRows =
     map_option cursorRow (find (\<lambda>r. fr_Level r = 0) (rev flatRows))"


subsection \<open>The parent of a row, read off the rows\<close>

text \<open>The node a path leads to, when the rows so far are \<open>rows\<close>: the last row with it.\<close>

definition path_ix :: "flatRow list \<Rightarrow> string \<Rightarrow> nat option" where
  "path_ix rows path =
     (let is = filter (\<lambda>i. fr_Path (rows ! i) = path) [0..<length rows]
      in if is = [] then None else Some (last is))"

definition parent_ix :: "flatRow list \<Rightarrow> nat \<Rightarrow> nat option" where
  "parent_ix rows j =
     (if fr_Level (rows ! j) = 0 then None
      else path_ix (take (Suc j) rows) (parentPathOf (fr_Path (rows ! j))))"

definition child_ixs :: "flatRow list \<Rightarrow> nat \<Rightarrow> nat list" where
  "child_ixs rows i = filter (\<lambda>j. parent_ix rows j = Some i) [0..<length rows]"

definition root_ixs :: "flatRow list \<Rightarrow> nat list" where
  "root_ixs rows = filter (\<lambda>j. fr_Level (rows ! j) = 0) [0..<length rows]"

lemma path_ix_snoc: "path_ix (rows @ [r]) = (path_ix rows)(fr_Path r \<mapsto> length rows)"
proof
  fix path
  have "filter (\<lambda>i. fr_Path ((rows @ [r]) ! i) = path) [0..<length rows] =
      filter (\<lambda>i. fr_Path (rows ! i) = path) [0..<length rows]"
    by (intro filter_cong refl) (auto simp: nth_append)
  then show "path_ix (rows @ [r]) path = ((path_ix rows)(fr_Path r \<mapsto> length rows)) path"
    by (simp add: path_ix_def Let_def)
qed

lemma path_ix_Some: "path_ix rows path = Some i \<Longrightarrow> i < length rows \<and> fr_Path (rows ! i) = path"
  using last_in_set [of "filter (\<lambda>i. fr_Path (rows ! i) = path) [0..<length rows]"]
  by (auto simp: path_ix_def Let_def split: if_splits)

lemma path_ix_None: "path_ix rows path = None \<longleftrightarrow> (\<forall>r \<in> set rows. fr_Path r \<noteq> path)"
  by (simp add: path_ix_def Let_def filter_empty_conv) (metis atLeastLessThan_iff in_set_conv_nth le0)

lemma parent_ix_snoc:
  "j < length rows \<Longrightarrow> parent_ix (rows @ [r]) j = parent_ix rows j"
  by (simp add: parent_ix_def nth_append)

lemma parent_ix_last:
  "parent_ix (rows @ [r]) (length rows) =
     (if fr_Level r = 0 then None else path_ix (rows @ [r]) (parentPathOf (fr_Path r)))"
  by (simp add: parent_ix_def)

lemma parent_ix_le: "parent_ix rows j = Some i \<Longrightarrow> j < length rows \<Longrightarrow>
    i \<le> j \<and> fr_Path (rows ! i) = parentPathOf (fr_Path (rows ! j))"
  by (auto simp: parent_ix_def split: if_splits dest!: path_ix_Some)

lemma child_ixs_snoc:
  "child_ixs (rows @ [r]) i = child_ixs rows i @
     (if parent_ix (rows @ [r]) (length rows) = Some i then [length rows] else [])"
proof -
  have "filter (\<lambda>j. parent_ix (rows @ [r]) j = Some i) [0..<length rows] =
      filter (\<lambda>j. parent_ix rows j = Some i) [0..<length rows]"
    by (intro filter_cong refl) (simp add: parent_ix_snoc)
  then show ?thesis by (simp add: child_ixs_def)
qed

lemma root_ixs_snoc:
  "root_ixs (rows @ [r]) = root_ixs rows @ (if fr_Level r = 0 then [length rows] else [])"
proof -
  have "filter (\<lambda>j. fr_Level ((rows @ [r]) ! j) = 0) [0..<length rows] =
      filter (\<lambda>j. fr_Level (rows ! j) = 0) [0..<length rows]"
    by (intro filter_cong refl) (simp add: nth_append)
  then show ?thesis by (simp add: root_ixs_def)
qed

subsection \<open>The arena holds that parent relation\<close>

definition kids :: "treeNode \<Rightarrow> nat multiset" where
  "kids node = mset (concat (map snd (tn_children node)))"

definition grouped :: "flatRow list \<Rightarrow> treeNode \<Rightarrow> bool" where
  "grouped rows node \<longleftrightarrow> (\<forall>(rel, cs) \<in> set (tn_children node). \<forall>c \<in> set cs. fr_RelationName (rows ! c) = rel)"

definition arena_ok :: "flatRow list \<Rightarrow> treeState \<Rightarrow> bool" where
  "arena_ok rows st \<longleftrightarrow>
     map tn_row (ts_nodes st) = rows \<and> map_of (ts_nodesByPath st) = path_ix rows \<and>
     ts_rootNodes st = root_ixs rows \<and>
     (\<forall>i < length rows. kids (ts_nodes st ! i) = mset (child_ixs rows i) \<and>
        distinct (map fst (tn_children (ts_nodes st ! i))) \<and>
        (\<forall>c \<in># kids (ts_nodes st ! i). c < length rows) \<and> grouped rows (ts_nodes st ! i))"

lemma concat_update:
  "mset (concat (map snd (AList.update k ((case map_of m k of None \<Rightarrow> [] | Some cs \<Rightarrow> cs) @ [i]) m))) =
     mset (concat (map snd m)) + {#i#}"
  by (induction m) auto

lemma kids_appendChild: "kids (appendChild rel i node) = kids node + {#i#}"
  using concat_update [of rel "tn_children node" i] by (simp add: kids_def appendChild_def)

lemma appendChild_row [simp]: "tn_row (appendChild rel i node) = tn_row node"
  by (simp add: appendChild_def)

lemma appendChild_distinct:
  "distinct (map fst (tn_children node)) \<Longrightarrow> distinct (map fst (tn_children (appendChild rel i node)))"
  by (simp add: appendChild_def distinct_update)

lemma grouped_appendChild:
  assumes "grouped rows node" "fr_RelationName (rows ! i) = rel"
  shows "grouped rows (appendChild rel i node)"
proof -
  have "(rel', cs) \<in> set (AList.update rel v m) \<Longrightarrow> (rel', cs) \<in> set m \<or> rel' = rel \<and> cs = v" for rel' cs v m
    by (induction m) (auto split: if_splits)
  then show ?thesis using assms
    unfolding grouped_def appendChild_def by (fastforce split: option.splits dest: map_of_SomeD)
qed

lemma grouped_snoc:
  "grouped rows node \<Longrightarrow> \<forall>c \<in># kids node. c < length rows \<Longrightarrow> grouped (rows @ [r]) node"
  by (fastforce simp: grouped_def kids_def nth_append)


lemma addRow_nodes:
  assumes "arena_ok rows st"
  shows "ts_nodes (addRow st row) =
     (let nodes = ts_nodes st @ [\<lparr>tn_row = row, tn_children = []\<rparr>] in
      case parent_ix (rows @ [row]) (length rows) of
        None \<Rightarrow> nodes
      | Some p \<Rightarrow> nodes[p := appendChild (fr_RelationName row) (length rows) (nodes ! p)])"
    and "map_of (ts_nodesByPath (addRow st row)) = path_ix (rows @ [row])"
    and "ts_rootNodes (addRow st row) = root_ixs (rows @ [row])"
proof -
  have l: "length (ts_nodes st) = length rows" using assms by (auto simp: arena_ok_def)
  have p: "map_of (AList.update (fr_Path row) (length rows) (ts_nodesByPath st)) = path_ix (rows @ [row])"
    using assms by (simp add: arena_ok_def path_ix_snoc update_conv')
  have r: "ts_rootNodes st = root_ixs rows" using assms by (simp add: arena_ok_def)
  show "ts_nodes (addRow st row) =
     (let nodes = ts_nodes st @ [\<lparr>tn_row = row, tn_children = []\<rparr>] in
      case parent_ix (rows @ [row]) (length rows) of
        None \<Rightarrow> nodes
      | Some p \<Rightarrow> nodes[p := appendChild (fr_RelationName row) (length rows) (nodes ! p)])"
    "map_of (ts_nodesByPath (addRow st row)) = path_ix (rows @ [row])"
    "ts_rootNodes (addRow st row) = root_ixs (rows @ [row])"
    by (simp_all add: addRow_def Let_def l p r parent_ix_last root_ixs_snoc split: option.split)
qed

lemma addRow_ok:
  assumes "arena_ok rows st"
  shows "arena_ok (rows @ [row]) (addRow st row)"
proof -
  let ?n = "length rows" and ?new = "\<lparr>tn_row = row, tn_children = []\<rparr>"
  let ?nodes = "ts_nodes st @ [?new]" and ?par = "parent_ix (rows @ [row]) (length rows)"
  have rows: "map tn_row (ts_nodes st) = rows" using assms by (simp add: arena_ok_def)
  then have l: "length (ts_nodes st) = ?n" by auto
  have old: "kids (?nodes ! i) = mset (child_ixs rows i) \<and> distinct (map fst (tn_children (?nodes ! i))) \<and>
      (\<forall>c \<in># kids (?nodes ! i). c < ?n) \<and> grouped (rows @ [row]) (?nodes ! i)" if "i < Suc ?n" for i
  proof (cases "i < ?n")
    case True
    with assms l show ?thesis by (auto simp: arena_ok_def nth_append intro: grouped_snoc)
  next
    case False
    with that have i: "i = ?n" by simp
    have "child_ixs rows ?n = []"
      using parent_ix_le by (fastforce simp: child_ixs_def filter_empty_conv)
    with l show ?thesis by (simp add: i nth_append kids_def grouped_def)
  qed
  have par: "p < Suc ?n" if "?par = Some p" for p using parent_ix_le [OF that] by simp
  show ?thesis
  proof (cases ?par)
    case None
    then show ?thesis
      using old by (auto simp: arena_ok_def addRow_nodes [OF assms] rows child_ixs_snoc less_SucI)
  next
    case (Some p)
    have "fr_RelationName ((rows @ [row]) ! ?n) = fr_RelationName row" by simp
    note g = grouped_appendChild [OF _ this]
    have "kids (?nodes[p := appendChild (fr_RelationName row) ?n (?nodes ! p)] ! i) = mset (child_ixs (rows @ [row]) i)
      \<and> distinct (map fst (tn_children (?nodes[p := appendChild (fr_RelationName row) ?n (?nodes ! p)] ! i)))
      \<and> (\<forall>c \<in># kids (?nodes[p := appendChild (fr_RelationName row) ?n (?nodes ! p)] ! i). c < Suc ?n)
      \<and> grouped (rows @ [row]) (?nodes[p := appendChild (fr_RelationName row) ?n (?nodes ! p)] ! i)"
      if "i < Suc ?n" for i
      using old [OF that] old [OF par [OF Some]] par [OF Some] Some that
      by (cases "i = p") (auto simp: l child_ixs_snoc kids_appendChild appendChild_distinct less_SucI intro: g)
    moreover have "map tn_row (?nodes[p := appendChild (fr_RelationName row) ?n (?nodes ! p)]) = rows @ [row]"
      using par [OF Some] by (simp add: map_update rows l list_update_same_conv nth_append)
        (metis l list_update_id nth_map rows)
    ultimately show ?thesis by (simp add: arena_ok_def addRow_nodes [OF assms] Some Let_def)
  qed
qed

lemma buildArena_ok: "arena_ok rows (buildArena rows)"
proof (induction rows rule: rev_induct)
  case Nil
  show ?case by (simp add: arena_ok_def buildArena_def path_ix_def root_ixs_def fun_eq_iff)
next
  case (snoc row rows)
  have "buildArena (rows @ [row]) = addRow (buildArena rows) row" by (simp add: buildArena_def)
  with addRow_ok [OF snoc] show ?case by simp
qed


subsection \<open>Parent paths\<close>

lemma parentPathOf_cases:
  "parentPathOf p = [] \<or> (\<exists>rest. p = parentPathOf p @ CHR ''.'' # rest)"
proof -
  let ?ps = "Split p (CHR ''.'')"
  show ?thesis
  proof (cases "length ?ps \<le> 3")
    case True
    then show ?thesis by (simp add: parentPathOf_def)
  next
    case False
    let ?k = "length ?ps - 2"
    have "take ?k ?ps \<noteq> []" "drop ?k ?ps \<noteq> []" using False by auto
    then have "Join (take ?k ?ps @ drop ?k ?ps) ''.'' = Join (take ?k ?ps) ''.'' @ ''.'' @ Join (drop ?k ?ps) ''.''"
      by (rule Join_append)
    moreover have "parentPathOf p = Join (take ?k ?ps) ''.''" using False by (simp add: parentPathOf_def Let_def)
    ultimately have "Join ?ps ''.'' = parentPathOf p @ CHR ''.'' # Join (drop ?k ?ps) ''.''" by simp
    then show ?thesis unfolding Join_Split by blast
  qed
qed

lemma less_append: "(xs :: 'a::order list) < xs @ y # ys"
  by (induction xs) auto

lemma parentPathOf_less: "p \<noteq> [] \<Longrightarrow> parentPathOf p < p"
  using parentPathOf_cases [of p] less_append by (metis Nil_less_Cons list.exhaust)

text \<open>The path of a child is the path of its parent, its kind and its name; the parent's
  path is recovered if neither the kind nor the name contains a dot.\<close>

lemma parentPathOf_child:
  assumes "2 \<le> length (Split q (CHR ''.''))" "CHR ''.'' \<notin> set kind" "CHR ''.'' \<notin> set seg"
  shows "parentPathOf (q @ ''.'' @ kind @ ''.'' @ seg) = q"
proof -
  have "Split (q @ ''.'' @ kind @ ''.'' @ seg) (CHR ''.'') = Split q (CHR ''.'') @ [kind, seg]"
    using Split_append_sep [of q "CHR ''.''" "kind @ ''.'' @ seg"] Split_append_sep [of kind "CHR ''.''" seg] assms
    by (simp add: Split_no_sep)
  with assms(1) Join_Split [of q "CHR ''.''"] show ?thesis by (simp add: parentPathOf_def)
qed

subsection \<open>Every root becomes a result\<close>

text \<open>A node is never its own descendant, except for a non-root row with the empty path,
  which no root leads to.\<close>

lemma child_later:
  assumes "parent_ix rows i \<noteq> Some i" "c \<in> set (child_ixs rows i)"
  shows "i < c \<and> c < length rows \<and> parent_ix rows c \<noteq> Some c"
proof -
  have "parent_ix rows c = Some i" "c < length rows" using assms(2) by (auto simp: child_ixs_def)
  with parent_ix_le [of rows c i] assms(1) show ?thesis by (cases "c = i") auto
qed

lemma those_map_Some: "\<forall>x \<in> set xs. \<exists>y. f x = Some y \<Longrightarrow> \<exists>ys. those (map f xs) = Some ys"
  by (induction xs) auto

lemma nodeToResult_total:
  assumes "arena_ok rows st" "i < length rows" "parent_ix rows i \<noteq> Some i" "length rows - i \<le> n"
  shows "\<exists>r. nodeToResult (ts_nodes st) n i os = Some r"
  using assms(2-4)
proof (induction n arbitrary: i os)
  case 0
  then show ?case by simp
next
  case (Suc n)
  have k: "set_mset (kids (ts_nodes st ! i)) = set (child_ixs rows i)"
    using assms(1) Suc.prems(1) by (simp add: arena_ok_def)
  have "\<exists>r. nodeToResult (ts_nodes st) n c os' = Some r"
    if "(rel, cs) \<in> set (tn_children (ts_nodes st ! i))" "c \<in> set cs" for rel cs c os'
  proof -
    have "c \<in> set (child_ixs rows i)" using that k by (force simp: kids_def)
    with child_later [OF Suc.prems(2)] Suc.prems show ?thesis by (intro Suc.IH) force+
  qed
  then have "\<exists>y. those (map (\<lambda>(relName, children). map_option (Pair relName)
      (those (map (\<lambda>c. nodeToResult (ts_nodes st) n c (findRelationObjectsSpec os relName)) children)))
      (tn_children (ts_nodes st ! i))) = Some y"
    by (intro those_map_Some) (auto dest!: those_map_Some, metis those_map_Some)
  then show ?case by auto
qed

lemma root_good: "i \<in> set (root_ixs rows) \<Longrightarrow> i < length rows \<and> parent_ix rows i = None"
  by (auto simp: root_ixs_def parent_ix_def)

lemma AssembleTree_Some: "\<exists>res. AssembleTree rows spec = Some res"
proof -
  have "ts_rootNodes (buildArena rows) = root_ixs rows" using buildArena_ok [of rows] by (simp add: arena_ok_def)
  then have "\<exists>res. those (map (\<lambda>i. nodeToResult (ts_nodes (buildArena rows)) (length rows) i
      (objectsSpecForLevel spec 0 [])) (ts_rootNodes (buildArena rows))) = Some res"
    by (intro those_map_Some ballI nodeToResult_total [OF buildArena_ok]) (auto dest: root_good)
  then show ?thesis by (auto simp: AssembleTree_def)
qed


subsection \<open>Every row occurs once\<close>

text \<open>The projected objects of a result and of everything below it.\<close>

fun res_objects :: "ObjectResult \<Rightarrow> string option list" where
  "res_objects (ObjectResult i c m obj rels) =
     obj # concat (map (\<lambda>p. concat (map res_objects (snd p))) rels)"

text \<open>The same, for the subtree of a row in the parent relation.\<close>

fun sub_objs :: "flatRow list \<Rightarrow> nat \<Rightarrow> nat \<Rightarrow> string option multiset" where
  "sub_objs rows 0 i = {#}"
| "sub_objs rows (Suc n) i =
     add_mset (rowObject (rows ! i)) (sum_mset (image_mset (sub_objs rows n) (mset (child_ixs rows i))))"

lemma those_objs:
  "those (map f cs) = Some rs \<Longrightarrow> \<forall>c \<in> set cs. \<forall>r. f c = Some r \<longrightarrow> mset (res_objects r) = F c \<Longrightarrow>
     mset (concat (map res_objects rs)) = sum_mset (image_mset F (mset cs))"
  by (induction cs arbitrary: rs) (auto split: option.splits)

lemma children_objs:
  "those (map (\<lambda>(rel, cs). map_option (Pair rel) (those (map (g rel) cs))) kv) = Some rels \<Longrightarrow>
   \<forall>(rel, cs) \<in> set kv. \<forall>c \<in> set cs. \<forall>r. g rel c = Some r \<longrightarrow> mset (res_objects r) = F c \<Longrightarrow>
     mset (concat (map (\<lambda>p. concat (map res_objects (snd p))) rels)) =
     sum_mset (image_mset F (mset (concat (map snd kv))))"
proof (induction kv arbitrary: rels)
  case Nil
  then show ?case by simp
next
  case (Cons p kv)
  obtain rel cs where p: "p = (rel, cs)" by fastforce
  from Cons.prems(1) obtain rs rels' where r: "those (map (g rel) cs) = Some rs"
    "those (map (\<lambda>(rel, cs). map_option (Pair rel) (those (map (g rel) cs))) kv) = Some rels'"
    "rels = (rel, rs) # rels'" by (auto simp: p split: option.splits)
  have "mset (concat (map res_objects rs)) = sum_mset (image_mset F (mset cs))"
    using Cons.prems(2) by (intro those_objs [OF r(1)]) (auto simp: p)
  with Cons.IH [OF r(2)] Cons.prems(2) show ?case by (simp add: p r(3))
qed

lemma rowResult_objects:
  "res_objects (rowResult row os rels) = rowObject row # concat (map (\<lambda>p. concat (map res_objects (snd p))) rels)"
  by (simp add: rowResult_def)

lemma nodeToResult_objs:
  assumes "arena_ok rows st"
  shows "i < length rows \<Longrightarrow> nodeToResult (ts_nodes st) n i os = Some r \<Longrightarrow> mset (res_objects r) = sub_objs rows n i"
proof (induction n arbitrary: i os r)
  case 0
  then show ?case by simp
next
  case (Suc n)
  let ?kv = "tn_children (ts_nodes st ! i)"
  let ?g = "\<lambda>rel c. nodeToResult (ts_nodes st) n c (findRelationObjectsSpec os rel)"
  from Suc.prems(2) obtain rels where r: "r = rowResult (tn_row (ts_nodes st ! i)) os rels"
    and t: "those (map (\<lambda>(rel, cs). map_option (Pair rel) (those (map (?g rel) cs))) ?kv) = Some rels"
    by auto
  have k: "mset (concat (map snd ?kv)) = mset (child_ixs rows i)"
    using assms Suc.prems(1) by (simp add: arena_ok_def kids_def)
  have "tn_row (ts_nodes st ! i) = rows ! i"
    using assms Suc.prems(1) unfolding arena_ok_def by (metis length_map nth_map)
  moreover have "c < length rows" if "(rel, cs) \<in> set ?kv" "c \<in> set cs" for rel cs c
  proof -
    have "c \<in># mset (concat (map snd ?kv))" using that by force
    then show ?thesis unfolding k by (simp add: child_ixs_def)
  qed
  then have "mset (concat (map (\<lambda>p. concat (map res_objects (snd p))) rels)) =
      sum_mset (image_mset (sub_objs rows n) (mset (concat (map snd ?kv))))"
    by (intro children_objs [OF t]) (use Suc.IH in blast)
  ultimately show ?case by (simp add: r rowResult_objects k)
qed

lemma sub_objs_fuel:
  "i < length rows \<Longrightarrow> parent_ix rows i \<noteq> Some i \<Longrightarrow> length rows - i \<le> n \<Longrightarrow>
     sub_objs rows (Suc n) i = sub_objs rows n i"
proof (induction n arbitrary: i)
  case 0
  then show ?case by simp
next
  case (Suc n)
  have "sub_objs rows (Suc n) c = sub_objs rows n c" if "c \<in> set (child_ixs rows i)" for c
    using child_later [OF Suc.prems(2) that] Suc.prems by (intro Suc.IH) auto
  then have "image_mset (sub_objs rows (Suc n)) (mset (child_ixs rows i)) =
      image_mset (sub_objs rows n) (mset (child_ixs rows i))"
    by (intro image_mset_cong) simp
  then show ?case by (simp only: sub_objs.simps(2))
qed

text \<open>Rows whose parent comes before them.\<close>

definition attached :: "flatRow list \<Rightarrow> bool" where
  "attached rows \<longleftrightarrow> (\<forall>j < length rows. fr_Level (rows ! j) \<noteq> 0 \<longrightarrow> (\<exists>i < j. parent_ix rows j = Some i))"

definition tops :: "flatRow list \<Rightarrow> nat \<Rightarrow> nat list" where
  "tops rows k = filter (\<lambda>j. case parent_ix rows j of None \<Rightarrow> True | Some p \<Rightarrow> p < k) [k..<length rows]"

text \<open>A row that has a parent comes after it; other rows below the root level are orphans.\<close>

definition parents_first :: "flatRow list \<Rightarrow> bool" where
  "parents_first rows \<longleftrightarrow> (\<forall>j < length rows. \<forall>p. parent_ix rows j = Some p \<longrightarrow> p < j)"

lemma parents_firstD: "parents_first rows \<Longrightarrow> j < length rows \<Longrightarrow> parent_ix rows j = Some p \<Longrightarrow> p < j"
  by (auto simp: parents_first_def)

lemma attached_parents_first: "attached rows \<Longrightarrow> parents_first rows"
  by (auto simp: attached_def parents_first_def parent_ix_def split: if_splits)

lemma paths_parents_first:
  assumes "\<forall>r \<in> set rows. fr_Level r \<noteq> 0 \<longrightarrow> fr_Path r \<noteq> []"
  shows "parents_first rows"
  unfolding parents_first_def
proof (intro allI impI)
  fix j p assume j: "j < length rows" and p: "parent_ix rows j = Some p"
  then have "fr_Level (rows ! j) \<noteq> 0" by (auto simp: parent_ix_def)
  with assms j have "fr_Path (rows ! j) \<noteq> []" by (meson nth_mem)
  with parentPathOf_less parent_ix_le [OF p j] show "p < j" by (cases "p = j") fastforce+
qed

lemma child_ixs_after:
  assumes "parents_first rows" "k < length rows"
  shows "child_ixs rows k = filter (\<lambda>j. parent_ix rows j = Some k) [Suc k..<length rows]"
proof -
  have "Suc k + (length rows - Suc k) = length rows" using assms(2) by simp
  then have "[0..<length rows] = [0..<Suc k] @ [Suc k..<length rows]"
    by (metis le0 upt_add_eq_append)
  moreover have "parent_ix rows j \<noteq> Some k" if "j \<in> set [0..<Suc k]" for j
    using parents_firstD [OF assms(1), of j k] assms(2) that by (auto simp del: upt_Suc)
  then have "filter (\<lambda>j. parent_ix rows j = Some k) [0..<Suc k] = []"
    by (intro filter_False) blast
  ultimately show ?thesis by (simp add: child_ixs_def del: upt_Suc)
qed

lemma tops_step:
  assumes "parents_first rows" "k < length rows"
  shows "mset (tops rows k) + mset (child_ixs rows k) = add_mset k (mset (tops rows (Suc k)))"
proof -
  have k: "case parent_ix rows k of None \<Rightarrow> True | Some p \<Rightarrow> p < k"
    using parents_firstD [OF assms] by (auto split: option.split)
  have "mset (filter (\<lambda>j. case parent_ix rows j of None \<Rightarrow> True | Some p \<Rightarrow> p < k) js) +
      mset (filter (\<lambda>j. parent_ix rows j = Some k) js) =
      mset (filter (\<lambda>j. case parent_ix rows j of None \<Rightarrow> True | Some p \<Rightarrow> p < Suc k) js)" for js
    by (induction js) (auto split: option.splits)
  from this [of "[Suc k..<length rows]"] k show ?thesis
    unfolding tops_def child_ixs_after [OF assms] upt_conv_Cons [OF assms(2)]
    by (simp del: mset_filter mset_upt)
qed

lemma tops_objs:
  assumes "parents_first rows" "k \<le> length rows"
  shows "sum_mset (image_mset (sub_objs rows (length rows)) (mset (tops rows k))) =
     mset (map rowObject (drop k rows))"
  using assms(2)
proof (induction rule: inc_induct)
  case base
  then show ?case by (simp add: tops_def)
next
  case (step k)
  let ?W = "sub_objs rows (length rows)"
  have "parent_ix rows k \<noteq> Some k" using parents_firstD [OF assms(1) step.hyps(2)] by blast
  then have "?W k = add_mset (rowObject (rows ! k)) (sum_mset (image_mset ?W (mset (child_ixs rows k))))"
    using sub_objs_fuel [OF step.hyps(2), of "length rows"] by simp
  moreover have "sum_mset (image_mset ?W (mset (tops rows k))) + sum_mset (image_mset ?W (mset (child_ixs rows k))) =
      ?W k + sum_mset (image_mset ?W (mset (tops rows (Suc k))))"
    using arg_cong [OF tops_step [OF assms(1) step.hyps(2)], of "\<lambda>M. sum_mset (image_mset ?W M)"] by simp
  ultimately show ?case using step by (simp add: Cons_nth_drop_Suc [symmetric])
qed

lemma AssembleTree_roots:
  assumes "AssembleTree rows spec = Some res"
  shows "mset (concat (map res_objects res)) =
     sum_mset (image_mset (sub_objs rows (length rows)) (mset (root_ixs rows)))"
proof (cases "rows = []")
  case True
  with assms show ?thesis by (simp add: AssembleTree_def root_ixs_def)
next
  case False
  let ?st = "buildArena rows"
  have roots: "ts_rootNodes ?st = root_ixs rows" using buildArena_ok [of rows] by (simp add: arena_ok_def)
  from assms False have "those (map (\<lambda>i. nodeToResult (ts_nodes ?st) (length rows) i (objectsSpecForLevel spec 0 []))
      (root_ixs rows)) = Some res" by (simp add: AssembleTree_def Let_def roots)
  then show ?thesis by (rule those_objs) (auto simp: root_ixs_def nodeToResult_objs [OF buildArena_ok])
qed

lemma AssembleTree_objs:
  assumes "attached rows" "AssembleTree rows spec = Some res"
  shows "mset (concat (map res_objects res)) = mset (map rowObject rows)"
proof -
  have "root_ixs rows = tops rows 0"
    using assms(1)
    by (auto simp: root_ixs_def tops_def attached_def parent_ix_def intro!: filter_cong split: option.splits)
  then show ?thesis
    using tops_objs [OF attached_parents_first [OF assms(1)], of 0] AssembleTree_roots [OF assms(2)] by simp
qed

text \<open>Orphans are left out, so in general the result holds a part of the rows.\<close>

lemma AssembleTree_sub:
  assumes "parents_first rows" "AssembleTree rows spec = Some res"
  shows "mset (concat (map res_objects res)) \<subseteq># mset (map rowObject rows)"
proof -
  let ?W = "sub_objs rows (length rows)"
  have "mset (root_ixs rows) \<subseteq># mset (tops rows 0)"
    unfolding root_ixs_def tops_def mset_filter
    by (rule filter_mset_mono_strong) (auto simp: parent_ix_def)
  then obtain M where "mset (tops rows 0) = mset (root_ixs rows) + M" by (metis subset_mset.le_iff_add)
  with tops_objs [OF assms(1), of 0] have "mset (map rowObject rows) =
      sum_mset (image_mset ?W (mset (root_ixs rows))) + sum_mset (image_mset ?W M)" by simp
  then show ?thesis unfolding AssembleTree_roots [OF assms(2)] by simp
qed

text \<open>Rows sorted by path come after their parents.\<close>

lemma sorted_attached:
  assumes "sorted (map fr_Path rows)"
    and "\<forall>r \<in> set rows. fr_Level r \<noteq> 0 \<longrightarrow> fr_Path r \<noteq> [] \<and> parentPathOf (fr_Path r) \<in> fr_Path ` set rows"
  shows "attached rows"
  unfolding attached_def
proof (intro allI impI)
  fix j assume j: "j < length rows" "fr_Level (rows ! j) \<noteq> 0"
  let ?p = "parentPathOf (fr_Path (rows ! j))"
  have ne: "fr_Path (rows ! j) \<noteq> []" using assms(2) j by (meson nth_mem)
  have "?p \<in> fr_Path ` set rows" using assms(2) j by (meson nth_mem)
  then obtain i where i: "i < length rows" "fr_Path (rows ! i) = ?p"
    by (metis imageE in_set_conv_nth)
  have "i < j"
  proof (rule ccontr)
    assume "\<not> i < j"
    then have "fr_Path (rows ! j) \<le> fr_Path (rows ! i)"
      using sorted_nth_mono [OF assms(1), of j i] i(1) by simp
    with parentPathOf_less [OF ne] i(2) show False by simp
  qed
  then have "rows ! i \<in> set (take (Suc j) rows)"
    using j(1) by (metis (no_types, lifting) Suc_leI in_set_conv_nth length_take less_SucI min.absorb2 nth_take)
  then have "path_ix (take (Suc j) rows) ?p \<noteq> None" using i(2) path_ix_None by blast
  then obtain k where k: "parent_ix rows j = Some k" using j(2) by (auto simp: parent_ix_def)
  moreover have "k \<noteq> j" using parent_ix_le [OF k j(1)] parentPathOf_less [OF ne] by auto
  ultimately show "\<exists>i < j. parent_ix rows j = Some i" using parent_ix_le [OF k j(1)] by auto
qed

subsection \<open>Properties\<close>

text \<open>C36. Tree assembly always returns: following the child pointers from the roots ends for
  every list of rows, whatever their paths and levels, with as many results at the top as
  there are rows of level 0.\<close>

theorem AssembleTree_total:
  "\<exists>res. AssembleTree rows spec = Some res \<and> length res = length (filter (\<lambda>r. fr_Level r = 0) rows)"
proof -
  have those_length: "those xs = Some ys \<Longrightarrow> length ys = length xs" for xs and ys :: "ObjectResult list"
    by (induction xs arbitrary: ys) (auto split: option.splits)
  obtain res where r: "AssembleTree rows spec = Some res" using AssembleTree_Some by blast
  moreover have "length (root_ixs rows) = length (filter (\<lambda>r. fr_Level r = 0) rows)"
    unfolding root_ixs_def length_filter_conv_card by (rule arg_cong [where f = card]) auto
  moreover have "ts_rootNodes (buildArena rows) = root_ixs rows" using buildArena_ok [of rows] by (simp add: arena_ok_def)
  ultimately show ?thesis
    by (auto simp: AssembleTree_def Let_def dest!: those_length split: if_splits)
qed


text \<open>C2. No row is lost and none is shown twice: if the rows are sorted by path, as the
  generated ORDER BY asks for, and every row below the root level has a row at its parent
  path, the projected objects in the assembled trees are, with their multiplicities, those
  of the rows.\<close>

theorem AssembleTree_complete:
  assumes "sorted (map fr_Path rows)"
    and "\<forall>r \<in> set rows. fr_Level r \<noteq> 0 \<longrightarrow> fr_Path r \<noteq> [] \<and> parentPathOf (fr_Path r) \<in> fr_Path ` set rows"
    and "AssembleTree rows spec = Some res"
  shows "mset (concat (map res_objects res)) = mset (map rowObject rows)"
  using AssembleTree_objs [OF sorted_attached [OF assms(1,2)] assms(3)] .

definition example_row :: "string \<Rightarrow> int \<Rightarrow> string \<Rightarrow> flatRow" where
  "example_row path level obj = \<lparr>fr_ID = [], fr_UID = [], fr_Cluster = [], fr_APIGroup = [], fr_APIVersion = [],
     fr_Kind = [], fr_Resource = [], fr_Namespace = [], fr_Name = [], fr_Labels = None, fr_Annotations = None,
     fr_OwnerRefs = None, fr_Conditions = None, fr_CreationTS = None, fr_ResourceVersion = [],
     fr_ProjectedObject = Some obj, fr_Path = path, fr_Level = level,
     fr_RelationName = (if level = 0 then [] else ''descendants'')\<rparr>"

definition example_rows :: "flatRow list" where
  "example_rows = [example_row ''.deployment.default/web'' 0 ''d'',
     example_row ''.deployment.default/web.replicaset.default/web-1'' 1 ''r'',
     example_row ''.deployment.default/web.replicaset.default/web-1.pod.default/p1'' 2 ''p'']"

theorem AssembleTree_complete_witness:
  "\<exists>res. AssembleTree example_rows zero_QuerySpec = Some res \<and>
     mset (concat (map res_objects res)) = {#Some ''d'', Some ''r'', Some ''p''#}"
proof -
  obtain res where r: "AssembleTree example_rows zero_QuerySpec = Some res" using AssembleTree_Some by blast
  have "sorted (map fr_Path example_rows)" by code_simp
  moreover have "\<forall>r \<in> set example_rows. fr_Level r \<noteq> 0 \<longrightarrow>
      fr_Path r \<noteq> [] \<and> parentPathOf (fr_Path r) \<in> fr_Path ` set example_rows" by code_simp
  ultimately have "mset (concat (map res_objects res)) = mset (map rowObject example_rows)"
    using r by (rule AssembleTree_complete)
  moreover have "map rowObject example_rows = [Some ''d'', Some ''r'', Some ''p'']" by code_simp
  ultimately show ?thesis using r by auto
qed

text \<open>C35. The arena is the parent relation of the paths: after all rows are added, the
  children of a node are exactly the rows whose parent path leads to it, each filed under
  its own relation name, and the roots are the rows of level 0 in their order.\<close>

theorem buildArena_parents:
  "let st = buildArena rows in
     map tn_row (ts_nodes st) = rows \<and>
     ts_rootNodes st = filter (\<lambda>j. fr_Level (rows ! j) = 0) [0..<length rows] \<and>
     (\<forall>i < length rows. mset (concat (map snd (tn_children (ts_nodes st ! i)))) =
        mset (filter (\<lambda>j. parent_ix rows j = Some i) [0..<length rows]) \<and> grouped rows (ts_nodes st ! i))"
  using buildArena_ok [of rows] unfolding arena_ok_def kids_def child_ixs_def root_ixs_def Let_def by blast

theorem buildArena_parents_witness:
  "mset (concat (map snd (tn_children (ts_nodes (buildArena example_rows) ! 1)))) = {#2#}"
proof -
  have "filter (\<lambda>j. parent_ix example_rows j = Some 1) [0..<length example_rows] = [2]" by code_simp
  moreover have "1 < length example_rows" by code_simp
  ultimately show ?thesis using buildArena_parents [of example_rows] unfolding Let_def by (metis mset_single_iff_right)
qed

text \<open>The parent path undoes the path expression of the generated SQL: stripping two
  segments from the path of a child gives the path of its parent, whose own names may
  contain dots, as long as the child's kind, namespace and name contain none.\<close>

theorem parentPathOf_inverse:
  assumes "CHR ''.'' \<notin> set kind" "CHR ''.'' \<notin> set ns" "CHR ''.'' \<notin> set name"
  shows "parentPathOf (''.'' @ parent @ ''.'' @ kind @ ''.'' @ ns @ ''/'' @ name) = ''.'' @ parent"
proof -
  have "2 \<le> length (Split (''.'' @ parent) (CHR ''.''))"
    using Split_append_sep [of "[]" "CHR ''.''" parent] by (cases "Split parent (CHR ''.'')") auto
  from parentPathOf_child [OF this assms(1), of "ns @ ''/'' @ name"] assms show ?thesis by simp
qed

theorem parentPathOf_inverse_witness:
  "parentPathOf ''.deployment.default/web.v2.pod.default/p1'' = ''.deployment.default/web.v2''"
  using parentPathOf_inverse [of "''pod''" "''default''" "''p1''" "''deployment.default/web.v2''"] by simp

text \<open>Two roots with one path: objects of the same kind, namespace and name in two
  clusters share a path, so a child of the first is filed under the second.\<close>

theorem same_path_in_two_clusters:
  "let a = (example_row ''.svc.ns/db'' 0 ''a'')\<lparr>fr_Cluster := ''east''\<rparr>;
       b = (example_row ''.svc.ns/db'' 0 ''b'')\<lparr>fr_Cluster := ''west''\<rparr>;
       c = (example_row ''.svc.ns/db.pod.ns/p'' 1 ''c'')\<lparr>fr_Cluster := ''east''\<rparr>
   in AssembleTree [a, b, c] zero_QuerySpec =
      Some [rowResult a None [], rowResult b None [(''descendants'', [rowResult c None []])]]"
  by code_simp

text \<open>A child whose name contains a dot is dropped: stripping two segments from its path
  does not give the path of its parent, and the row is attached nowhere.\<close>

theorem dotted_child_dropped:
  "let a = example_row ''.node./n1'' 0 ''a''; c = example_row ''.node./n1.pod.ns/p.v1'' 1 ''c''
   in AssembleTree [a, c] zero_QuerySpec = Some [rowResult a None []]"
  by code_simp

end
