(* ===== verification/Query_Engine.thy ===== *)
theory Query_Engine
  imports Sql_Generator Result_Tree
begin

text \<open>
  \<open>internal/engine/engine.go\<close> and \<open>internal/server/handler.go\<close>: validation, generation,
  execution and assembly of a query, and the POST handler around it. The database is a
  parameter: what it answers to a statement and to a count statement, time-outs of the
  request context included. Metrics and the debug log are not modelled.
\<close>

record database =
  db_rows :: "string \<Rightarrow> sqlarg list \<Rightarrow> sql_rows result"
  db_count :: "string \<Rightarrow> sqlarg list \<Rightarrow> int64 result"

record Engine =
  eng_store :: database
  eng_generator :: Generator

definition NewEngine :: "database \<Rightarrow> string \<Rightarrow> Engine" where
  "NewEngine db driver = \<lparr>eng_store = db, eng_generator = NewGenerator driver\<rparr>"

definition wrap :: "string \<Rightarrow> 'a result \<Rightarrow> 'a result" where
  "wrap msg r = (case r of Inl e \<Rightarrow> Inl (Wrapped msg e) | Inr x \<Rightarrow> Inr x)"

definition rowToResult :: "flatRow \<Rightarrow> ObjectsSpec option \<Rightarrow> ObjectResult" where
  "rowToResult r objSpec =
     ObjectResult
       (case objSpec of Some s \<Rightarrow> if os_ID s then fr_ID r else [] | None \<Rightarrow> [])
       (case objSpec of Some s \<Rightarrow> if os_Cluster s then fr_Cluster r else [] | None \<Rightarrow> [])
       (case objSpec of
          Some s \<Rightarrow> if os_MutablePath s
            then MutablePath (fr_APIGroup r) (fr_APIVersion r) (fr_Resource r) (fr_Namespace r) (fr_Name r) else []
        | None \<Rightarrow> [])
       (case fr_ProjectedObject r of
          Some s \<Rightarrow> if s \<noteq> [] \<and> s \<noteq> ''null'' then Some s else None
        | None \<Rightarrow> None)
       []"

definition truncationWarning :: string where
  "truncationWarning = Sprintf ''response truncated at %d total rows'' [itoa (int MaxTotalRows)]"

definition countStatus :: "Engine \<Rightarrow> QuerySpec \<Rightarrow> GeneratedQuery \<Rightarrow> int64 option result" where
  "countStatus e spec gen =
     (if qs_Count spec
      then andthen (wrap ''count query'' (db_count (eng_store e) (gq_CountSQL gen) (gq_CountArgs gen)))
             (\<lambda>n. Inr (Some n))
      else Inr None)"

definition cursorStatus :: "QuerySpec \<Rightarrow> flatRow list \<Rightarrow> CursorResult option result" where
  "cursorStatus spec flatRows =
     (case ExtractLastRowForCursor flatRows of
        None \<Rightarrow> Inr None
      | Some lastRow \<Rightarrow>
          if qs_Cursor spec then
            andthen (case qs_Page spec of None \<Rightarrow> Inr 0 | Some page \<Rightarrow> div32 (pg_First page) (qs_Limit spec))
              (\<lambda>page. Inr (Some \<lparr>cr_Next = BuildCursorToken lastRow, cr_Page = page,
                 cr_PageSize = qs_Limit spec\<rparr>))
          else Inr None)"

definition executeFlat :: "Engine \<Rightarrow> sql_rows \<Rightarrow> QuerySpec \<Rightarrow> GeneratedQuery \<Rightarrow> QueryStatus result" where
  "executeFlat e rows spec gen =
     andthen (wrap ''scanning results'' (scanFlatRows rows MaxTotalRows)) (\<lambda>(flatRows, truncated).
     let results = map (\<lambda>r. rowToResult r (qs_Objects spec)) flatRows in
     andthen (countStatus e spec gen) (\<lambda>count.
     andthen (cursorStatus spec flatRows) (\<lambda>cursor.
     Inr \<lparr>st_Objects = results, st_Cursor = cursor, st_Count = count,
          st_Incomplete = (truncated \<or> int (length results) = sint (qs_Limit spec)),
          st_Warnings = (if truncated then [truncationWarning] else [])\<rparr>)))"

definition executeWithRelations :: "Engine \<Rightarrow> sql_rows \<Rightarrow> QuerySpec \<Rightarrow> GeneratedQuery \<Rightarrow> QueryStatus result" where
  "executeWithRelations e rows spec gen =
     andthen (wrap ''scanning results'' (scanFlatRows rows MaxTotalRows)) (\<lambda>(flatRows, truncated).
     andthen (case AssembleTree flatRows spec of None \<Rightarrow> Inl (Panic ''stack overflow'') | Some r \<Rightarrow> Inr r) (\<lambda>results.
     andthen (countStatus e spec gen) (\<lambda>count.
     andthen (cursorStatus spec flatRows) (\<lambda>cursor.
     let rootCount = length (filter (\<lambda>r. fr_Level r = 0) flatRows) in
     Inr \<lparr>st_Objects = results, st_Cursor = cursor, st_Count = count,
          st_Incomplete = (truncated \<or> int rootCount = sint (qs_Limit spec)),
          st_Warnings = (if truncated then [truncationWarning] else [])\<rparr>))))"

text \<open>\<open>Validate\<close> fills the defaults into the caller's spec, so the spec is a result too.\<close>

definition Execute :: "Engine \<Rightarrow> QuerySpec \<Rightarrow> (QuerySpec \<times> QueryStatus) result" where
  "Execute e spec =
     andthen (wrap ''validation'' (Validate spec)) (\<lambda>spec.
     andthen (wrap ''sql generation'' (Generate (eng_generator e) spec)) (\<lambda>gen.
     andthen (wrap ''query execution'' (db_rows (eng_store e) (gq_SQL gen) (gq_Args gen))) (\<lambda>rows.
     andthen (if gq_HasRelations gen then executeWithRelations e rows spec gen else executeFlat e rows spec gen)
       (\<lambda>status. Inr (spec, status)))))"

subsection \<open>The POST handler\<close>

record Query =
  q_Spec :: QuerySpec
  q_Status :: QueryStatus

definition Create :: "Engine \<Rightarrow> (Query \<Rightarrow> kerror option) option \<Rightarrow> Query \<Rightarrow> Query result" where
  "Create e createValidation query =
     (case (case createValidation of None \<Rightarrow> None | Some v \<Rightarrow> v query) of
        Some err \<Rightarrow> Inl err
      | None \<Rightarrow>
          andthen (Execute e (q_Spec query)) (\<lambda>(spec, status). Inr \<lparr>q_Spec = spec, q_Status = status\<rparr>))"

subsection \<open>Stages\<close>

lemma wrap_Inr [simp]: "wrap msg r = Inr x \<longleftrightarrow> r = Inr x"
  by (auto simp: wrap_def split: sum.splits)

lemma wrap_Inl: "wrap msg r = Inl e \<longleftrightarrow> (\<exists>e'. r = Inl e' \<and> e = Wrapped msg e')"
  by (auto simp: wrap_def split: sum.splits)

lemma rowToResult_eq: "rowToResult r os = rowResult r os []"
  by (auto simp: rowToResult_def rowResult_def wants_def rowObject_def split: option.split)

lemma scanLoop_rows:
  "scanLoop m ss acc = Inr (rs, t) \<Longrightarrow>
     \<exists>k. k \<le> length ss \<and> map Inr rs = map Inr acc @ take k ss \<and> (t \<longrightarrow> 0 < m \<and> m \<le> length rs \<and> k < length ss) \<and>
       (\<not> t \<longrightarrow> k = length ss)"
proof (induction m ss acc arbitrary: rs t rule: scanLoop.induct)
  case (1 m acc)
  then show ?case by auto
next
  case (2 m s ss acc)
  show ?case
  proof (cases "m > 0 \<and> length acc \<ge> m")
    case True
    with "2.prems" show ?thesis by (intro exI [of _ 0]) auto
  next
    case False
    with "2.prems" obtain r where r: "s = Inr r" "scanLoop m ss (acc @ [r]) = Inr (rs, t)"
      by (auto split: sum.splits)
    from "2.IH" [OF False r] obtain k where "k \<le> length ss" "map Inr rs = map Inr (acc @ [r]) @ take k ss"
      "t \<longrightarrow> 0 < m \<and> m \<le> length rs \<and> k < length ss" "\<not> t \<longrightarrow> k = length ss" by blast
    with r(1) show ?thesis by (intro exI [of _ "Suc k"]) auto
  qed
qed

lemma scanLoop_length: "scanLoop m ss acc = Inr (rs, t) \<Longrightarrow> 0 < m \<Longrightarrow> length acc \<le> m \<Longrightarrow> length rs \<le> m"
  by (induction m ss acc arbitrary: rs t rule: scanLoop.induct) (auto split: if_splits sum.splits)

lemma scanFlatRows_Inr:
  "scanFlatRows rows m = Inr (rs, t) \<longleftrightarrow> scanLoop m (rows_scans rows) [] = Inr (rs, t) \<and> rows_err rows t = None"
  by (auto simp: scanFlatRows_def andthen_Inr_iff split: option.splits)

lemma div32_ok: "b \<noteq> 0 \<Longrightarrow> \<exists>c. div32 a b = Inr c"
  by (simp add: div32_def)

lemma valid_limit_nonzero: "valid_spec s \<Longrightarrow> qs_Limit s \<noteq> 0"
  by (auto simp: valid_spec_def)

lemma cursorStatus_ok: "qs_Limit spec \<noteq> 0 \<Longrightarrow> \<exists>c. cursorStatus spec rows = Inr c"
  using div32_ok [of "qs_Limit spec"]
  by (auto simp: cursorStatus_def andthen_def split: option.split sum.split) (metis sum.distinct(1))

lemma Validate_valid: "Validate s = Inr s' \<Longrightarrow> valid_spec s'"
  by (auto simp: Validate_Inr_iff)


lemma scanLoop_all:
  "0 < m \<Longrightarrow> length acc \<le> m \<Longrightarrow>
     scanLoop m (map Inr rs) acc = Inr (take m (acc @ rs), m < length (acc @ rs))"
proof (induction rs arbitrary: acc)
  case Nil
  then show ?case by simp
next
  case (Cons r rs)
  show ?case
  proof (cases "m \<le> length acc")
    case True
    with Cons.prems show ?thesis by auto
  next
    case False
    with Cons.IH [of "acc @ [r]"] Cons.prems show ?thesis by (auto simp del: take_append)
  qed
qed

text \<open>Rows that arrive without an error.\<close>

definition clean_rows :: "flatRow list \<Rightarrow> sql_rows" where
  "clean_rows rs = \<lparr>rows_scans = map Inr rs, rows_err = (\<lambda>_. None)\<rparr>"

lemma scanFlatRows_clean:
  "scanFlatRows (clean_rows rs) MaxTotalRows = Inr (take 10000 rs, 10000 < length rs)"
  by (auto simp: scanFlatRows_def clean_rows_def scanLoop_all MaxTotalRows_def)

text \<open>Once the rows have been fetched, only the scan and the count query can fail.\<close>

lemma execute_Inl:
  assumes "qs_Limit spec \<noteq> 0"
  shows "executeFlat e rows spec gen = Inl err \<longleftrightarrow>
      (\<exists>c. scanFlatRows rows MaxTotalRows = Inl c \<and> err = Wrapped ''scanning results'' c) \<or>
      (\<exists>scanned c. scanFlatRows rows MaxTotalRows = Inr scanned \<and> qs_Count spec \<and>
        db_count (eng_store e) (gq_CountSQL gen) (gq_CountArgs gen) = Inl c \<and> err = Wrapped ''count query'' c)"
    "executeWithRelations e rows spec gen = executeFlat e rows spec gen \<or>
      (\<exists>st st'. executeWithRelations e rows spec gen = Inr st \<and> executeFlat e rows spec gen = Inr st')"
proof -
  have cur: "cursorStatus spec rs \<noteq> Inl x" for rs x
    using cursorStatus_ok [OF assms, of rs] by auto
  have cnt: "countStatus e spec gen = Inl x \<longleftrightarrow>
      (\<exists>c. qs_Count spec \<and> db_count (eng_store e) (gq_CountSQL gen) (gq_CountArgs gen) = Inl c \<and> x = Wrapped ''count query'' c)" for x
    by (auto simp: countStatus_def andthen_Inl_iff wrap_Inl)
  show "executeFlat e rows spec gen = Inl err \<longleftrightarrow>
      (\<exists>c. scanFlatRows rows MaxTotalRows = Inl c \<and> err = Wrapped ''scanning results'' c) \<or>
      (\<exists>scanned c. scanFlatRows rows MaxTotalRows = Inr scanned \<and> qs_Count spec \<and>
        db_count (eng_store e) (gq_CountSQL gen) (gq_CountArgs gen) = Inl c \<and> err = Wrapped ''count query'' c)"
    by (auto simp: executeFlat_def andthen_Inl_iff wrap_Inl Let_def cur cnt)
  show "executeWithRelations e rows spec gen = executeFlat e rows spec gen \<or>
      (\<exists>st st'. executeWithRelations e rows spec gen = Inr st \<and> executeFlat e rows spec gen = Inr st')"
  proof (cases "scanFlatRows rows MaxTotalRows")
    case (Inr scanned)
    obtain rs t where scanned: "scanned = (rs, t)" by fastforce
    obtain c where c: "cursorStatus spec rs = Inr c" using cursorStatus_ok [OF assms] by blast
    obtain res where "AssembleTree rs spec = Some res" using AssembleTree_Some [of rs spec] by blast
    with Inr scanned c show ?thesis
      by (cases "countStatus e spec gen") (simp_all add: executeWithRelations_def executeFlat_def wrap_def Let_def)
  qed (simp add: executeWithRelations_def executeFlat_def wrap_def)
qed

lemma execute_relations_Inl:
  "qs_Limit spec \<noteq> 0 \<Longrightarrow> executeWithRelations e rows spec gen = Inl err \<longleftrightarrow> executeFlat e rows spec gen = Inl err"
  using execute_Inl(2) [of spec e rows gen] by auto

lemma execute_errors:
  assumes "qs_Limit spec \<noteq> 0"
  shows "executeFlat e rows spec gen = Inl err \<Longrightarrow>
      \<exists>e'. err = Wrapped ''scanning results'' e' \<or> err = Wrapped ''count query'' e'"
    "executeWithRelations e rows spec gen = Inl err \<Longrightarrow>
      \<exists>e'. err = Wrapped ''scanning results'' e' \<or> err = Wrapped ''count query'' e'"
  unfolding execute_relations_Inl [OF assms] execute_Inl(1) [OF assms] by blast+

lemma executeFlat_Inr:
  "executeFlat e rows spec gen = Inr st \<Longrightarrow>
     \<exists>rs t. scanFlatRows rows MaxTotalRows = Inr (rs, t) \<and> cursorStatus spec rs = Inr (st_Cursor st) \<and>
       countStatus e spec gen = Inr (st_Count st) \<and>
       st_Objects st = map (\<lambda>r. rowToResult r (qs_Objects spec)) rs"
  by (auto simp: executeFlat_def andthen_Inr_iff Let_def)

lemma executeWithRelations_Inr:
  "executeWithRelations e rows spec gen = Inr st \<Longrightarrow>
     \<exists>rs t. scanFlatRows rows MaxTotalRows = Inr (rs, t) \<and> cursorStatus spec rs = Inr (st_Cursor st) \<and>
       countStatus e spec gen = Inr (st_Count st) \<and> AssembleTree rs spec = Some (st_Objects st)"
  by (auto simp: executeWithRelations_def andthen_Inr_iff Let_def split: option.splits)

lemma Execute_Inr:
  assumes "Execute e spec = Inr (spec', st)"
  obtains gen rows rs t where "Validate spec = Inr spec'" "Generate (eng_generator e) spec' = Inr gen"
    "db_rows (eng_store e) (gq_SQL gen) (gq_Args gen) = Inr rows" "scanFlatRows rows MaxTotalRows = Inr (rs, t)"
    "cursorStatus spec' rs = Inr (st_Cursor st)" "countStatus e spec' gen = Inr (st_Count st)"
    "if gq_HasRelations gen then AssembleTree rs spec' = Some (st_Objects st)
     else st_Objects st = map (\<lambda>r. rowToResult r (qs_Objects spec')) rs"
proof -
  from assms obtain gen rows where g: "Validate spec = Inr spec'" "Generate (eng_generator e) spec' = Inr gen"
    "db_rows (eng_store e) (gq_SQL gen) (gq_Args gen) = Inr rows"
    "(if gq_HasRelations gen then executeWithRelations e rows spec' gen else executeFlat e rows spec' gen) = Inr st"
    unfolding Execute_def andthen_Inr_iff wrap_Inr by blast
  then show thesis
    by (cases "gq_HasRelations gen") (auto dest!: executeFlat_Inr executeWithRelations_Inr intro: that)
qed

subsection \<open>Properties\<close>

text \<open>C6. When a query fails, where, and how it is reported: \<open>Execute\<close> fails exactly when validation
  fails, or else SQL generation, or else the query, or else the scan of its rows, or else the count
  query if one was asked for; the error is the one of that first failing stage, wrapped in the
  name of the stage, for any answers of the database. Nothing else fails and nothing panics: the
  page number never divides by zero and tree assembly never exhausts the stack.\<close>

theorem Execute_errors:
  "Execute e spec = Inl err \<longleftrightarrow>
     (\<exists>c. Validate spec = Inl c \<and> err = Wrapped ''validation'' c) \<or>
     (\<exists>spec'. Validate spec = Inr spec' \<and>
       ((\<exists>c. Generate (eng_generator e) spec' = Inl c \<and> err = Wrapped ''sql generation'' c) \<or>
        (\<exists>gen. Generate (eng_generator e) spec' = Inr gen \<and>
          ((\<exists>c. db_rows (eng_store e) (gq_SQL gen) (gq_Args gen) = Inl c \<and> err = Wrapped ''query execution'' c) \<or>
           (\<exists>rows. db_rows (eng_store e) (gq_SQL gen) (gq_Args gen) = Inr rows \<and>
             ((\<exists>c. scanFlatRows rows MaxTotalRows = Inl c \<and> err = Wrapped ''scanning results'' c) \<or>
              (\<exists>scanned c. scanFlatRows rows MaxTotalRows = Inr scanned \<and> qs_Count spec' \<and>
                db_count (eng_store e) (gq_CountSQL gen) (gq_CountArgs gen) = Inl c \<and> err = Wrapped ''count query'' c)))))))"
proof -
  show ?thesis
  proof (cases "Validate spec")
    case (Inr spec')
    note v = Inr
    have limit: "qs_Limit spec' \<noteq> 0" using v valid_limit_nonzero Validate_valid by blast
    show ?thesis
    proof (cases "Generate (eng_generator e) spec'")
      case (Inr gen)
      note g = Inr
      show ?thesis
      proof (cases "db_rows (eng_store e) (gq_SQL gen) (gq_Args gen)")
        case (Inr rows)
        have "Execute e spec = Inl err \<longleftrightarrow> executeFlat e rows spec' gen = Inl err"
          using v g Inr execute_relations_Inl [OF limit, of e rows gen err]
          by (simp add: Execute_def wrap_def andthen_Inl_iff)
        with v g Inr show ?thesis by (simp add: execute_Inl(1) [OF limit])
      qed (use v g in \<open>auto simp: Execute_def wrap_def\<close>)
    qed (use v in \<open>auto simp: Execute_def wrap_def\<close>)
  qed (auto simp: Execute_def wrap_def)
qed

definition example_engine :: "flatRow list \<Rightarrow> Engine" where
  "example_engine rs = NewEngine \<lparr>db_rows = (\<lambda>_ _. Inr (clean_rows rs)), db_count = (\<lambda>_ _. Inr 0)\<rparr> ''sqlite''"

text \<open>C10. What a flat query answers: for a valid spec without relations, the results are the
  converted rows in the order of the database, cut at 10000; the answer is marked
  incomplete exactly when rows were cut or the page is full, and carries the warning
  exactly when rows were cut.\<close>

theorem Execute_flat:
  assumes "Validate spec = Inr spec'" and "relationsOf (qs_Objects spec') = []" and "\<not> qs_Count spec'"
    and "Generate (eng_generator e) spec' = Inr gen"
    and "db_rows (eng_store e) (gq_SQL gen) (gq_Args gen) = Inr (clean_rows rs)"
  shows "\<exists>st. Execute e spec = Inr (spec', st)
    \<and> st_Objects st = map (\<lambda>r. rowToResult r (qs_Objects spec')) (take 10000 rs)
    \<and> (st_Incomplete st \<longleftrightarrow> 10000 < length rs \<or> int (length rs) = sint (qs_Limit spec'))
    \<and> st_Warnings st = (if 10000 < length rs then [truncationWarning] else [])"
proof -
  have flag: "\<not> gq_HasRelations gen" using Generate_flag [OF assms(4)] assms(2) by simp
  have "valid_spec spec'" using Validate_valid [OF assms(1)] .
  then obtain c where "cursorStatus spec' (take 10000 rs) = Inr c"
    using cursorStatus_ok valid_limit_nonzero by blast
  with assms flag show ?thesis
    by (auto simp: Execute_def executeFlat_def scanFlatRows_clean countStatus_def Let_def wrap_def)
qed

theorem Execute_flat_witness:
  "\<exists>st. Execute (example_engine [example_row ''.pod.ns/p'' 0 ''x'']) (zero_QuerySpec\<lparr>qs_Limit := 1\<rparr>) =
       Inr (zero_QuerySpec\<lparr>qs_Limit := 1, qs_MaxDepth := 10\<rparr>, st)
     \<and> map res_Object (st_Objects st) = [Some ''x''] \<and> st_Incomplete st"
proof -
  let ?s = "zero_QuerySpec\<lparr>qs_Limit := 1, qs_MaxDepth := 10\<rparr>" and ?rs = "[example_row ''.pod.ns/p'' 0 ''x'']"
  have v: "Validate (zero_QuerySpec\<lparr>qs_Limit := 1\<rparr>) = Inr ?s"
    by (simp add: Validate_eq zero_QuerySpec_def with_defaults_def page_ok_def)
  have o1: "relationsOf (qs_Objects ?s) = []" "\<not> qs_Count ?s" by (simp_all add: zero_QuerySpec_def relationsOf_def)
  obtain gen where g: "Generate (eng_generator (example_engine ?rs)) ?s = Inr gen"
    using Generate_returns [of ?s] by (auto simp: zero_QuerySpec_def)
  have d: "db_rows (eng_store (example_engine ?rs)) (gq_SQL gen) (gq_Args gen) = Inr (clean_rows ?rs)"
    by (simp add: example_engine_def NewEngine_def)
  from Execute_flat [OF v o1 g d] show ?thesis
    by (auto simp: rowToResult_eq rowResult_def rowObject_def example_row_def zero_QuerySpec_def)
qed


lemma example_Execute:
  "\<exists>st. Execute (example_engine rs) (zero_QuerySpec\<lparr>qs_Cursor := b\<rparr>) =
     Inr (with_defaults (zero_QuerySpec\<lparr>qs_Cursor := b\<rparr>), st) \<and>
     cursorStatus (with_defaults (zero_QuerySpec\<lparr>qs_Cursor := b\<rparr>)) (take 10000 rs) = Inr (st_Cursor st)"
proof -
  let ?s = "with_defaults (zero_QuerySpec\<lparr>qs_Cursor := b\<rparr>)"
  have v: "Validate (zero_QuerySpec\<lparr>qs_Cursor := b\<rparr>) = Inr ?s"
    by (simp add: Validate_eq zero_QuerySpec_def page_ok_def)
  have s: "relationsOf (qs_Objects ?s) = []" "\<not> qs_Count ?s" "qs_Limit ?s \<noteq> 0"
    by (simp_all add: with_defaults_def zero_QuerySpec_def relationsOf_def)
  obtain gen where g: "Generate (eng_generator (example_engine rs)) ?s = Inr gen"
    using Generate_returns [of ?s] by (auto simp: with_defaults_def zero_QuerySpec_def)
  have "\<not> gq_HasRelations gen" using Generate_flag [OF g] s(1) by simp
  moreover obtain c where "cursorStatus ?s (take 10000 rs) = Inr c" using cursorStatus_ok [OF s(3)] by blast
  moreover have "db_rows (eng_store (example_engine rs)) (gq_SQL gen) (gq_Args gen) = Inr (clean_rows rs)"
    by (simp add: example_engine_def NewEngine_def)
  ultimately show ?thesis using v g s(2)
    by (simp add: Execute_def executeFlat_def scanFlatRows_clean countStatus_def Let_def wrap_def)
qed

text \<open>C34. The size of an answer is bounded: if every row the database returns has a path, as
  the generated path expression starts with a dot, an answer holds at most 10000 objects,
  at all levels together.\<close>

theorem Execute_bounded:
  assumes "Execute e spec = Inr (spec', st)"
    and "\<forall>sql args rows r. db_rows (eng_store e) sql args = Inr rows \<longrightarrow> Inr r \<in> set (rows_scans rows) \<longrightarrow>
      fr_Path r \<noteq> []"
  shows "length (concat (map res_objects (st_Objects st))) \<le> 10000"
proof -
  from assms(1) obtain gen :: GeneratedQuery and rows rs t
    where g: "db_rows (eng_store e) (gq_SQL gen) (gq_Args gen) = Inr rows"
    "scanFlatRows rows MaxTotalRows = Inr (rs, t)"
    "if gq_HasRelations gen then AssembleTree rs spec' = Some (st_Objects st)
     else st_Objects st = map (\<lambda>r. rowToResult r (qs_Objects spec')) rs"
    by (rule Execute_Inr) (rule that)
  from g(2) have scan: "scanLoop MaxTotalRows (rows_scans rows) [] = Inr (rs, t)" by (simp add: scanFlatRows_Inr)
  have len: "length rs \<le> 10000" using scanLoop_length [OF scan] by (simp add: MaxTotalRows_def)
  have "fr_Path r \<noteq> []" if "r \<in> set rs" for r
  proof -
    from scanLoop_rows [OF scan] obtain k where k: "map Inr rs = take k (rows_scans rows)" by auto
    have "(Inr r :: flatRow result) \<in> set (map Inr rs)" using that by simp
    then have "Inr r \<in> set (rows_scans rows)" unfolding k by (rule in_set_takeD)
    with assms(2) g(1) show ?thesis by blast
  qed
  then have pf: "parents_first rs" by (intro paths_parents_first) blast
  show ?thesis
  proof (cases "gq_HasRelations gen")
    case True
    with g(3) have "mset (concat (map res_objects (st_Objects st))) \<subseteq># mset (map rowObject rs)"
      using AssembleTree_sub [OF pf] by simp
    from size_mset_mono [OF this] len show ?thesis by (metis length_map order_trans size_mset)
  next
    case False
    with g(3) have "concat (map res_objects (st_Objects st)) = map rowObject rs"
      by (simp add: rowToResult_eq rowResult_objects comp_def)
    with len show ?thesis by simp
  qed
qed

theorem Execute_bounded_witness:
  "\<exists>st. Execute (example_engine example_rows) zero_QuerySpec = Inr (with_defaults zero_QuerySpec, st) \<and>
     length (concat (map res_objects (st_Objects st))) \<le> 10000"
proof -
  let ?e = "example_engine example_rows" and ?s = "with_defaults zero_QuerySpec"
  have "zero_QuerySpec\<lparr>qs_Cursor := False\<rparr> = zero_QuerySpec" by (simp add: zero_QuerySpec_def)
  then obtain st where st: "Execute ?e zero_QuerySpec = Inr (?s, st)"
    using example_Execute [of example_rows False] by auto
  have "\<forall>sql args rows r. db_rows (eng_store ?e) sql args = Inr rows \<longrightarrow> Inr r \<in> set (rows_scans rows) \<longrightarrow>
      fr_Path r \<noteq> []"
    by (auto simp: example_engine_def NewEngine_def clean_rows_def example_rows_def example_row_def)
  from Execute_bounded [OF st this] st show ?thesis by blast
qed

text \<open>The fields that a page is sorted by, and the value that a row has in a field.\<close>

definition sort_fields :: "OrderSpec list \<Rightarrow> string list" where
  "sort_fields ords =
     (let fs = (if ords = [] then [''name''] else map ord_Field ords)
      in fs @ filter (\<lambda>f. f \<notin> set fs) [''namespace'', ''name''])"

definition sort_value :: "flatRow \<Rightarrow> string \<Rightarrow> string" where
  "sort_value r f =
     (if f = ''name'' then fr_Name r else if f = ''namespace'' then fr_Namespace r
      else if f = ''kind'' then fr_Kind r else if f = ''apiGroup'' then fr_APIGroup r
      else if f = ''cluster'' then fr_Cluster r
      else if f = ''creationTimestamp'' then (case fr_CreationTS r of None \<Rightarrow> [] | Some t \<Rightarrow> RFC3339 t) else [])"

lemma cursorOrder_fields: "map ord_Field (cursorOrder ords) = sort_fields ords"
proof -
  have "list_ex (\<lambda>ord. ord_Field ord = f) ords \<longleftrightarrow> f \<in> ord_Field ` set ords" for f by (auto simp: list_ex_iff)
  then show ?thesis by (simp add: cursorOrder_def sort_fields_def)
qed

lemma cursorRow_values: "map_get (cursorRow r) f = sort_value r f"
  by (simp add: cursorRow_def sort_value_def map_get_def split: option.split)

text \<open>C30. A page starts where the last one ended: with the token of an answer as cursor, the
  cursor clause of the next query binds, for the sort fields of the query followed by namespace and
  name where these are not among them, the values of the last root row of that answer: its name,
  namespace, kind, group, cluster or creation time, the empty text if it has none.\<close>

theorem cursor_resumes:
  assumes "Execute e spec = Inr (spec', st)" and "st_Cursor st = Some c"
    and "page = spec'\<lparr>qs_Page := Some \<lparr>pg_First = n, pg_Cursor = cr_Next c\<rparr>\<rparr>"
  shows "\<exists>gen rows rs t r. Generate (eng_generator e) spec' = Inr gen
    \<and> db_rows (eng_store e) (gq_SQL gen) (gq_Args gen) = Inr rows
    \<and> scanFlatRows rows MaxTotalRows = Inr (rs, t) \<and> find (\<lambda>r. fr_Level r = 0) (rev rs) = Some r
    \<and> snd (buildCursorFilter page) = map (\<lambda>f. ArgString (sort_value r f)) (sort_fields (qs_Order spec'))"
proof -
  from assms(1) obtain gen rows rs t where g: "Generate (eng_generator e) spec' = Inr gen"
    "db_rows (eng_store e) (gq_SQL gen) (gq_Args gen) = Inr rows"
    "scanFlatRows rows MaxTotalRows = Inr (rs, t)" "cursorStatus spec' rs = Inr (st_Cursor st)"
    by (rule Execute_Inr) (rule that)
  from g(4) assms(2) obtain r where r: "find (\<lambda>r. fr_Level r = 0) (rev rs) = Some r"
    "cr_Next c = BuildCursorToken (cursorRow r)"
    by (auto simp: cursorStatus_def ExtractLastRowForCursor_def andthen_Inr_iff split: option.splits if_splits)
  have "distinct (map fst (cursorRow r))" by (simp add: cursorRow_def split: option.split)
  from buildCursorFilter_token [OF this, of page "\<lparr>pg_First = n, pg_Cursor = cr_Next c\<rparr>"]
  have "snd (buildCursorFilter page) =
      map (\<lambda>ord. ArgString (map_get (cursorRow r) (ord_Field ord))) (cursorOrder (qs_Order spec'))"
    by (simp add: assms(3) r(2))
  also have "\<dots> = map (\<lambda>f. ArgString (sort_value r f)) (map ord_Field (cursorOrder (qs_Order spec')))"
    by (simp add: cursorRow_values)
  finally show ?thesis
    using g(1-3) r(1) by (intro exI [of _ gen] exI [of _ rows] exI [of _ rs] exI [of _ t] exI [of _ r]) (simp add: cursorOrder_fields)
qed

theorem cursor_resumes_witness:
  "\<exists>st c. Execute (example_engine [(example_row ''.pod.ns/p'' 0 ''x'')\<lparr>fr_Name := ''p'', fr_Namespace := ''ns''\<rparr>])
         (zero_QuerySpec\<lparr>qs_Cursor := True\<rparr>) = Inr (with_defaults (zero_QuerySpec\<lparr>qs_Cursor := True\<rparr>), st)
     \<and> st_Cursor st = Some c
     \<and> snd (buildCursorFilter ((with_defaults (zero_QuerySpec\<lparr>qs_Cursor := True\<rparr>))
          \<lparr>qs_Page := Some \<lparr>pg_First = 0, pg_Cursor = cr_Next c\<rparr>\<rparr>)) = [ArgString ''p'', ArgString ''ns'']"
proof -
  let ?s = "with_defaults (zero_QuerySpec\<lparr>qs_Cursor := True\<rparr>)"
  let ?r = "(example_row ''.pod.ns/p'' 0 ''x'')\<lparr>fr_Name := ''p'', fr_Namespace := ''ns''\<rparr>"
  obtain st where st: "Execute (example_engine [?r]) (zero_QuerySpec\<lparr>qs_Cursor := True\<rparr>) = Inr (?s, st)"
    and cs: "cursorStatus ?s (take 10000 [?r]) = Inr (st_Cursor st)"
    using example_Execute [of "[?r]" True] by auto
  have "\<exists>c. st_Cursor st = Some c"
    using cs by (auto simp: cursorStatus_def ExtractLastRowForCursor_def example_row_def
        with_defaults_def zero_QuerySpec_def intro: sym)
  then obtain c where c: "st_Cursor st = Some c" by blast
  have o: "sort_fields (qs_Order ?s) = [''name'', ''namespace'']" by (simp add: with_defaults_def zero_QuerySpec_def sort_fields_def)
  have "snd (buildCursorFilter (?s\<lparr>qs_Page := Some \<lparr>pg_First = 0, pg_Cursor = cr_Next c\<rparr>\<rparr>)) = [ArgString ''p'', ArgString ''ns'']"
    using cursor_resumes [OF st c refl, of 0] unfolding o
    by (auto simp: sort_value_def example_engine_def NewEngine_def scanFlatRows_clean example_row_def)
  with st c show ?thesis by blast
qed

text \<open>The handler answers with the query it ran: a successful POST returns the spec with
  its defaults filled in and the status that \<open>Execute\<close> computed for it, and a query that
  admission rejects is not executed.\<close>

theorem Create_returns_query:
  "Create e v q =
     (case (case v of None \<Rightarrow> None | Some f \<Rightarrow> f q) of
        Some err \<Rightarrow> Inl err
      | None \<Rightarrow> (case Execute e (q_Spec q) of
          Inl err \<Rightarrow> Inl err
        | Inr (s, st) \<Rightarrow> Inr \<lparr>q_Spec = with_defaults (q_Spec q), q_Status = st\<rparr>))"
proof -
  have "s = with_defaults (q_Spec q)" if "Execute e (q_Spec q) = Inr (s, st)" for s st
    using that by (rule Execute_Inr) (simp add: Validate_Inr_iff)
  then show ?thesis by (auto simp: Create_def andthen_def split: option.split sum.split)
qed

end
