(* ===== verification/Go_Marshal.thy ===== *)
theory Go_Marshal
  imports Go_Json
begin

text \<open>
  \<open>json.Marshal\<close> of arbitrary JSON values: the objects, label maps and conditions that the
  sync writes to the database. Object members are printed in the order of their keys, and
  a number that has no JSON text (a NaN or an infinity of a \<open>float64\<close>) is the encoder's
  error. The main lemma decodes what was encoded, up to the order of members.
\<close>

definition number_text :: "string \<Rightarrow> bool" where
  "number_text s \<longleftrightarrow> pnum s = Some (s, [])"

fun printable :: "json \<Rightarrow> bool" where
  "printable (JNum s) = number_text s"
| "printable (JArr js) = list_all printable js"
| "printable (JObj kvs) = list_all (\<lambda>p. printable (snd p)) kvs"
| "printable _ = True"

fun marshal :: "json \<Rightarrow> string" where
  "marshal JNull = ''null''"
| "marshal (JBool b) = (if b then ''true'' else ''false'')"
| "marshal (JNum s) = s"
| "marshal (JStr s) = marshal_string s"
| "marshal (JArr js) = ''['' @ Join (map marshal js) '','' @ '']''"
| "marshal (JObj kvs) =
     ''{'' @ Join (map (\<lambda>p. marshal_string (fst p) @ '':'' @ snd p)
                   (sort_key fst (map (\<lambda>p. (fst p, marshal (snd p))) kvs))) '','' @ ''}''"

definition Marshal :: "json \<Rightarrow> string result" where
  "Marshal j = (if printable j then Inr (marshal j) else Inl (ExternalError ''json: unsupported value''))"

text \<open>A value with the members of every object in the order of their keys.\<close>

fun canonical :: "json \<Rightarrow> json" where
  "canonical (JArr js) = JArr (map canonical js)"
| "canonical (JObj kvs) = JObj (sort_key fst (map (\<lambda>p. (fst p, canonical (snd p))) kvs))"
| "canonical j = j"

subsection \<open>Sorting keeps the values with their keys\<close>

lemma insort_key_map_snd:
  "insort_key fst (k, f v) (map (\<lambda>p. (fst p, f (snd p))) kvs) = map (\<lambda>p. (fst p, f (snd p))) (insort_key fst (k, v) kvs)"
  by (induction kvs) auto

lemma sort_key_map_snd:
  "sort_key fst (map (\<lambda>p. (fst p, f (snd p))) kvs) = map (\<lambda>p. (fst p, f (snd p))) (sort_key fst kvs)"
  by (induction kvs) (auto simp: insort_key_map_snd)

definition marshal_member :: "string \<times> json \<Rightarrow> string" where
  "marshal_member p = marshal_string (fst p) @ '':'' @ marshal (snd p)"

lemma marshal_obj: "marshal (JObj kvs) = ''{'' @ Join (map marshal_member (sort_key fst kvs)) '','' @ ''}''"
  by (simp add: sort_key_map_snd comp_def marshal_member_def [abs_def])

subsection \<open>Numbers end at a delimiter\<close>

definition delim :: "string \<Rightarrow> bool" where
  "delim r \<longleftrightarrow> (case r of [] \<Rightarrow> True | c # _ \<Rightarrow> c \<in> {CHR '','', CHR '']'', CHR ''}''})"

lemma delim_simps [simp]: "delim []" "delim (CHR '','' # r)" "delim (CHR '']'' # r)" "delim (CHR ''}'' # r)"
  by (simp_all add: delim_def)

lemma delim_not_digit: "delim (c # r) \<Longrightarrow> \<not> is_digit c \<and> c \<noteq> CHR ''.'' \<and> c \<noteq> CHR ''e'' \<and> c \<noteq> CHR ''E''"
  by (auto simp: delim_def is_digit_def)

lemma span_digits_delim:
  assumes "delim r"
  shows "span_digits (s @ r) = (fst (span_digits s), snd (span_digits s) @ r)"
proof -
  have "takeWhile is_digit r = [] \<and> dropWhile is_digit r = r"
    using assms by (cases r) (auto dest: delim_not_digit)
  then show ?thesis
    by (induction s) (auto simp: span_digits_def)
qed

lemma psign_delim: "s \<noteq> [] \<Longrightarrow> psign (s @ r) = (fst (psign s), snd (psign s) @ r)"
  by (cases s) (simp_all add: psign_def)

lemma pint_delim:
  assumes "delim r"
  shows "pint (s @ r) = (fst (pint s), snd (pint s) @ r)"
  using span_digits_delim [OF assms, of s]
  by (cases s) (auto simp: pint_def Let_def span_digits_def split: prod.splits)

lemma pfrac_delim:
  assumes "delim r"
  shows "pfrac (s @ r) = (fst (pfrac s), snd (pfrac s) @ r)"
proof (cases s)
  case Nil
  with assms show ?thesis by (cases r) (auto simp: pfrac_def dest: delim_not_digit)
next
  case (Cons c cs)
  then show ?thesis using span_digits_delim [OF assms, of cs] by (simp add: pfrac_def)
qed

lemma pexp_delim:
  assumes "delim r"
  shows "pexp (s @ r) = (fst (pexp s), snd (pexp s) @ r)"
proof (cases s)
  case Nil
  with assms show ?thesis by (cases r) (auto simp: pexp_def dest: delim_not_digit)
next
  case (Cons c cs)
  show ?thesis
  proof (cases cs)
    case Nil
    with Cons assms span_digits_delim [OF assms, of "[]"] show ?thesis
      by (cases r) (auto simp: pexp_def delim_def span_digits_def)
  next
    case (Cons x xs)
    with \<open>s = c # cs\<close> span_digits_delim [OF assms, of xs] span_digits_delim [OF assms, of cs] show ?thesis
      by (simp add: pexp_def)
  qed
qed

lemma pnum_delim:
  assumes "number_text s" "delim r"
  shows "pnum (s @ r) = Some (s, r)"
proof -
  have "s \<noteq> []" using assms(1) by (auto simp: number_text_def pnum_def psign_def pint_def span_digits_def)
  then show ?thesis
    using assms(1)
    by (auto simp: number_text_def pnum_def psign_delim pint_delim [OF assms(2)] pfrac_delim [OF assms(2)]
        pexp_delim [OF assms(2)] Let_def split: prod.splits if_splits)
qed

lemma number_head:
  assumes "number_text s"
  obtains c cs where "s = c # cs" "c = CHR ''-'' \<or> is_digit c"
proof -
  have "fst (pint (snd (psign s))) \<noteq> []"
    using assms by (auto simp: number_text_def pnum_def Let_def split: prod.splits if_splits)
  then obtain d ds where "snd (psign s) = d # ds" "is_digit d"
    by (cases "snd (psign s)") (auto simp: pint_def span_digits_def Let_def split: if_splits)
  with that show thesis
    by (cases s) (auto simp: psign_def split: if_splits)
qed

subsection \<open>Decoding an encoded value\<close>

text \<open>The first byte of an encoded value.\<close>

lemma marshal_head:
  assumes "printable j"
  shows "marshal j \<noteq> [] \<and> hd (marshal j) \<notin> set '' ]},:'' \<union> {CHR 0x09, CHR 0x0A, CHR 0x0D}"
proof (cases j)
  case (JNum s)
  with assms have "number_text s" by simp
  then obtain c cs where "s = c # cs" "c = CHR ''-'' \<or> is_digit c" by (rule number_head)
  with JNum show ?thesis by (auto simp: is_digit_def)
qed (simp_all add: marshal_string_def)

text \<open>Enough fuel decodes the text of \<open>j\<close> in front of a delimiter.\<close>

definition decodes :: "json \<Rightarrow> bool" where
  "decodes j \<longleftrightarrow> (\<exists>m. \<forall>n \<ge> m. \<forall>r. delim r \<longrightarrow> pval n (marshal j @ r) = Some (canonical j, r))"

lemma decodesE:
  assumes "decodes j"
  obtains m where "\<And>n r. m \<le> n \<Longrightarrow> delim r \<Longrightarrow> pval n (marshal j @ r) = Some (canonical j, r)"
  using assms unfolding decodes_def by blast

lemma decodes_number:
  assumes "number_text s" shows "decodes (JNum s)"
  unfolding decodes_def
proof (intro exI allI impI)
  fix n r assume n: "Suc 0 \<le> n" and r: "delim r"
  obtain c cs where s: "s = c # cs" "c = CHR ''-'' \<or> is_digit c" using assms by (rule number_head)
  then have "skip_ws (s @ r) = s @ r" by (auto simp: skip_ws_Cons is_digit_def)
  moreover have "pval (Suc k) (s @ r) = Some (JNum s, r)" if "skip_ws (s @ r) = s @ r" for k
    using s(2) pnum_delim [OF assms r] that
    by (auto simp: s(1) is_digit_def HasPrefix_def)
  ultimately show "pval n (marshal (JNum s) @ r) = Some (canonical (JNum s), r)"
    using n by (cases n) (auto simp del: pval.simps)
qed

lemma parr_decodes:
  assumes "js \<noteq> []" "\<forall>j \<in> set js. decodes j"
  shows "\<exists>m. \<forall>n \<ge> m. \<forall>r. parr n (Join (map marshal js) '','' @ CHR '']'' # r) = Some (map canonical js, r)"
  using assms
proof (induction js)
  case (Cons j js)
  then obtain m where m: "\<And>n r. m \<le> n \<Longrightarrow> delim r \<Longrightarrow> pval n (marshal j @ r) = Some (canonical j, r)"
    by (metis decodesE list.set_intros(1))
  show ?case
  proof (cases "js = []")
    case True
    have "parr (Suc n) (marshal j @ CHR '']'' # r) = Some ([canonical j], r)" if "m \<le> n" for n r
      using m [OF that, of "CHR '']'' # r"] by (simp add: skip_ws_Cons del: pval.simps)
    with True show ?thesis
      by (intro exI [of _ "Suc m"]) (auto simp: Suc_le_eq dest!: less_imp_Suc_add simp del: parr.simps)
  next
    case False
    with Cons obtain m' where m': "\<And>n r. m' \<le> n \<Longrightarrow>
        parr n (Join (map marshal js) '','' @ CHR '']'' # r) = Some (map canonical js, r)" by auto
    have "parr (Suc n) (marshal j @ CHR '','' # Join (map marshal js) '','' @ CHR '']'' # r) =
        Some (canonical j # map canonical js, r)" if "max m m' \<le> n" for n r
      using m [of n "CHR '','' # Join (map marshal js) '','' @ CHR '']'' # r"] m' [of n r] that
      by (simp add: skip_ws_Cons del: pval.simps)
    with False show ?thesis
      by (intro exI [of _ "Suc (max m m')"])
        (auto simp: Suc_le_eq Join_Cons dest!: less_imp_Suc_add simp del: parr.simps)
  qed
qed simp

lemma pobj_decodes:
  assumes "kvs \<noteq> []" "\<forall>p \<in> set kvs. decodes (snd p)"
  shows "\<exists>m. \<forall>n \<ge> m. \<forall>r. pobj n (Join (map marshal_member kvs) '','' @ CHR ''}'' # r) =
    Some (map (\<lambda>p. (fst p, canonical (snd p))) kvs, r)"
  using assms
proof (induction kvs)
  case (Cons p kvs)
  then obtain m where m: "\<And>n r. m \<le> n \<Longrightarrow> delim r \<Longrightarrow> pval n (marshal (snd p) @ r) = Some (canonical (snd p), r)"
    by (metis decodesE list.set_intros(1))
  show ?case
  proof (cases "kvs = []")
    case True
    have "pobj (Suc n) (marshal_member p @ CHR ''}'' # r) = Some ([(fst p, canonical (snd p))], r)" if "m \<le> n" for n r
      using m [OF that, of "CHR ''}'' # r"] by (simp add: skip_ws_Cons marshal_member_def del: pval.simps)
    with True show ?thesis
      by (intro exI [of _ "Suc m"]) (auto simp: Suc_le_eq dest!: less_imp_Suc_add simp del: pobj.simps)
  next
    case False
    with Cons obtain m' where m': "\<And>n r. m' \<le> n \<Longrightarrow> pobj n (Join (map marshal_member kvs) '','' @ CHR ''}'' # r) =
        Some (map (\<lambda>p. (fst p, canonical (snd p))) kvs, r)" by auto
    have "pobj (Suc n) (marshal_member p @ CHR '','' # Join (map marshal_member kvs) '','' @ CHR ''}'' # r) =
        Some ((fst p, canonical (snd p)) # map (\<lambda>p. (fst p, canonical (snd p))) kvs, r)" if "max m m' \<le> n" for n r
      using m [of n "CHR '','' # Join (map marshal_member kvs) '','' @ CHR ''}'' # r"] m' [of n r] that
      by (simp add: skip_ws_Cons marshal_member_def del: pval.simps)
    with False show ?thesis
      by (intro exI [of _ "Suc (max m m')"])
        (auto simp: Suc_le_eq Join_Cons dest!: less_imp_Suc_add simp del: pobj.simps)
  qed
qed simp

lemma decodesI: "(\<And>n r. m \<le> n \<Longrightarrow> delim r \<Longrightarrow> pval (Suc n) (marshal j @ r) = Some (canonical j, r)) \<Longrightarrow> decodes j"
  unfolding decodes_def
  by (intro exI [of _ "Suc m"]) (auto simp: Suc_le_eq dest!: less_imp_Suc_add simp del: pval.simps)

lemma Join_head: "js \<noteq> [] \<Longrightarrow> hd js \<noteq> [] \<Longrightarrow> \<exists>t. Join js sep = hd (hd js) # t"
  by (cases js; cases "hd js"; cases "tl js") auto

lemma decodes_arr:
  assumes "\<forall>j \<in> set js. decodes j \<and> printable j"
  shows "decodes (JArr js)"
proof (cases "js = []")
  case True
  then show ?thesis by (intro decodesI [of 0]) (simp add: skip_ws_Cons)
next
  case False
  then obtain m where m: "\<And>n r. m \<le> n \<Longrightarrow>
      parr n (Join (map marshal js) '','' @ CHR '']'' # r) = Some (map canonical js, r)"
    using parr_decodes [of js] assms by blast
  have "printable (hd js)" using assms False by simp
  then obtain c t where c: "Join (map marshal js) '','' = c # t" "c \<notin> set '' ]},:'' \<union> {CHR 0x09, CHR 0x0A, CHR 0x0D}"
    using Join_head [of "map marshal js" "'',''"] False marshal_head [of "hd js"] by (auto simp: hd_map)
  then have "skip_ws (c # t @ x) = c # t @ x" for x by (auto simp: skip_ws_Cons)
  with c m show ?thesis
    by (intro decodesI [of m]) (simp add: skip_ws_Cons)
qed

lemma decodes_obj:
  assumes "\<forall>p \<in> set kvs. decodes (snd p)"
  shows "decodes (JObj kvs)"
proof (cases "sort_key fst kvs = []")
  case True
  then have "kvs = []" by (metis length_0_conv length_sort)
  then show ?thesis by (intro decodesI [of 0]) (simp add: skip_ws_Cons)
next
  case False
  then obtain m where m: "\<And>n r. m \<le> n \<Longrightarrow>
      pobj n (Join (map marshal_member (sort_key fst kvs)) '','' @ CHR ''}'' # r) =
        Some (map (\<lambda>p. (fst p, canonical (snd p))) (sort_key fst kvs), r)"
    using pobj_decodes [of "sort_key fst kvs"] assms by auto
  have "hd (map marshal_member (sort_key fst kvs)) \<noteq> []"
    "hd (hd (map marshal_member (sort_key fst kvs))) = CHR 0x22"
    using False by (simp_all add: hd_map marshal_member_def marshal_string_def)
  then obtain t where t: "Join (map marshal_member (sort_key fst kvs)) '','' = CHR 0x22 # t"
    using Join_head [of "map marshal_member (sort_key fst kvs)" "'',''"] False by auto
  have "pval (Suc n) (marshal (JObj kvs) @ r) = Some (canonical (JObj kvs), r)" if "m \<le> n" for n r
    using m [OF that, of r] by (simp add: marshal_obj t skip_ws_Cons sort_key_map_snd del: marshal.simps)
  then show ?thesis by (rule decodesI)
qed

lemma printable_decodes: "printable j \<Longrightarrow> decodes j"
proof (induction j)
  case (JStr s)
  then show ?case by (intro decodesI [of 0]) (simp del: pval.simps)
next
  case (JArr js)
  then show ?case by (intro decodes_arr) (auto simp: list_all_iff)
next
  case (JObj kvs)
  then show ?case by (intro decodes_obj) (fastforce simp: list_all_iff snds.simps)
qed (auto intro!: decodesI [of 0] decodes_number simp: skip_ws_Cons HasPrefix_def)

text \<open>Decoding what was encoded gives the value back, its members in the order of their
  keys.\<close>

lemma Unmarshal_marshal:
  assumes "printable j"
  shows "Unmarshal (marshal j) = Some (canonical j)"
proof -
  let ?n = "2 * length (marshal j) + 2"
  obtain m where "\<forall>n \<ge> m. \<forall>r. delim r \<longrightarrow> pval n (marshal j @ r) = Some (canonical j, r)"
    using printable_decodes [OF assms] unfolding decodes_def by blast
  from this [rule_format, of "?n + m" "[]"] have "pval (?n + m) (marshal j) = Some (canonical j, [])" by simp
  with pval_fuel [of "marshal j" ?n m] have "pval ?n (marshal j) = Some (canonical j, [])" by simp
  then show ?thesis by (simp add: Unmarshal_def skip_ws_def del: pval.simps)
qed

lemma Unmarshal_Marshal: "Marshal j = Inr s \<Longrightarrow> Unmarshal s = Some (canonical j)"
  by (auto simp: Marshal_def Unmarshal_marshal split: if_splits)

end
