(* ===== verification/Sql_Fragment.thy ===== *)
theory Sql_Fragment
  imports Sql_Filters Go_Marshal
begin

text \<open>
  A fragment of SQL, large enough for the WHERE clauses of the object filters and the JOIN
  clauses of the relations in both dialects: expressions, conditions and joins as datatypes,
  each with its text, its bound values and its meaning. A condition has three truth values
  and can fail; a join maps the rows found so far to the rows found with one more table. The columns of an
  object and of a resource type are read from records.
\<close>

subsection \<open>Expressions and conditions\<close>

datatype sexpr =
    ECol string string
  | EExtract sexpr string
  | EArrow sexpr string
  | ELower sexpr
  | EParam sqlarg
  | EJsonb string
  | EField sexpr string
  | ELit string
  | ECoalesce sexpr sexpr
  | EKeyExtract sexpr string
  | EElem string
  | EUidArray sexpr
  | EParen sexpr
  | ECast sexpr

text \<open>A query for names: a scalar, the values of an expression over nested table functions,
  or a JSON path.\<close>

datatype nquery = NScalar sexpr | NEach sexpr "(sexpr \<times> string) list" | NPath sexpr string

datatype table_fun = JsonEach | ArrayElements

datatype spred =
    PEq sexpr sexpr
  | PGreater sexpr sexpr
  | PLess sexpr sexpr
  | PIn sexpr "sexpr list"
  | PNotIn sexpr "sexpr list"
  | PNull sexpr
  | PNotNull sexpr
  | PContains sexpr sexpr
  | PAnyOf sexpr sexpr
  | PAnd "spred list"
  | POr "spred list"
  | PGroup "spred list"
  | PEach sexpr string spred
  | PTypes string spred
  | PNeq sexpr sexpr
  | PInEach sexpr sexpr table_fun sexpr string
  | PNoneOf sexpr string spred
  | PEither spred spred
  | PNever
  | PInUnion sexpr "nquery list"
  | PInComma sexpr "sexpr list"
  | PRow bool "sexpr list" "sexpr list"

fun etext :: "sexpr \<Rightarrow> string" where
  "etext (ECol a c) = a @ ''.'' @ c"
| "etext (EExtract e p) = ''json_extract('' @ etext e @ '', '' @ [sq] @ p @ [sq] @ '')''"
| "etext (EArrow e k) = etext e @ ''->>'' @ [sq] @ k @ [sq]"
| "etext (ELower e) = ''lower('' @ etext e @ '')''"
| "etext (EParam a) = ''?''"
| "etext (EJsonb s) = ''?::jsonb''"
| "etext (EField e k) = etext e @ ''->'' @ [sq] @ k @ [sq]"
| "etext (ELit s) = [sq] @ s @ [sq]"
| "etext (ECoalesce a b) = ''COALESCE('' @ etext a @ '', '' @ etext b @ '')''"
| "etext (EKeyExtract e x) = ''json_extract('' @ etext e @ '', '' @ [sq] @ ''$.'' @ [sq] @ '' || '' @ x @ ''.key)''"
| "etext (EElem x) = x"
| "etext (EUidArray e) = ''jsonb_build_array(jsonb_build_object('' @ [sq] @ ''uid'' @ [sq] @ '', '' @ etext e @ ''))''"
| "etext (EParen e) = ''('' @ etext e @ '')''"
| "etext (ECast e) = ''('' @ etext e @ '')::jsonb''"

fun eargs :: "sexpr \<Rightarrow> sqlarg list" where
  "eargs (ECol a c) = []"
| "eargs (EExtract e p) = eargs e"
| "eargs (EArrow e k) = eargs e"
| "eargs (ELower e) = eargs e"
| "eargs (EParam a) = [a]"
| "eargs (EJsonb s) = [ArgString s]"
| "eargs (EField e k) = eargs e"
| "eargs (ELit s) = []"
| "eargs (ECoalesce a b) = eargs a @ eargs b"
| "eargs (EKeyExtract e x) = eargs e"
| "eargs (EElem x) = []"
| "eargs (EUidArray e) = eargs e"
| "eargs (EParen e) = eargs e"
| "eargs (ECast e) = eargs e"

primrec fun_name :: "table_fun \<Rightarrow> string" where
  "fun_name JsonEach = ''json_each''"
| "fun_name ArrayElements = ''jsonb_array_elements''"

primrec ntext :: "nquery \<Rightarrow> string" where
  "ntext (NScalar e) = ''SELECT '' @ etext e"
| "ntext (NEach e srcs) = ''SELECT '' @ etext e @ '' FROM '' @
     Join (map (\<lambda>(src, x). ''json_each('' @ etext src @ '') '' @ x) srcs) '', '' @ '' WHERE '' @ etext e @ '' IS NOT NULL''"
| "ntext (NPath e p) = ''SELECT v#>>'' @ [sq] @ ''{}'' @ [sq] @ '' FROM jsonb_path_query('' @ etext e @ '', '' @ [sq] @ p @ [sq] @ '') v''"

fun ptext :: "spred \<Rightarrow> string" where
  "ptext (PEq a b) = etext a @ '' = '' @ etext b"
| "ptext (PGreater a b) = etext a @ '' > '' @ etext b"
| "ptext (PLess a b) = etext a @ '' < '' @ etext b"
| "ptext (PIn e es) = etext e @ '' IN ('' @ Join (map etext es) '', '' @ '')''"
| "ptext (PNotIn e es) = etext e @ '' NOT IN ('' @ Join (map etext es) '', '' @ '')''"
| "ptext (PNull e) = etext e @ '' IS NULL''"
| "ptext (PNotNull e) = etext e @ '' IS NOT NULL''"
| "ptext (PContains a b) = etext a @ '' @> '' @ etext b"
| "ptext (PAnyOf a b) = etext a @ '' = ANY(ARRAY(SELECT jsonb_array_elements_text('' @ etext b @ '')))''"
| "ptext (PAnd ps) = Join (map ptext ps) '' AND ''"
| "ptext (POr ps) = ''('' @ Join (map ptext ps) '' OR '' @ '')''"
| "ptext (PGroup ps) = ''('' @ Join (map ptext ps) '' AND '' @ '')''"
| "ptext (PEach e x p) = ''EXISTS (SELECT 1 FROM json_each('' @ etext e @ '')'' @
     (if x = ''json_each'' then [] else '' '' @ x) @ '' WHERE '' @ ptext p @ '')''"
| "ptext (PTypes rt p) = ''EXISTS (SELECT 1 FROM resource_types '' @ rt @ '' WHERE '' @ ptext p @ '')''"
| "ptext (PNeq a b) = etext a @ '' != '' @ etext b"
| "ptext (PInEach a e f src x) = etext a @ '' IN (SELECT '' @ etext e @ '' FROM '' @ fun_name f @ ''('' @ etext src @ '') '' @ x @ '')''"
| "ptext (PNoneOf e x p) = ''NOT EXISTS (SELECT 1 FROM json_each('' @ etext e @ '') '' @ x @ '' WHERE '' @ ptext p @ '')''"
| "ptext (PEither p q) = ptext p @ '' OR '' @ ptext q"
| "ptext PNever = ''1=0''"
| "ptext (PInUnion e qs) = etext e @ '' IN ('' @ Join (map ntext qs) '' UNION ALL '' @ '')''"
| "ptext (PInComma e es) = etext e @ '' IN ('' @ Join (map etext es) '','' @ '')''"
| "ptext (PRow lt es fs) = ''('' @ Join (map etext es) '', '' @ '') '' @ (if lt then ''<'' else ''>'') @
     '' ('' @ Join (map etext fs) '', '' @ '')''"

fun pargs :: "spred \<Rightarrow> sqlarg list" where
  "pargs (PEq a b) = eargs a @ eargs b"
| "pargs (PGreater a b) = eargs a @ eargs b"
| "pargs (PLess a b) = eargs a @ eargs b"
| "pargs (PIn e es) = eargs e @ concat (map eargs es)"
| "pargs (PNotIn e es) = eargs e @ concat (map eargs es)"
| "pargs (PNull e) = eargs e"
| "pargs (PNotNull e) = eargs e"
| "pargs (PContains a b) = eargs a @ eargs b"
| "pargs (PAnyOf a b) = eargs a @ eargs b"
| "pargs (PAnd ps) = concat (map pargs ps)"
| "pargs (POr ps) = concat (map pargs ps)"
| "pargs (PGroup ps) = concat (map pargs ps)"
| "pargs (PEach e x p) = eargs e @ pargs p"
| "pargs (PTypes rt p) = pargs p"
| "pargs (PNeq a b) = eargs a @ eargs b"
| "pargs (PInEach a e f src x) = eargs a @ eargs e @ eargs src"
| "pargs (PNoneOf e x p) = eargs e @ pargs p"
| "pargs (PEither p q) = pargs p @ pargs q"
| "pargs PNever = []"
| "pargs (PInUnion e qs) = eargs e"
| "pargs (PInComma e es) = eargs e @ concat (map eargs es)"
| "pargs (PRow lt es fs) = concat (map eargs es) @ concat (map eargs fs)"

subsection \<open>Values\<close>

datatype sval = VNull | VStr string | VTime gotime | VJson json

type_synonym columns = "string \<Rightarrow> sval"
type_synonym row_env = "string \<Rightarrow> columns"

definition sql_scalar :: "json \<Rightarrow> sval" where
  "sql_scalar j = (case j of JNull \<Rightarrow> VNull | JStr s \<Rightarrow> VStr s | _ \<Rightarrow> VJson j)"

text \<open>The steps of a path of \<open>json_extract\<close> after the dollar sign: a dot and a member name,
  which ends at the next dot or bracket, or at the closing quote if it starts with one. Array
  steps and malformed paths are outside the fragment.\<close>

definition plain_char :: "char \<Rightarrow> bool" where
  "plain_char c \<longleftrightarrow> c \<noteq> CHR ''.'' \<and> c \<noteq> CHR ''[''"

lemma dropWhile_shorter: "dropWhile P u = x # v \<Longrightarrow> length v < length u"
  by (metis Suc_le_eq length_Cons length_dropWhile_le)

function path_steps :: "string \<Rightarrow> string list option" where
  "path_steps s =
     (case s of
        [] \<Rightarrow> Some []
      | c # t \<Rightarrow>
          if c \<noteq> CHR ''.'' then None
          else (case t of
                  [] \<Rightarrow> None
                | d # u \<Rightarrow>
                    if d = CHR 0x22 then
                      (case dropWhile (\<lambda>x. x \<noteq> CHR 0x22) u of
                         [] \<Rightarrow> None
                       | _ # v \<Rightarrow> map_option ((#) (takeWhile (\<lambda>x. x \<noteq> CHR 0x22) u)) (path_steps v))
                    else if \<not> plain_char d then None
                    else map_option ((#) (takeWhile plain_char t)) (path_steps (dropWhile plain_char t))))"
  by pat_completeness auto

termination
proof (relation "measure length")
  fix s t u :: string and c d x :: char and v
  assume "s = c # t" "t = d # u" "dropWhile (\<lambda>x. x \<noteq> CHR 0x22) u = x # v"
  then show "(v, s) \<in> measure length" using dropWhile_shorter [of "\<lambda>x. x \<noteq> CHR 0x22" u x v] by simp
next
  fix s t u :: string and c d :: char
  assume "s = c # t" "t = d # u"
  then show "(dropWhile plain_char t, s) \<in> measure length"
    using length_dropWhile_le [of plain_char t] by simp
qed simp

declare path_steps.simps [simp del]

fun walk :: "json \<Rightarrow> string list \<Rightarrow> json option" where
  "walk j [] = Some j"
| "walk (JObj kvs) (k # ks) = (case map_of kvs k of None \<Rightarrow> None | Some j \<Rightarrow> walk j ks)"
| "walk _ (k # ks) = None"

definition json_extract :: "sval \<Rightarrow> string \<Rightarrow> sval" where
  "json_extract v path =
     (case (v, path_steps (tl path)) of
        (VJson j, Some ks) \<Rightarrow> (case walk j ks of None \<Rightarrow> VNull | Some x \<Rightarrow> sql_scalar x)
      | _ \<Rightarrow> VNull)"

definition json_field :: "sval \<Rightarrow> string \<Rightarrow> json option" where
  "json_field v k = (case v of VJson (JObj kvs) \<Rightarrow> map_of kvs k | _ \<Rightarrow> None)"

text \<open>The JSON value that a table function reads: a document, or a text that is parsed.\<close>

definition document :: "sval \<Rightarrow> json option" where
  "document v = (case v of VJson j \<Rightarrow> Some j | VStr s \<Rightarrow> Unmarshal s | _ \<Rightarrow> None)"

fun eeval :: "row_env \<Rightarrow> sexpr \<Rightarrow> sval" where
  "eeval env (ECol a c) = env a c"
| "eeval env (EExtract e p) = json_extract (eeval env e) p"
| "eeval env (EArrow e k) = (case json_field (eeval env e) k of None \<Rightarrow> VNull | Some j \<Rightarrow> sql_scalar j)"
| "eeval env (ELower e) = (case eeval env e of VStr s \<Rightarrow> VStr (ToLower s) | _ \<Rightarrow> VNull)"
| "eeval env (EParam a) = (case a of ArgString s \<Rightarrow> VStr s | ArgTime t \<Rightarrow> VTime t)"
| "eeval env (EJsonb s) = (case Unmarshal s of None \<Rightarrow> VNull | Some j \<Rightarrow> VJson j)"
| "eeval env (EField e k) = (case json_field (eeval env e) k of None \<Rightarrow> VNull | Some j \<Rightarrow> VJson j)"
| "eeval env (ELit s) = VStr s"
| "eeval env (ECoalesce a b) = (if eeval env a = VNull then eeval env b else eeval env a)"
| "eeval env (EKeyExtract e x) = (case env x ''key'' of VStr k \<Rightarrow> json_extract (eeval env e) (''$.'' @ k) | _ \<Rightarrow> VNull)"
| "eeval env (EElem x) = env x ''value''"
| "eeval env (EUidArray e) =
     (case eeval env e of VStr u \<Rightarrow> VJson (JArr [JObj [(''uid'', JStr u)]]) | _ \<Rightarrow> VJson (JArr [JObj [(''uid'', JNull)]]))"
| "eeval env (EParen e) = eeval env e"
| "eeval env (ECast e) = (case document (eeval env e) of None \<Rightarrow> VNull | Some j \<Rightarrow> VJson j)"

subsection \<open>Truth\<close>

definition sql_eq :: "sval \<Rightarrow> sval \<Rightarrow> bool option" where
  "sql_eq v w = (if v = VNull \<or> w = VNull then None else Some (v = w))"

text \<open>Texts are compared byte by byte.\<close>

definition sql_less :: "sval \<Rightarrow> sval \<Rightarrow> bool option" where
  "sql_less v w = (case (v, w) of (VTime a, VTime b) \<Rightarrow> Some (a < b) | (VStr a, VStr b) \<Rightarrow> Some (a < b) | _ \<Rightarrow> None)"

text \<open>Rows of values are compared at the first pair that is not known to be equal.\<close>

fun row_less :: "(sval \<times> sval) list \<Rightarrow> bool option" where
  "row_less [] = Some False"
| "row_less ((v, w) # ps) = (if sql_eq v w = Some True then row_less ps else sql_less v w)"

definition sql_and :: "bool option list \<Rightarrow> bool option" where
  "sql_and bs = (if Some False \<in> set bs then Some False else if None \<in> set bs then None else Some True)"

definition sql_or :: "bool option list \<Rightarrow> bool option" where
  "sql_or bs = (if Some True \<in> set bs then Some True else if None \<in> set bs then None else Some False)"

definition sql_not :: "bool option \<Rightarrow> bool option" where
  "sql_not b = map_option Not b"

text \<open>Containment of JSON values, the operator \<open>@>\<close>.\<close>

fun contains :: "json \<Rightarrow> json \<Rightarrow> bool" where
  "contains a (JObj kvs) =
     (case a of JObj ks \<Rightarrow> list_all (\<lambda>p. case map_of ks (fst p) of None \<Rightarrow> False | Some x \<Rightarrow> contains x (snd p)) kvs | _ \<Rightarrow> False)"
| "contains a (JArr js) = (case a of JArr xs \<Rightarrow> list_all (\<lambda>j. list_ex (\<lambda>x. contains x j) xs) js | _ \<Rightarrow> False)"
| "contains a b = (a = b)"

definition elements :: "sval \<Rightarrow> json list" where
  "elements v = (case v of VJson (JArr js) \<Rightarrow> js | _ \<Rightarrow> [])"

text \<open>The rows of a table function. \<open>json_each\<close> has a row for each member of an object and
  each element of an array, and one for a scalar; \<open>jsonb_array_elements\<close> takes arrays only and
  fails for other documents.\<close>

definition entry :: "sval \<Rightarrow> json \<Rightarrow> columns" where
  "entry k j = (\<lambda>c. if c = ''value'' then sql_scalar j else if c = ''key'' then k else VNull)"

primrec fun_rows :: "table_fun \<Rightarrow> sval \<Rightarrow> columns list" where
  "fun_rows JsonEach v =
     (case document v of
        None \<Rightarrow> []
      | Some j \<Rightarrow> (case j of
            JArr js \<Rightarrow> map (entry VNull) js
          | JObj kvs \<Rightarrow> map (\<lambda>(k, j). entry (VStr k) j) kvs
          | _ \<Rightarrow> [entry VNull j]))"
| "fun_rows ArrayElements v = map (entry VNull) (elements v)"

lemma document_simps [simp]: "document (VJson j) = Some j" "document VNull = None" "document (VStr s) = Unmarshal s"
  by (simp_all add: document_def)

lemma entry_simps [simp]: "entry k j ''value'' = sql_scalar j" "entry k j ''key'' = k"
  by (simp_all add: entry_def)

lemma fun_rows_simps [simp]:
  "fun_rows JsonEach (VJson (JArr js)) = map (entry VNull) js"
  "fun_rows JsonEach (VJson (JObj kvs)) = map (\<lambda>(k, j). entry (VStr k) j) kvs"
  "fun_rows JsonEach VNull = []"
  "fun_rows ArrayElements (VJson (JArr js)) = map (entry VNull) js"
  "fun_rows ArrayElements VNull = []"
  by (simp_all add: elements_def)

declare fun_rows.simps [simp del]

primrec fun_fails :: "table_fun \<Rightarrow> sval \<Rightarrow> bool" where
  "fun_fails JsonEach v = (v \<noteq> VNull \<and> document v = None)"
| "fun_fails ArrayElements v = (case v of VNull \<Rightarrow> False | VJson (JArr js) \<Rightarrow> False | _ \<Rightarrow> True)"

text \<open>A JSON path in lax mode: a member of an array is looked for in its elements, and
  \<open>[*]\<close> keeps a value that is no array.\<close>

datatype jstep = Member string | Each

definition each_step :: string where "each_step = ''[*]''"

fun path_names :: "string list \<Rightarrow> jstep list" where
  "path_names [] = []"
| "path_names (s # ss) =
     (if HasSuffix s each_step then [Member (TrimSuffix s each_step), Each] else [Member s]) @ path_names ss"

definition jpath_steps :: "string \<Rightarrow> jstep list" where
  "jpath_steps p = path_names (tl (Split p (CHR ''.'')))"

fun member_of :: "string \<Rightarrow> json \<Rightarrow> json list" where
  "member_of k (JObj kvs) = (case map_of kvs k of None \<Rightarrow> [] | Some j \<Rightarrow> [j])"
| "member_of k (JArr js) = concat (map (\<lambda>j. case j of JObj kvs \<Rightarrow> (case map_of kvs k of None \<Rightarrow> [] | Some x \<Rightarrow> [x]) | _ \<Rightarrow> []) js)"
| "member_of k _ = []"

fun step_values :: "jstep \<Rightarrow> json \<Rightarrow> json list" where
  "step_values (Member k) j = member_of k j"
| "step_values Each (JArr js) = js"
| "step_values Each j = [j]"

fun jpath_values :: "jstep list \<Rightarrow> json \<Rightarrow> json list" where
  "jpath_values [] j = [j]"
| "jpath_values (s # ss) j = concat (map (jpath_values ss) (step_values s j))"

fun each_envs :: "(sexpr \<times> string) list \<Rightarrow> row_env \<Rightarrow> row_env list" where
  "each_envs [] env = [env]"
| "each_envs ((src, x) # ss) env = concat (map (\<lambda>r. each_envs ss (env(x := r))) (fun_rows JsonEach (eeval env src)))"

primrec nvals :: "row_env \<Rightarrow> nquery \<Rightarrow> sval list" where
  "nvals env (NScalar e) = [eeval env e]"
| "nvals env (NEach e srcs) = filter (\<lambda>v. v \<noteq> VNull) (map (\<lambda>en. eeval en e) (each_envs srcs env))"
| "nvals env (NPath e p) =
     (case eeval env e of VJson j \<Rightarrow> map sql_scalar (jpath_values (jpath_steps p) j) | _ \<Rightarrow> [])"

fun peval :: "columns list \<Rightarrow> row_env \<Rightarrow> spred \<Rightarrow> bool option" where
  "peval types env (PEq a b) = sql_eq (eeval env a) (eeval env b)"
| "peval types env (PGreater a b) = sql_less (eeval env b) (eeval env a)"
| "peval types env (PLess a b) = sql_less (eeval env a) (eeval env b)"
| "peval types env (PIn e es) = sql_or (map (\<lambda>x. sql_eq (eeval env e) (eeval env x)) es)"
| "peval types env (PNotIn e es) = sql_not (sql_or (map (\<lambda>x. sql_eq (eeval env e) (eeval env x)) es))"
| "peval types env (PNull e) = Some (eeval env e = VNull)"
| "peval types env (PNotNull e) = Some (eeval env e \<noteq> VNull)"
| "peval types env (PContains a b) =
     (case (eeval env a, eeval env b) of (VJson x, VJson y) \<Rightarrow> Some (contains x y) | _ \<Rightarrow> None)"
| "peval types env (PAnyOf a b) = sql_or (map (\<lambda>j. sql_eq (eeval env a) (sql_scalar j)) (elements (eeval env b)))"
| "peval types env (PAnd ps) = sql_and (map (peval types env) ps)"
| "peval types env (POr ps) = sql_or (map (peval types env) ps)"
| "peval types env (PGroup ps) = sql_and (map (peval types env) ps)"
| "peval types env (PEach e x p) =
     Some (list_ex (\<lambda>r. peval types (env(x := r)) p = Some True) (fun_rows JsonEach (eeval env e)))"
| "peval types env (PTypes rt p) = Some (list_ex (\<lambda>t. peval types (env(rt := t)) p = Some True) types)"
| "peval types env (PNeq a b) = sql_not (sql_eq (eeval env a) (eeval env b))"
| "peval types env (PInEach a e f src x) =
     sql_or (map (\<lambda>r. sql_eq (eeval env a) (eeval (env(x := r)) e)) (fun_rows f (eeval env src)))"
| "peval types env (PNoneOf e x p) =
     Some (\<not> list_ex (\<lambda>r. peval types (env(x := r)) p = Some True) (fun_rows JsonEach (eeval env e)))"
| "peval types env (PEither p q) = sql_or [peval types env p, peval types env q]"
| "peval types env PNever = Some False"
| "peval types env (PInUnion e qs) = sql_or (map (sql_eq (eeval env e)) (concat (map (nvals env) qs)))"
| "peval types env (PInComma e es) = sql_or (map (\<lambda>x. sql_eq (eeval env e) (eeval env x)) es)"
| "peval types env (PRow lt es fs) =
     row_less (if lt then zip (map (eeval env) es) (map (eeval env) fs) else zip (map (eeval env) fs) (map (eeval env) es))"

text \<open>A condition can fail when it applies a table function to a value that the function rejects, in
  whichever order the database evaluates its parts.\<close>

fun pred_fails :: "columns list \<Rightarrow> row_env \<Rightarrow> spred \<Rightarrow> bool" where
  "pred_fails types env (PInEach a e f src x) = fun_fails f (eeval env src)"
| "pred_fails types env (PEach e x q) \<longleftrightarrow> fun_fails JsonEach (eeval env e) \<or>
     list_ex (\<lambda>r. pred_fails types (env(x := r)) q) (fun_rows JsonEach (eeval env e))"
| "pred_fails types env (PNoneOf e x q) \<longleftrightarrow> fun_fails JsonEach (eeval env e) \<or>
     list_ex (\<lambda>r. pred_fails types (env(x := r)) q) (fun_rows JsonEach (eeval env e))"
| "pred_fails types env (PTypes rt q) = list_ex (\<lambda>t. pred_fails types (env(rt := t)) q) types"
| "pred_fails types env (PAnyOf a b) = fun_fails ArrayElements (eeval env b)"
| "pred_fails types env (PAnd ps) = list_ex (pred_fails types env) ps"
| "pred_fails types env (POr ps) = list_ex (pred_fails types env) ps"
| "pred_fails types env (PGroup ps) = list_ex (pred_fails types env) ps"
| "pred_fails types env (PEither p q) \<longleftrightarrow> pred_fails types env p \<or> pred_fails types env q"
| "pred_fails types env q = False"

lemma list_ex_never [simp]: "\<not> list_ex (\<lambda>r. False) xs"
  by (simp add: list_ex_iff)

lemma sql_and_True [simp]: "sql_and bs = Some True \<longleftrightarrow> (\<forall>b \<in> set bs. b = Some True)"
  by (auto simp: sql_and_def) (metis (full_types) not_Some_eq)+

lemma sql_or_True [simp]: "sql_or bs = Some True \<longleftrightarrow> Some True \<in> set bs"
  by (auto simp: sql_or_def)

lemma sql_eq_True [simp]: "sql_eq v w = Some True \<longleftrightarrow> v = w \<and> v \<noteq> VNull"
  by (auto simp: sql_eq_def)

lemma sql_neq_True [simp]: "sql_not (sql_eq v w) = Some True \<longleftrightarrow> v \<noteq> w \<and> v \<noteq> VNull \<and> w \<noteq> VNull"
  by (auto simp: sql_eq_def sql_not_def)

lemma sql_True_sym [simp]:
  "Some True = sql_and bs \<longleftrightarrow> (\<forall>b \<in> set bs. b = Some True)" "Some True = sql_or bs \<longleftrightarrow> Some True \<in> set bs"
  "Some True = sql_eq v w \<longleftrightarrow> v = w \<and> v \<noteq> VNull"
  using sql_and_True [of bs] sql_or_True [of bs] sql_eq_True [of v w] by metis+

subsection \<open>Joins\<close>

datatype sjoin = JObjects string "spred list" | JEach sexpr string | JLateral sexpr string

primrec jtext :: "sjoin \<Rightarrow> string" where
  "jtext (JObjects a ps) = ''JOIN objects '' @ a @ '' ON '' @ ptext (PAnd ps)"
| "jtext (JEach e x) = ''JOIN json_each('' @ etext e @ '') '' @ x @ '' ON 1=1''"
| "jtext (JLateral e x) = ''JOIN LATERAL jsonb_array_elements('' @ etext e @ '') AS '' @ x @ '' ON true''"

primrec jargs :: "sjoin \<Rightarrow> sqlarg list" where
  "jargs (JObjects a ps) = pargs (PAnd ps)"
| "jargs (JEach e x) = eargs e"
| "jargs (JLateral e x) = eargs e"

text \<open>The rows of a join: every row so far, extended by every row of the new table that
  meets the condition.\<close>

primrec jrows :: "columns list \<Rightarrow> columns list \<Rightarrow> sjoin \<Rightarrow> row_env \<Rightarrow> row_env list" where
  "jrows types objs (JObjects a ps) env =
     filter (\<lambda>e. peval types e (PAnd ps) = Some True) (map (\<lambda>r. env(a := r)) objs)"
| "jrows types objs (JEach e x) env = map (\<lambda>r. env(x := r)) (fun_rows JsonEach (eeval env e))"
| "jrows types objs (JLateral e x) env = map (\<lambda>r. env(x := r)) (fun_rows ArrayElements (eeval env e))"

fun joins_rows :: "columns list \<Rightarrow> columns list \<Rightarrow> sjoin list \<Rightarrow> row_env \<Rightarrow> row_env list" where
  "joins_rows types objs [] env = [env]"
| "joins_rows types objs (j # js) env = concat (map (joins_rows types objs js) (jrows types objs j env))"

lemma joins_rows_append:
  "joins_rows types objs (js @ ks) env = concat (map (joins_rows types objs ks) (joins_rows types objs js env))"
proof (induction js arbitrary: env)
  case (Cons j js)
  have "concat (map f (concat xss)) = concat (map (\<lambda>xs. concat (map f xs)) xss)" for f :: "row_env \<Rightarrow> row_env list" and xss
    by (induction xss) simp_all
  moreover have "joins_rows types objs (js @ ks) = (\<lambda>e. concat (map (joins_rows types objs ks) (joins_rows types objs js e)))"
    by (rule ext) (rule Cons.IH)
  ultimately show ?case by (simp add: comp_def)
qed simp

subsection \<open>Rows of the tables\<close>

record sql_object =
  o_id :: string
  o_cluster :: string
  o_group :: string
  o_kind :: string
  o_namespace :: string
  o_name :: string
  o_uid :: string
  o_labels :: "string gomap option"
  o_annotations :: "string gomap option"
  o_ownerRefs :: "(string \<times> json) list list option"
  o_conditions :: "(string \<times> json) list list"
  o_created :: "gotime option"
  o_body :: "(string \<times> json) list"

record sql_type =
  t_cluster :: string
  t_group :: string
  t_kind :: string
  t_resource :: string
  t_singular :: string
  t_short :: "string list option"
  t_categories :: "string list option"

definition columns_of :: "(string \<times> sval) list \<Rightarrow> columns" where
  "columns_of cvs c = (case map_of cvs c of None \<Rightarrow> VNull | Some v \<Rightarrow> v)"

definition strings_json :: "string gomap option \<Rightarrow> json" where
  "strings_json m = (case m of None \<Rightarrow> JNull | Some kvs \<Rightarrow> JObj (map (\<lambda>p. (fst p, JStr (snd p))) kvs))"

definition refs_json :: "(string \<times> json) list list option \<Rightarrow> json" where
  "refs_json rs = (case rs of None \<Rightarrow> JNull | Some os \<Rightarrow> JArr (map JObj os))"

definition object_cols :: "sql_object \<Rightarrow> columns" where
  "object_cols x = columns_of
     [(''id'', VStr (o_id x)), (''cluster'', VStr (o_cluster x)), (''api_group'', VStr (o_group x)),
      (''kind'', VStr (o_kind x)), (''namespace'', VStr (o_namespace x)), (''name'', VStr (o_name x)),
      (''uid'', VStr (o_uid x)), (''labels'', VJson (strings_json (o_labels x))),
      (''annotations'', VJson (strings_json (o_annotations x))),
      (''owner_refs'', VJson (refs_json (o_ownerRefs x))),
      (''conditions'', VJson (JArr (map JObj (o_conditions x)))),
      (''creation_ts'', case o_created x of None \<Rightarrow> VNull | Some t \<Rightarrow> VTime t),
      (''object'', VJson (JObj (o_body x)))]"

text \<open>A slice of strings as JSON: a nil slice is the JSON null.\<close>

definition slice_json :: "string list option \<Rightarrow> json" where
  "slice_json ss = (case ss of None \<Rightarrow> JNull | Some xs \<Rightarrow> JArr (map JStr xs))"

definition type_cols :: "sql_type \<Rightarrow> columns" where
  "type_cols t = columns_of
     [(''cluster'', VStr (t_cluster t)), (''api_group'', VStr (t_group t)), (''kind'', VStr (t_kind t)),
      (''resource'', VStr (t_resource t)), (''singular'', VStr (t_singular t)),
      (''short_names'', VJson (slice_json (t_short t))), (''categories'', VJson (slice_json (t_categories t)))]"

definition o_label :: "sql_object \<Rightarrow> string \<Rightarrow> string option" where
  "o_label x k = Option.bind (o_labels x) (\<lambda>m. map_of m k)"

definition o_annotation :: "sql_object \<Rightarrow> string \<Rightarrow> string option" where
  "o_annotation x k = Option.bind (o_annotations x) (\<lambda>m. map_of m k)"

lemma object_cols_simps [simp]:
  "object_cols x ''id'' = VStr (o_id x)" "object_cols x ''cluster'' = VStr (o_cluster x)"
  "object_cols x ''api_group'' = VStr (o_group x)" "object_cols x ''kind'' = VStr (o_kind x)"
  "object_cols x ''namespace'' = VStr (o_namespace x)" "object_cols x ''name'' = VStr (o_name x)"
  "object_cols x ''uid'' = VStr (o_uid x)" "object_cols x ''labels'' = VJson (strings_json (o_labels x))"
  "object_cols x ''annotations'' = VJson (strings_json (o_annotations x))"
  "object_cols x ''owner_refs'' = VJson (refs_json (o_ownerRefs x))"
  "object_cols x ''conditions'' = VJson (JArr (map JObj (o_conditions x)))"
  "object_cols x ''creation_ts'' = (case o_created x of None \<Rightarrow> VNull | Some t \<Rightarrow> VTime t)"
  "object_cols x ''object'' = VJson (JObj (o_body x))"
  by (simp_all add: object_cols_def columns_of_def)

subsection \<open>Paths\<close>

text \<open>A member name that needs no quotes in a path.\<close>

definition path_key :: "string \<Rightarrow> bool" where
  "path_key k \<longleftrightarrow> k \<noteq> [] \<and> CHR 0x22 \<notin> set k \<and> list_all plain_char k"

lemma path_steps_Nil [simp]: "path_steps [] = Some []"
  by (simp add: path_steps.simps)

lemma path_steps_member:
  assumes "path_key k" and "r = [] \<or> hd r = CHR ''.''"
  shows "path_steps (CHR ''.'' # k @ r) = map_option ((#) k) (path_steps r)"
proof -
  obtain c cs where k: "k = c # cs" using assms(1) by (cases k) (auto simp: path_key_def)
  have p: "list_all plain_char k" "c \<noteq> CHR 0x22" using assms(1) k by (auto simp: path_key_def)
  have "takeWhile plain_char (k @ r) = k" "dropWhile plain_char (k @ r) = r"
    using p assms(2) by (cases r; auto simp: list_all_iff plain_char_def takeWhile_append dropWhile_append)+
  with k p show ?thesis by (subst path_steps.simps) (simp add: list_all_iff)
qed

lemma path_steps_quoted:
  assumes "CHR 0x22 \<notin> set k"
  shows "path_steps (CHR ''.'' # CHR 0x22 # k @ CHR 0x22 # r) = map_option ((#) k) (path_steps r)"
proof -
  have "takeWhile (\<lambda>x. x \<noteq> CHR 0x22) (k @ CHR 0x22 # r) = k" "dropWhile (\<lambda>x. x \<noteq> CHR 0x22) (k @ CHR 0x22 # r) = CHR 0x22 # r"
    using assms by (auto simp: takeWhile_append dropWhile_append)
  then show ?thesis by (subst path_steps.simps) simp
qed

lemma json_extract_VNull [simp]: "json_extract VNull p = VNull" "json_extract (VStr s) p = VNull" "json_extract (VTime t) p = VNull"
  by (simp_all add: json_extract_def)

lemma json_extract_member:
  assumes "path_key k"
  shows "json_extract (VJson j) (''$.'' @ k) = (case json_field (VJson j) k of None \<Rightarrow> VNull | Some x \<Rightarrow> sql_scalar x)"
  using path_steps_member [OF assms, of "[]"]
  by (cases j) (simp_all add: json_extract_def json_field_def split: option.split)

lemmas json_extract_simp = json_extract_member [simplified append_Cons append_Nil]

lemma json_extract_quoted:
  assumes "CHR 0x22 \<notin> set k"
  shows "json_extract (VJson j) (''$.'' @ CHR 0x22 # k @ [CHR 0x22]) =
    (case json_field (VJson j) k of None \<Rightarrow> VNull | Some x \<Rightarrow> sql_scalar x)"
  using path_steps_quoted [OF assms, of "[]"]
  by (cases j) (simp_all add: json_extract_def json_field_def split: option.split)

lemma map_of_JStr: "map_of (map (\<lambda>p. (fst p, JStr (snd p))) m) k = map_option JStr (map_of m k)"
  by (induction m) auto

lemma json_field_strings:
  "json_field (VJson (strings_json m)) k = map_option JStr (Option.bind m (\<lambda>kvs. map_of kvs k))"
  by (cases m) (simp_all add: json_field_def strings_json_def map_of_JStr)

lemma json_field_labels [simp]:
  "json_field (VJson (strings_json (o_labels x))) k = map_option JStr (o_label x k)"
  "json_field (VJson (strings_json (o_annotations x))) k = map_option JStr (o_annotation x k)"
  by (simp_all add: json_field_strings o_label_def o_annotation_def)

lemma sql_scalar_JStr [simp]: "sql_scalar (JStr s) = VStr s"
  by (simp add: sql_scalar_def)

lemma contains_strings:
  "contains (JObj kvs) (JObj (map (\<lambda>p. (fst p, JStr (snd p))) m)) \<longleftrightarrow> (\<forall>(k, v) \<in> set m. map_of kvs k = Some (JStr v))"
proof -
  have "contains a (JStr v) \<longleftrightarrow> a = JStr v" for a v by simp
  then show ?thesis by (auto simp: list_all_iff split: option.splits simp del: contains.simps(3))
qed

lemma contains_labels:
  assumes "m \<noteq> [] \<or> o_labels x \<noteq> None"
  shows "contains (strings_json (o_labels x)) (JObj (map (\<lambda>p. (fst p, JStr (snd p))) m)) \<longleftrightarrow>
    (\<forall>(k, v) \<in> set m. o_label x k = Some v)"
proof (cases "o_labels x")
  case None
  with assms show ?thesis by (cases m) (auto simp: strings_json_def o_label_def)
next
  case (Some kvs)
  then have "contains (strings_json (o_labels x)) (JObj (map (\<lambda>p. (fst p, JStr (snd p))) m)) \<longleftrightarrow>
      (\<forall>(k, v) \<in> set m. map_of (map (\<lambda>p. (fst p, JStr (snd p))) kvs) k = Some (JStr v))"
    by (simp only: strings_json_def option.case contains_strings)
  with Some show ?thesis by (simp add: o_label_def map_of_JStr)
qed

end
