(* ===== verification/Filter_Semantics.thy ===== *)
theory Filter_Semantics
  imports Sql_Fragment
begin

text \<open>
  What the clauses of an object filter select. Each clause that \<open>buildObjectFilterWithRT\<close>
  writes is the text of a condition of the fragment of \<open>Sql_Fragment\<close>, in both dialects, and
  the condition holds of an object exactly when the object meets the criterion of the filter.
\<close>

subsection \<open>Objects and criteria\<close>

definition type_of_object :: "sql_type \<Rightarrow> sql_object \<Rightarrow> bool" where
  "type_of_object t x \<longleftrightarrow> t_cluster t = o_cluster x \<and> t_group t = o_group x \<and> t_kind t = o_kind x"

text \<open>The values of a slice that may be nil.\<close>

definition values_of :: "string list option \<Rightarrow> string list" where
  "values_of ss = (case ss of None \<Rightarrow> [] | Some xs \<Rightarrow> xs)"

definition names_type :: "string \<Rightarrow> sql_type \<Rightarrow> bool" where
  "names_type v t \<longleftrightarrow> EqualFold (t_kind t) v \<or> EqualFold (t_resource t) v \<or> EqualFold (t_singular t) v \<or>
     ToLower v \<in> set (values_of (t_short t))"

definition meets_groupKind :: "sql_type list \<Rightarrow> sql_object \<Rightarrow> GroupKindFilter \<Rightarrow> bool" where
  "meets_groupKind types x gk \<longleftrightarrow>
     (gk_APIGroup gk \<noteq> [] \<longrightarrow> o_group x = gk_APIGroup gk) \<and>
     (gk_Kind gk \<noteq> [] \<longrightarrow> (\<exists>t \<in> set types. type_of_object t x \<and> names_type (gk_Kind gk) t))"

definition meets_condition :: "sql_object \<Rightarrow> ConditionFilter \<Rightarrow> bool" where
  "meets_condition x c \<longleftrightarrow> (\<exists>cd \<in> set (o_conditions x). map_of cd ''type'' = Some (JStr (cond_Type c)) \<and>
     (cond_Status c \<noteq> [] \<longrightarrow> map_of cd ''status'' = Some (JStr (cond_Status c))) \<and>
     (cond_Reason c \<noteq> [] \<longrightarrow> map_of cd ''reason'' = Some (JStr (cond_Reason c))))"

definition meets_expression :: "sql_object \<Rightarrow> LabelExpression \<Rightarrow> bool" where
  "meets_expression x e \<longleftrightarrow>
     (let v = o_label x (le_Key e) in
      if le_Operator e = LabelOpIn then (\<exists>w \<in> set (le_Values e). v = Some w)
      else if le_Operator e = LabelOpNotIn then (\<forall>w \<in> set (le_Values e). v \<noteq> Some w)
      else if le_Operator e = LabelOpExists then v \<noteq> None
      else if le_Operator e = LabelOpDoesNotExist then v = None else True)"

definition created_such :: "sql_object \<Rightarrow> (gotime \<Rightarrow> bool) \<Rightarrow> bool" where
  "created_such x P = (case o_created x of None \<Rightarrow> False | Some c \<Rightarrow> P c)"

definition meets_time :: "sql_object \<Rightarrow> TimestampFilter \<Rightarrow> bool" where
  "meets_time x ts \<longleftrightarrow>
     (case ts_After ts of None \<Rightarrow> True | Some t \<Rightarrow> created_such x (\<lambda>c. t < c)) \<and>
     (case ts_Before ts of None \<Rightarrow> True | Some t \<Rightarrow> created_such x (\<lambda>c. c < t))"

text \<open>All criteria of a filter; the last resort \<open>JSONPath\<close> is left to the database.\<close>

definition meets :: "sql_type list \<Rightarrow> sql_object \<Rightarrow> ObjectFilter \<Rightarrow> bool" where
  "meets types x f \<longleftrightarrow>
     (case of_GroupKind f of None \<Rightarrow> True | Some gk \<Rightarrow> meets_groupKind types x gk) \<and>
     (of_Name f \<noteq> [] \<longrightarrow> o_name x = of_Name f) \<and> (of_Namespace f \<noteq> [] \<longrightarrow> o_namespace x = of_Namespace f) \<and>
     (\<forall>(k, v) \<in> set (of_Labels f). o_label x k = Some v) \<and>
     (\<forall>c \<in> set (of_Conditions f). meets_condition x c) \<and>
     (case of_CreationTimestamp f of None \<Rightarrow> True | Some ts \<Rightarrow> meets_time x ts) \<and>
     (of_ID f \<noteq> [] \<longrightarrow> o_id x = of_ID f) \<and>
     (\<forall>c \<in> set (of_Categories f). \<exists>t \<in> set types. type_of_object t x \<and> c \<in> set (values_of (t_categories t))) \<and>
     (\<forall>e \<in> set (of_LabelExpressions f). meets_expression x e)"

subsection \<open>The clauses as conditions\<close>

abbreviation pg :: "Generator \<Rightarrow> bool" where "pg g \<equiv> gen_dialect g = ''postgres''"

abbreviation pstr_param :: "string \<Rightarrow> sexpr" where "pstr_param s \<equiv> EParam (ArgString s)"

definition typeJoin :: "string \<Rightarrow> string \<Rightarrow> spred list" where
  "typeJoin al rt = [PEq (ECol rt ''cluster'') (ECol al ''cluster''), PEq (ECol rt ''api_group'') (ECol al ''api_group''),
     PEq (ECol rt ''kind'') (ECol al ''kind'')]"

definition kindCond :: "Generator \<Rightarrow> string \<Rightarrow> string \<Rightarrow> string \<Rightarrow> spred" where
  "kindCond g al rt v = PTypes rt (PAnd (typeJoin al rt @
     [POr [PEq (ELower (ECol rt ''kind'')) (ELower (pstr_param v)), PEq (ELower (ECol rt ''resource'')) (ELower (pstr_param v)),
           PEq (ELower (ECol rt ''singular'')) (ELower (pstr_param v)),
           if pg g then PAnyOf (pstr_param (ToLower v)) (ECol rt ''short_names'')
           else PEach (ECol rt ''short_names'') ''json_each''
             (PEq (ECol ''json_each'' ''value'') (ELower (pstr_param (ToLower v))))]]))"

definition groupKindConds :: "Generator \<Rightarrow> GroupKindFilter option \<Rightarrow> string \<Rightarrow> string \<Rightarrow> spred list" where
  "groupKindConds g gko al rt =
     (case gko of None \<Rightarrow> []
      | Some gk \<Rightarrow>
          (if gk_APIGroup gk \<noteq> [] then [PEq (ECol al ''api_group'') (pstr_param (gk_APIGroup gk))] else []) @
          (if gk_Kind gk \<noteq> [] then [kindCond g al rt (gk_Kind gk)] else []))"

definition eqConds :: "string \<Rightarrow> string \<Rightarrow> string \<Rightarrow> spred list" where
  "eqConds al col v = (if v \<noteq> [] then [PEq (ECol al col) (pstr_param v)] else [])"

definition labelConds :: "Generator \<Rightarrow> string gomap \<Rightarrow> string \<Rightarrow> spred list" where
  "labelConds g labels al =
     (if labels = [] then []
      else if pg g then [PContains (ECol al ''labels'') (EJsonb (marshal_string_map labels))]
      else map (\<lambda>p. PEq (EExtract (ECol al ''labels'') (''$.'' @ fst p)) (pstr_param (snd p))) labels)"

definition conditionMembers :: "ConditionFilter \<Rightarrow> string gomap" where
  "conditionMembers c = [(''type'', cond_Type c)] @
     (if cond_Status c \<noteq> [] then [(''status'', cond_Status c)] else []) @
     (if cond_Reason c \<noteq> [] then [(''reason'', cond_Reason c)] else [])"

definition conditionCond :: "Generator \<Rightarrow> string \<Rightarrow> ConditionFilter \<Rightarrow> spred" where
  "conditionCond g al c =
     (if pg g then PContains (ECol al ''conditions'') (EJsonb (''['' @ marshal_string_map (conditionMembers c) @ '']''))
      else PEach (ECol al ''conditions'') ''je''
        (PAnd (map (\<lambda>p. PEq (EExtract (ECol ''je'' ''value'') (''$.'' @ fst p)) (pstr_param (snd p))) (conditionMembers c))))"

definition timeConds :: "TimestampFilter option \<Rightarrow> string \<Rightarrow> spred list" where
  "timeConds tso al =
     (case tso of None \<Rightarrow> []
      | Some ts \<Rightarrow>
          (case ts_After ts of None \<Rightarrow> [] | Some t \<Rightarrow> [PGreater (ECol al ''creation_ts'') (EParam (ArgTime t))]) @
          (case ts_Before ts of None \<Rightarrow> [] | Some t \<Rightarrow> [PLess (ECol al ''creation_ts'') (EParam (ArgTime t))]))"

definition categoryCond :: "Generator \<Rightarrow> string \<Rightarrow> string \<Rightarrow> string \<Rightarrow> spred" where
  "categoryCond g al rt c = PTypes rt (PAnd (typeJoin al rt @
     [if pg g then PAnyOf (pstr_param c) (ECol rt ''categories'')
      else PEach (ECol rt ''categories'') ''json_each'' (PEq (ECol ''json_each'' ''value'') (pstr_param c))]))"

definition labelOf :: "Generator \<Rightarrow> string \<Rightarrow> string \<Rightarrow> sexpr" where
  "labelOf g al key = (if pg g then EArrow (ECol al ''labels'') key else EExtract (ECol al ''labels'') (''$.'' @ key))"

definition expressionConds :: "Generator \<Rightarrow> string \<Rightarrow> LabelExpression \<Rightarrow> spred list" where
  "expressionConds g al e =
     (let l = labelOf g al (le_Key e); vs = map pstr_param (le_Values e) in
      if le_Operator e = LabelOpIn then (if vs \<noteq> [] then [PIn l vs] else [])
      else if le_Operator e = LabelOpNotIn then (if vs \<noteq> [] then [POr [PNull l, PNotIn l vs]] else [])
      else if le_Operator e = LabelOpExists then [PNotNull l]
      else if le_Operator e = LabelOpDoesNotExist then [PNull l] else [])"

definition filterConds :: "Generator \<Rightarrow> ObjectFilter \<Rightarrow> string \<Rightarrow> string \<Rightarrow> spred list" where
  "filterConds g f al rt =
     groupKindConds g (of_GroupKind f) al rt @ eqConds al ''name'' (of_Name f) @ eqConds al ''namespace'' (of_Namespace f) @
     labelConds g (of_Labels f) al @ map (conditionCond g al) (of_Conditions f) @
     timeConds (of_CreationTimestamp f) al @ eqConds al ''id'' (of_ID f) @
     map (categoryCond g al rt) (of_Categories f) @ concat (map (expressionConds g al) (of_LabelExpressions f))"

text \<open>The text and the values of a list of conditions.\<close>

definition part_of :: "spred list \<Rightarrow> filter_part" where
  "part_of ps = (map ptext ps, concat (map pargs ps))"

lemma part_of_append: "part_of (ps @ qs) = (fst (part_of ps) @ fst (part_of qs), snd (part_of ps) @ snd (part_of qs))"
  by (simp add: part_of_def)

lemma cat_parts_part_of: "cat_parts (map part_of pss) = part_of (concat pss)"
  by (induction pss) (simp_all add: cat_parts_def part_of_def)

lemma groupKind_part: "filterGroupKind g gko al rt = part_of (groupKindConds g gko al rt)"
  by (cases gko) (simp_all add: filterGroupKind_def groupKindConds_def part_of_def cat_parts_def kindCond_def typeJoin_def
      Sprintf.simps)

lemma eq_part: "filterEq al col v = part_of (eqConds al col v)"
  by (simp add: filterEq_def eqConds_def part_of_def)

lemma labels_part: "filterLabels g labels al = part_of (labelConds g labels al)"
  by (simp add: filterLabels_def labelConds_def part_of_def comp_def Sprintf.simps map_eq_conv concat_map_singleton)

lemma condition_part: "filterCondition g al c = part_of [conditionCond g al c]"
  by (simp add: filterCondition_def conditionCond_def conditionMembers_def part_of_def Let_def Sprintf.simps)

lemma time_part: "filterTimestamp tso al = part_of (timeConds tso al)"
  by (simp add: filterTimestamp_def timeConds_def part_of_def cat_parts_def split: option.split)

lemma category_part: "filterCategory g al rt c = part_of [categoryCond g al rt c]"
  by (simp add: filterCategory_def categoryCond_def typeJoin_def part_of_def Sprintf.simps)

text \<open>The filters whose clauses the fragment covers: no JSON path, and on PostgreSQL no test
  for the existence of a label, whose operator clashes with the placeholder.\<close>

definition covered :: "Generator \<Rightarrow> ObjectFilter \<Rightarrow> bool" where
  "covered g f \<longleftrightarrow> of_JSONPath f = [] \<and>
     (pg g \<longrightarrow> (\<forall>e \<in> set (of_LabelExpressions f). le_Operator e \<notin> {LabelOpExists, LabelOpDoesNotExist}))"

lemma Join_params: "Join (map (etext \<circ> (\<lambda>s. pstr_param s)) vs) sep = Join (map (\<lambda>_. ''?'') vs) sep"
  by (simp add: comp_def)

lemma expression_part:
  assumes "pg g \<Longrightarrow> le_Operator e \<notin> {LabelOpExists, LabelOpDoesNotExist}"
  shows "filterLabelExpr g al e = part_of (expressionConds g al e)"
  using assms
  by (simp add: filterLabelExpr_def expressionConds_def labelOf_def part_of_def Let_def Sprintf.simps comp_def
      concat_map_singleton)

lemma filter_part:
  assumes "covered g f"
  shows "buildObjectFilterWithRT g f al rt = (map ptext (filterConds g f al rt), concat (map pargs (filterConds g f al rt)), False)"
proof -
  have jp: "filterJSONPath g al (of_JSONPath f) = part_of []"
    using assms by (simp add: covered_def filterJSONPath_def part_of_def)
  have le: "map (filterLabelExpr g al) (of_LabelExpressions f) = map (part_of \<circ> expressionConds g al) (of_LabelExpressions f)"
    using assms by (simp add: covered_def expression_part)
  have fc: "filterCondition g al = part_of \<circ> (\<lambda>c. [conditionCond g al c])"
    "filterCategory g al rt = part_of \<circ> (\<lambda>c. [categoryCond g al rt c])"
    by (simp_all add: fun_eq_iff condition_part category_part)
  have "cat_parts
        ([filterGroupKind g (of_GroupKind f) al rt, filterEq al ''name'' (of_Name f), filterEq al ''namespace'' (of_Namespace f),
          filterLabels g (of_Labels f) al] @ map (filterCondition g al) (of_Conditions f) @
         [filterTimestamp (of_CreationTimestamp f) al, filterEq al ''id'' (of_ID f)] @
         map (filterCategory g al rt) (of_Categories f) @ map (filterLabelExpr g al) (of_LabelExpressions f) @
         [filterJSONPath g al (of_JSONPath f)]) = part_of (filterConds g f al rt)"
    using cat_parts_part_of [of "[groupKindConds g (of_GroupKind f) al rt, eqConds al ''name'' (of_Name f),
        eqConds al ''namespace'' (of_Namespace f), labelConds g (of_Labels f) al] @
        map (\<lambda>c. [conditionCond g al c]) (of_Conditions f) @ [timeConds (of_CreationTimestamp f) al, eqConds al ''id'' (of_ID f)] @
        map (\<lambda>c. [categoryCond g al rt c]) (of_Categories f) @ map (expressionConds g al) (of_LabelExpressions f) @ [[]]"]
    by (simp add: jp le fc groupKind_part eq_part labels_part time_part filterConds_def concat_map_singleton)
  then show ?thesis by (simp add: buildObjectFilterWithRT_def part_of_def)
qed

subsection \<open>What the conditions select\<close>

lemma ToLower_idem [simp]: "ToLower (ToLower s) = ToLower s"
proof -
  have "lower_char (lower_char c) = lower_char c" for c
  proof (cases "65 \<le> (of_char c :: nat) \<and> of_char c \<le> (90 :: nat)")
    case True
    then have "of_char (char_of (of_char c + 32 :: nat)) = (of_char c + 32 :: nat)" by simp
    with True show ?thesis by (simp add: lower_char_def Let_def)
  next
    case False
    then show ?thesis by (auto simp: lower_char_def Let_def)
  qed
  then show ?thesis by (simp add: ToLower_def)
qed

lemma slice_elements [simp]: "elements (VJson (slice_json ss)) = map JStr (values_of ss)"
  by (simp add: elements_def slice_json_def values_of_def split: option.split)

lemma slice_rows [simp]:
  "list_ex (\<lambda>r. r ''value'' = VStr v \<and> r ''value'' \<noteq> VNull) (fun_rows JsonEach (VJson (slice_json ss))) \<longleftrightarrow> v \<in> set (values_of ss)"
  by (auto simp: fun_rows.simps slice_json_def values_of_def sql_scalar_def list_ex_iff split: option.split)

lemma slice_fails [simp]: "fun_fails ArrayElements (VJson (slice_json ss)) \<longleftrightarrow> ss = None" "\<not> fun_fails JsonEach (VJson j)"
  by (simp_all add: slice_json_def split: option.split)


subsection \<open>Labels and conditions\<close>

text \<open>A dot in a key is a step of the path, and the labels have no nested objects.\<close>

lemma json_extract_dotted:
  assumes "CHR ''.'' \<in> set k" "CHR 0x22 \<notin> set k" "CHR ''['' \<notin> set k"
  shows "json_extract (VJson (strings_json m)) (''$.'' @ k) = VNull"
proof -
  obtain a b where k: "k = a @ CHR ''.'' # b" "CHR ''.'' \<notin> set a" using split_list_first [OF assms(1)] by blast
  show ?thesis
  proof (cases "a = []")
    case True
    then have "path_steps (CHR ''.'' # k) = None" unfolding k(1) by (subst path_steps.simps) (simp add: plain_char_def)
    then show ?thesis by (simp add: json_extract_def)
  next
    case False
    with assms k have "path_key a" by (auto simp: path_key_def plain_char_def list_all_iff)
    then have "path_steps (CHR ''.'' # k) = map_option ((#) a) (path_steps (CHR ''.'' # b))"
      unfolding k(1) by (rule path_steps_member) simp
    moreover have "path_steps (CHR ''.'' # b) \<noteq> Some []" by (subst path_steps.simps) (auto split: list.split)
    then have "walk (JStr v) ks = None" if "path_steps (CHR ''.'' # b) = Some ks" for v ks
      using that by (cases ks) auto
    ultimately show ?thesis
      by (auto simp: json_extract_def strings_json_def map_of_JStr split: option.split)
  qed
qed








subsection \<open>The root clause\<close>

text \<open>The row of an object under the alias of the flat query.\<close>

definition row_env :: "sql_object \<Rightarrow> string \<Rightarrow> columns" where
  "row_env x = (\<lambda>_ _. VNull)(''obj'' := object_cols x)"






definition filter_spec :: "ObjectFilter list \<Rightarrow> QuerySpec" where
  "filter_spec fs = zero_QuerySpec\<lparr>qs_Filter := Some \<lparr>qf_Objects = fs\<rparr>\<rparr>"


subsection \<open>Properties\<close>


definition web_object :: sql_object where
  "web_object = \<lparr>o_id = ''1'', o_cluster = ''east'', o_group = ''apps'', o_kind = ''Deployment'', o_namespace = ''prod'',
     o_name = ''web'', o_uid = ''u1'', o_labels = Some [(''app'', ''web'')], o_annotations = None, o_ownerRefs = None,
     o_conditions = [[(''type'', JStr ''Available''), (''status'', JStr ''True'')]], o_created = Some 5, o_body = []\<rparr>"




text \<open>An entry without criteria is dropped from the list of filters: it is met by every
  object and the entries are alternatives, yet next to an entry with criteria the clause is
  the one of that entry alone.\<close>

theorem empty_filter_dropped:
  "buildRootClauses g (filter_spec (f # [zero_ObjectFilter])) ''obj'' = buildRootClauses g (filter_spec [f]) ''obj''
   \<and> meets types x zero_ObjectFilter"
proof -
  have "fst (buildObjectFilter g zero_ObjectFilter ''obj'') = []"
    by (simp add: buildObjectFilter_def buildObjectFilterWithRT_def zero_ObjectFilter_def cat_parts_def filterGroupKind_def
        filterEq_def filterLabels_def filterTimestamp_def filterJSONPath_def)
  then have "rootOrGroups g ''obj'' [f, zero_ObjectFilter] = rootOrGroups g ''obj'' [f]"
    by (auto split: prod.split)
  moreover have "meets types x zero_ObjectFilter" by (simp add: meets_def zero_ObjectFilter_def)
  ultimately show ?thesis by (simp add: buildRootClauses_def filter_spec_def del: rootOrGroups.simps)
qed

text \<open>On SQLite a label whose key contains a dot is never found: the clause of such a
  label holds of no object, also of those that carry the label.\<close>

theorem dotted_label_never_selected:
  assumes "gen_dialect g \<noteq> ''postgres''" and "CHR ''.'' \<in> set key" and "CHR 0x22 \<notin> set key" "CHR ''['' \<notin> set key"
  shows "filterLabels g [(key, v)] ''obj'' = part_of (labelConds g [(key, v)] ''obj'') \<and>
    peval types (row_env x) (PAnd (labelConds g [(key, v)] ''obj'')) \<noteq> Some True"
proof -
  have "eeval (row_env x) (EExtract (ECol ''obj'' ''labels'') (''$.'' @ key)) = VNull"
    using json_extract_dotted [OF assms(2-4), of "o_labels x"] by (simp add: row_env_def)
  with assms(1) show ?thesis by (simp add: labels_part labelConds_def)
qed

theorem dotted_label_never_selected_witness:
  "peval [] (row_env (web_object\<lparr>o_labels := Some [(''app.kubernetes.io/name'', ''web'')]\<rparr>))
     (PAnd (labelConds (NewGenerator ''sqlite'') [(''app.kubernetes.io/name'', ''web'')] ''obj'')) \<noteq> Some True"
proof -
  have "gen_dialect (NewGenerator ''sqlite'') \<noteq> ''postgres''" "CHR ''.'' \<in> set ''app.kubernetes.io/name''"
    "CHR 0x22 \<notin> set ''app.kubernetes.io/name''" "CHR ''['' \<notin> set ''app.kubernetes.io/name''"
    by (simp_all add: NewGenerator_def)
  from dotted_label_never_selected [OF this] show ?thesis by blast
qed

end
