(* ===== verification/Cursor_Semantics.thy ===== *)
theory Cursor_Semantics
  imports Filter_Semantics Query_Engine
begin

text \<open>
  What the keyset cursor of \<open>buildCursorFilter\<close> selects, against the order that \<open>buildOrderBy\<close>
  asks for: the clause is the text of one comparison of rows of values, ORDER BY compares rows of the
  table column by column, each in its own direction.
\<close>

subsection \<open>The order of the rows\<close>

definition sort_column :: "string \<Rightarrow> sexpr" where
  "sort_column f = ECol ''obj'' (drop 4 (map_get ValidSortFields f))"

definition order_keys :: "OrderSpec list \<Rightarrow> (sexpr \<times> bool) list" where
  "order_keys ords =
     (if ords = [] then [(sort_column ''name'', False), (sort_column ''namespace'', False)]
      else map (\<lambda>ord. (sort_column (ord_Field ord), ord_Direction ord = SortDesc)) ords @
        map (\<lambda>f. (sort_column f, False)) (filter (\<lambda>f. f \<notin> ord_Field ` set ords) [''namespace'', ''name'']))"

definition key_text :: "sexpr \<times> bool \<Rightarrow> string" where
  "key_text k = etext (fst k) @ (if snd k then '' DESC'' else '' ASC'')"

text \<open>ORDER BY places one row before another when they differ in the first key that tells
  them apart in the direction of the key.\<close>

fun comes_before :: "(sexpr \<times> bool) list \<Rightarrow> row_env \<Rightarrow> row_env \<Rightarrow> bool" where
  "comes_before [] a b = False"
| "comes_before ((e, desc) # ks) a b =
     (if eeval a e = eeval b e then comes_before ks a b
      else if desc then sql_less (eeval b e) (eeval a e) = Some True
      else sql_less (eeval a e) (eeval b e) = Some True)"

lemma sort_column_text: "f \<in> fst ` set ValidSortFields \<Longrightarrow> etext (sort_column f) = map_get ValidSortFields f"
proof -
  have "list_all (\<lambda>p. etext (sort_column (fst p)) = map_get ValidSortFields (fst p)) ValidSortFields" by code_simp
  then show "f \<in> fst ` set ValidSortFields \<Longrightarrow> etext (sort_column f) = map_get ValidSortFields f"
    by (auto simp: list_all_iff)
qed

lemma sort_names: "etext (sort_column ''name'') = ''obj.name''" "etext (sort_column ''namespace'') = ''obj.namespace''"
  by code_simp+

lemma sort_columns_no_space: "CHR '' '' \<notin> set (map_get ValidSortFields f)"
proof -
  have "list_all (\<lambda>p. CHR '' '' \<notin> set (snd p)) ValidSortFields" by code_simp
  then show ?thesis
    by (cases "map_of ValidSortFields f") (fastforce simp: map_get_def list_all_iff dest: map_of_SomeD)+
qed

lemma orderPart_column: "hd (Split (orderPart ord) (CHR '' '')) = map_get ValidSortFields (ord_Field ord)"
  unfolding orderPart_def
  by (simp add: Split_append_sep Split_no_sep sort_columns_no_space)

lemma tiebreaker_iff:
  assumes "f = ''name'' \<or> f = ''namespace''" and "\<forall>ord \<in> set ords. sortable ord"
  shows "''obj.'' @ f \<in> (\<lambda>ord. map_get ValidSortFields (ord_Field ord)) ` set ords \<longleftrightarrow> f \<in> ord_Field ` set ords"
proof -
  have "list_all (\<lambda>h. list_all (\<lambda>f. (''obj.'' @ f = map_get ValidSortFields h) = (f = h)) [''name'', ''namespace''])
      (map fst ValidSortFields)" by code_simp
  then have all: "\<forall>h \<in> fst ` set ValidSortFields. \<forall>f \<in> {''name'', ''namespace''}. (''obj.'' @ f = map_get ValidSortFields h) = (f = h)"
    by (simp only: list_all_iff set_map list.set)
  have "''obj.'' @ f = map_get ValidSortFields (ord_Field ord) \<longleftrightarrow> f = ord_Field ord" if "ord \<in> set ords" for ord
  proof -
    have "ord_Field ord \<in> fst ` set ValidSortFields" using assms(2) that by (simp add: sortable_def)
    with all assms(1) show ?thesis by blast
  qed
  then show ?thesis by (auto simp: image_iff)
qed

lemma name_keys: "key_text (sort_column ''name'', False) = ''obj.name ASC''" "key_text (sort_column ''namespace'', False) = ''obj.namespace ASC''"
  by (simp_all add: key_text_def sort_names)

lemma order_text:
  assumes "\<forall>ord \<in> set (qs_Order spec). sortable ord"
  shows "buildOrderBy spec = Join (map key_text (order_keys (qs_Order spec))) '', ''"
proof (cases "qs_Order spec = []")
  case True
  then show ?thesis by (simp add: buildOrderBy_def order_keys_def name_keys)
next
  case False
  let ?ords = "qs_Order spec"
  have "map orderPart ?ords = map key_text (map (\<lambda>ord. (sort_column (ord_Field ord), ord_Direction ord = SortDesc)) ?ords)"
    using assms by (auto simp: orderPart_def key_text_def sort_column_text sortable_def)
  moreover have "set (map (\<lambda>p. hd (Split p (CHR '' ''))) (map orderPart ?ords)) = (\<lambda>ord. map_get ValidSortFields (ord_Field ord)) ` set ?ords"
    by (simp add: image_image orderPart_column)
  ultimately have "orderParts ?ords = map key_text (order_keys ?ords)"
    using tiebreaker_iff [of "''name''" ?ords] tiebreaker_iff [of "''namespace''" ?ords] assms False
    unfolding orderParts_def Let_def by (simp add: order_keys_def name_keys del: set_map map_map)
  with False show ?thesis by (simp add: buildOrderBy_def)
qed

subsection \<open>The cursor clause\<close>

definition cursorCond :: "OrderSpec list \<Rightarrow> string gomap \<Rightarrow> spred" where
  "cursorCond ords m =
     PRow (ords \<noteq> [] \<and> ord_Direction (hd ords) = SortDesc) (map sort_column (sort_fields ords))
       (map (\<lambda>f. pstr_param (map_get m f)) (sort_fields ords))"

lemma Split_marks: "Split (Repeat ''?,'' n) (CHR '','') = replicate n ''?'' @ [[]]"
proof (induction n)
  case (Suc n)
  have "Repeat ''?,'' (Suc n) = ''?'' @ CHR '','' # Repeat ''?,'' n" by (simp add: Repeat_def)
  then show ?case using Suc Split_append_sep [of "''?''" "CHR '',''" "Repeat ''?,'' n"] by (simp add: Split_no_sep)
qed (simp add: Repeat_def Split_no_sep)

lemma sort_fields_valid: "\<forall>ord \<in> set ords. sortable ord \<Longrightarrow> f \<in> set (sort_fields ords) \<Longrightarrow> f \<in> fst ` set ValidSortFields"
  by (auto simp: sort_fields_def sortable_def ValidSortFields_def Let_def split: if_splits)

lemma cursor_text:
  assumes "distinct (map fst m)" and "\<forall>ord \<in> set (qs_Order spec). sortable ord"
    and "qs_Page spec = Some p" and "pg_Cursor p = BuildCursorToken m"
  shows "buildCursorFilter spec = (ptext (cursorCond (qs_Order spec) m), pargs (cursorCond (qs_Order spec) m))"
proof -
  let ?ords = "qs_Order spec" and ?fs = "sort_fields (qs_Order spec)"
  have cols: "cursorCols ?ords = map (etext \<circ> sort_column) ?fs"
    using sort_column_text [OF sort_fields_valid [OF assms(2)]]
    by (simp add: cursorCols_def cursorOrder_fields [symmetric])
  have marks: "Join (take n (Split (Repeat ''?,'' n) (CHR '',''))) '', '' = Join (replicate n ''?'') '', ''" for n
    by (simp add: Split_marks)
  have op: "cursorOp ?ords = (if ?ords \<noteq> [] \<and> ord_Direction (hd ?ords) = SortDesc then ''<'' else ''>'')"
    by (cases ?ords) (simp_all add: cursorOp_def)
  have "map (etext \<circ> (\<lambda>f. pstr_param (map_get m f))) ?fs = replicate (length ?fs) ''?''"
    by (simp add: comp_def map_replicate_const)
  then have clause: "fst (buildCursorFilter spec) = ptext (cursorCond ?ords m)"
    using assms decodeCursor_BuildCursorToken [OF assms(1)]
    by (simp add: buildCursorFilter_def cursorCond_def cols marks op Let_def Sprintf.simps)
  have "snd (buildCursorFilter spec) = map (\<lambda>f. ArgString (map_get m f)) ?fs"
    using buildCursorFilter_token [OF assms(1,3,4)] by (simp add: cursorOrder_fields [symmetric])
  moreover have "concat (map (eargs \<circ> sort_column) fs) = []" for fs by (simp add: sort_column_def)
  ultimately have "snd (buildCursorFilter spec) = pargs (cursorCond ?ords m)"
    by (simp add: cursorCond_def comp_def concat_map_singleton)
  with clause show ?thesis by (metis prod.collapse)
qed

subsection \<open>The clause against the order\<close>

text \<open>The columns of an object that are compared as texts, and a result row with these columns.\<close>

definition text_field :: "string \<Rightarrow> bool" where
  "text_field f \<longleftrightarrow> f \<in> {''name'', ''namespace'', ''kind'', ''apiGroup'', ''cluster''}"

definition scanned_as :: "flatRow \<Rightarrow> sql_object \<Rightarrow> bool" where
  "scanned_as r x \<longleftrightarrow> fr_Name r = o_name x \<and> fr_Namespace r = o_namespace x \<and> fr_Kind r = o_kind x \<and>
     fr_APIGroup r = o_group x \<and> fr_Cluster r = o_cluster x"

lemma sort_column_names: "sort_column ''name'' = ECol ''obj'' ''name''" "sort_column ''namespace'' = ECol ''obj'' ''namespace''"
  "sort_column ''kind'' = ECol ''obj'' ''kind''" "sort_column ''apiGroup'' = ECol ''obj'' ''api_group''"
  "sort_column ''cluster'' = ECol ''obj'' ''cluster''" "sort_column ''creationTimestamp'' = ECol ''obj'' ''creation_ts''"
  by code_simp+

lemma text_value:
  assumes "text_field f"
  shows "\<exists>s. eeval (row_env x) (sort_column f) = VStr s" "scanned_as r x \<Longrightarrow> eeval (row_env x) (sort_column f) = VStr (sort_value r f)"
  using assms by (auto simp: text_field_def sort_column_names row_env_def scanned_as_def sort_value_def)

lemma row_less_before:
  assumes "\<And>f. f \<in> set fs \<Longrightarrow> \<exists>s t. eeval a (sort_column f) = VStr s \<and> eeval b (sort_column f) = VStr t"
  shows "row_less (zip (map (\<lambda>f. eeval a (sort_column f)) fs) (map (\<lambda>f. eeval b (sort_column f)) fs)) = Some True \<longleftrightarrow>
      comes_before (map (\<lambda>f. (sort_column f, False)) fs) a b"
    and "comes_before (map (\<lambda>f. (sort_column f, True)) fs) a b \<longleftrightarrow> comes_before (map (\<lambda>f. (sort_column f, False)) fs) b a"
  using assms by (induction fs) (fastforce simp: sql_eq_def)+

lemma order_keys_uniform:
  assumes "\<forall>ord \<in> set ords. ord_Direction ord \<noteq> SortDesc"
  shows "order_keys ords = map (\<lambda>f. (sort_column f, False)) (sort_fields ords)"
  using assms by (auto simp: order_keys_def sort_fields_def Let_def)

lemma order_keys_desc:
  assumes "\<forall>ord \<in> set ords. ord_Direction ord = SortDesc" "{''namespace'', ''name''} \<subseteq> ord_Field ` set ords"
  shows "order_keys ords = map (\<lambda>f. (sort_column f, True)) (sort_fields ords)"
  using assms by (auto simp: order_keys_def sort_fields_def Let_def)

lemma cursor_selects:
  assumes "\<forall>ord \<in> set ords. text_field (ord_Field ord)" and "scanned_as r y"
    and "(\<forall>ord \<in> set ords. ord_Direction ord \<noteq> SortDesc) \<or>
      (\<forall>ord \<in> set ords. ord_Direction ord = SortDesc) \<and> {''namespace'', ''name''} \<subseteq> ord_Field ` set ords"
  shows "peval types (row_env x) (cursorCond ords (cursorRow r)) = Some True \<longleftrightarrow>
    comes_before (order_keys ords) (row_env y) (row_env x)"
proof -
  let ?fs = "sort_fields ords"
  have texts: "text_field f" if "f \<in> set ?fs" for f
    using that assms(1) by (auto simp: sort_fields_def Let_def text_field_def split: if_splits)
  then have vals: "\<exists>s t. eeval (row_env a) (sort_column f) = VStr s \<and> eeval (row_env b) (sort_column f) = VStr t" if "f \<in> set ?fs" for a b f
    using that text_value(1) by blast
  have args: "map (eeval (row_env x)) (map (\<lambda>f. pstr_param (map_get (cursorRow r) f)) ?fs) = map (\<lambda>f. eeval (row_env y) (sort_column f)) ?fs"
    using texts text_value(2) [OF _ assms(2)] by (simp add: cursorRow_values)
  have cols: "map (eeval e) (map sort_column fs) = map (\<lambda>f. eeval e (sort_column f)) fs" for e fs by simp
  note less = row_less_before(1) [where fs = ?fs and a = "row_env a" and b = "row_env b" for a b, OF vals]
    and desc_less = row_less_before(2) [where fs = ?fs and a = "row_env a" and b = "row_env b" for a b, OF vals]
  show ?thesis
  proof (cases "\<forall>ord \<in> set ords. ord_Direction ord \<noteq> SortDesc")
    case True
    then have up: "(ords \<noteq> [] \<and> ord_Direction (hd ords) = SortDesc) = False" by (cases ords) auto
    show ?thesis by (simp only: cursorCond_def peval.simps up if_False args cols order_keys_uniform [OF True] less [of y x])
  next
    case False
    with assms(3) have desc: "\<forall>ord \<in> set ords. ord_Direction ord = SortDesc" "{''namespace'', ''name''} \<subseteq> ord_Field ` set ords" by blast+
    from False desc(1) have down: "(ords \<noteq> [] \<and> ord_Direction (hd ords) = SortDesc) = True" by (cases ords) auto
    show ?thesis
      by (simp only: cursorCond_def peval.simps down if_True args cols order_keys_desc [OF desc] less [of x y] desc_less [of y x])
  qed
qed

subsection \<open>Properties\<close>

text \<open>C31. Keyset pagination follows the sort order of text columns: when the sort fields are among
  name, namespace, kind, group and cluster, and no criterion is descending, or all are and both
  namespace and name are among them, then ORDER BY has the text of \<open>order_keys\<close>, the clause of
  a cursor taken from the row of an object has the text and binds the values of one row
  comparison, and this holds of another object exactly when ORDER BY places it after that object.
  An object that agrees with it in all sort columns is placed neither before nor after and is not
  selected. Texts are compared byte by byte in both clauses; creation times, which may be missing,
  are not covered.\<close>

theorem cursor_follows_order:
  assumes "\<forall>ord \<in> set (qs_Order spec). sortable ord \<and> text_field (ord_Field ord)"
    and "(\<forall>ord \<in> set (qs_Order spec). ord_Direction ord \<noteq> SortDesc) \<or>
      (\<forall>ord \<in> set (qs_Order spec). ord_Direction ord = SortDesc) \<and> {''namespace'', ''name''} \<subseteq> ord_Field ` set (qs_Order spec)"
    and "scanned_as r y" and "qs_Page spec = Some \<lparr>pg_First = n, pg_Cursor = BuildCursorToken (cursorRow r)\<rparr>"
  shows "\<exists>keys cond. buildOrderBy spec = Join (map key_text keys) '', '' \<and> buildCursorFilter spec = (ptext cond, pargs cond) \<and>
    (\<forall>types x. peval types (row_env x) cond = Some True \<longleftrightarrow> comes_before keys (row_env y) (row_env x))"
proof (intro exI conjI)
  have "distinct (map fst (cursorRow r))" by (simp add: cursorRow_def split: option.split)
  then show "buildCursorFilter spec = (ptext (cursorCond (qs_Order spec) (cursorRow r)), pargs (cursorCond (qs_Order spec) (cursorRow r)))"
    using assms(1,4) by (intro cursor_text) auto
  show "buildOrderBy spec = Join (map key_text (order_keys (qs_Order spec))) '', ''"
    using assms(1) by (intro order_text) blast
  show "\<forall>types x. peval types (row_env x) (cursorCond (qs_Order spec) (cursorRow r)) = Some True \<longleftrightarrow>
      comes_before (order_keys (qs_Order spec)) (row_env y) (row_env x)"
    using assms(1-3) by (intro allI cursor_selects) auto
qed

theorem cursor_follows_order_witness:
  "\<exists>keys cond. let spec = zero_QuerySpec\<lparr>qs_Page := Some \<lparr>pg_First = 0, pg_Cursor = BuildCursorToken (cursorRow
       ((example_row [] 0 [])\<lparr>fr_Name := ''web'', fr_Namespace := ''prod'', fr_Kind := ''Deployment'', fr_APIGroup := ''apps'',
          fr_Cluster := ''east''\<rparr>))\<rparr>\<rparr>
     in buildOrderBy spec = Join (map key_text keys) '', '' \<and> buildCursorFilter spec = (ptext cond, pargs cond) \<and>
       (peval [] (row_env (web_object\<lparr>o_name := ''worker''\<rparr>)) cond = Some True \<longleftrightarrow>
          comes_before keys (row_env web_object) (row_env (web_object\<lparr>o_name := ''worker''\<rparr>)))"
proof -
  let ?r = "(example_row [] 0 [])\<lparr>fr_Name := ''web'', fr_Namespace := ''prod'', fr_Kind := ''Deployment'', fr_APIGroup := ''apps'',
      fr_Cluster := ''east''\<rparr>"
  let ?spec = "zero_QuerySpec\<lparr>qs_Page := Some \<lparr>pg_First = 0, pg_Cursor = BuildCursorToken (cursorRow ?r)\<rparr>\<rparr>"
  have "scanned_as ?r web_object" by (simp add: scanned_as_def web_object_def)
  moreover have "qs_Order ?spec = []" "qs_Page ?spec = Some \<lparr>pg_First = 0, pg_Cursor = BuildCursorToken (cursorRow ?r)\<rparr>"
    by (simp_all add: zero_QuerySpec_def)
  ultimately obtain keys cond where "buildOrderBy ?spec = Join (map key_text keys) '', ''" "buildCursorFilter ?spec = (ptext cond, pargs cond)"
    "\<And>types x. peval types (row_env x) cond = Some True \<longleftrightarrow> comes_before keys (row_env web_object) (row_env x)"
    using cursor_follows_order [of ?spec ?r web_object 0] by auto
  then show ?thesis by (intro exI [of _ keys] exI [of _ cond]) (simp add: Let_def)
qed

text \<open>With one descending criterion the tie-breakers stay ascending while the cursor
  compares the whole tuple downwards: of two objects of the same name, sorted by descending
  name, the one ORDER BY places after the cursor is not on the next page.\<close>

theorem cursor_desc_skips_row:
  "let ords = [\<lparr>ord_Field = ''name'', ord_Direction = SortDesc\<rparr>];
       y = web_object\<lparr>o_namespace := ''blue''\<rparr>; x = web_object\<lparr>o_namespace := ''green''\<rparr>;
       m = [(''name'', ''web''), (''namespace'', ''blue'')]
   in comes_before (order_keys ords) (row_env y) (row_env x) \<and> peval [] (row_env x) (cursorCond ords m) \<noteq> Some True"
  by code_simp

text \<open>The default order does not tell apart objects of one name and namespace: when a page ends
  with one of them, those of other clusters and kinds that have not been returned never are.\<close>

theorem cursor_skips_ties:
  "let y = web_object; x = web_object\<lparr>o_cluster := ''west''\<rparr>; m = [(''name'', ''web''), (''namespace'', ''prod'')]
   in \<not> comes_before (order_keys []) (row_env x) (row_env y) \<and> peval [] (row_env x) (cursorCond [] m) \<noteq> Some True"
  by code_simp

text \<open>An object without a creation time is on no page after the first when the pages are sorted
  by creation time.\<close>

theorem cursor_skips_nulls:
  assumes "o_created x = None" "ords = \<lparr>ord_Field = ''creationTimestamp'', ord_Direction = d\<rparr> # ords'"
  shows "peval types (row_env x) (cursorCond ords m) \<noteq> Some True"
  using assms by (simp add: cursorCond_def sort_fields_def Let_def sort_column_names row_env_def sql_eq_def sql_less_def split: sval.split)

theorem cursor_skips_nulls_witness:
  "peval [] (row_env (web_object\<lparr>o_created := None\<rparr>))
     (cursorCond [\<lparr>ord_Field = ''creationTimestamp'', ord_Direction = SortAsc\<rparr>] [(''creationTimestamp'', ''2024-01-01T00:00:00Z'')]) \<noteq> Some True"
  by (rule cursor_skips_nulls) simp_all

end
