(* ===== verification/Relation_Semantics.thy ===== *)
theory Relation_Semantics
  imports Filter_Semantics
begin

text \<open>
  What the joins of \<open>internal/engine/relations.go\<close> find. For every relation the JOIN clause is
  the text of a list of joins of the fragment of \<open>Sql_Fragment\<close>. \<open>children\<close> says which objects stand
  in a relation to an object, \<open>found\<close> which objects the join returns for it; they are the same
  but for references, where the join looks at names only.
\<close>

subsection \<open>The relations\<close>

definition body_at :: "sql_object \<Rightarrow> string list \<Rightarrow> json option" where
  "body_at x ks = walk (JObj (o_body x)) ks"

definition json_string :: "json \<Rightarrow> string" where
  "json_string j = (case j of JStr s \<Rightarrow> s | _ \<Rightarrow> [])"

definition string_members :: "(string \<times> json) list \<Rightarrow> string gomap" where
  "string_members kvs = map (\<lambda>p. (fst p, json_string (snd p))) kvs"

definition owner_uids :: "sql_object \<Rightarrow> string list" where
  "owner_uids x = (case o_ownerRefs x of None \<Rightarrow> []
     | Some rs \<Rightarrow> concat (map (\<lambda>r. case map_of r ''uid'' of Some j \<Rightarrow> [json_string j] | None \<Rightarrow> []) rs))"

definition selector :: "sql_object \<Rightarrow> string gomap option" where
  "selector x = (case body_at x [''spec'', ''selector'', ''matchLabels''] of
     Some (JObj kvs) \<Rightarrow> Some (string_members kvs) | _ \<Rightarrow> None)"

definition matches :: "string gomap \<Rightarrow> sql_object \<Rightarrow> bool" where
  "matches m x \<longleftrightarrow> (\<forall>(k, v) \<in> set m. o_label x k = Some v)"

definition relates_to :: string where "relates_to = ''kuery.io/relates-to''"
definition group_label :: string where "group_label = ''kuery.io/group''"

definition links :: "sql_object \<Rightarrow> string gomap list" where
  "links x = (case Option.bind (o_annotation x relates_to) Unmarshal of
     Some (JArr js) \<Rightarrow> map (\<lambda>j. case j of JObj kvs \<Rightarrow> string_members kvs | _ \<Rightarrow> []) js | _ \<Rightarrow> [])"

definition names :: "sql_object \<Rightarrow> string gomap \<Rightarrow> sql_object \<Rightarrow> bool" where
  "names p r c \<longleftrightarrow>
     o_cluster c = (case map_of r ''cluster'' of None \<Rightarrow> o_cluster p | Some v \<Rightarrow> v) \<and>
     o_group c = (case map_of r ''group'' of None \<Rightarrow> [] | Some v \<Rightarrow> v) \<and>
     map_of r ''kind'' = Some (o_kind c) \<and>
     o_namespace c = (case map_of r ''namespace'' of None \<Rightarrow> [] | Some v \<Rightarrow> v) \<and>
     map_of r ''name'' = Some (o_name c)"

definition selects :: "sql_object \<Rightarrow> sql_object \<Rightarrow> bool" where
  "selects p c \<longleftrightarrow> o_cluster c = o_cluster p \<and> o_namespace c = o_namespace p \<and> o_id c \<noteq> o_id p \<and>
     (\<exists>m. selector p = Some m \<and> matches m c)"

definition owns :: "sql_object \<Rightarrow> sql_object \<Rightarrow> bool" where
  "owns p c \<longleftrightarrow> o_cluster c = o_cluster p \<and> o_uid p \<in> set (owner_uids c)"

text \<open>The names that an object refers to: the strings at a reference path, in the reading of
  the path that PostgreSQL has.\<close>

definition ref_names :: "sql_object \<Rightarrow> RefPath \<Rightarrow> string set" where
  "ref_names x r = {s. JStr s \<in> set (jpath_values (jpath_steps (rp_PGPath r)) (JObj (o_body x)))}"

definition refPaths :: "string list \<Rightarrow> RefPath list" where
  "refPaths kinds = filter (\<lambda>r. kinds = [] \<or> list_ex (EqualFold (rp_TargetKind r)) kinds) BuiltinRefPaths"

definition source_of :: "RefPath \<Rightarrow> sql_object \<Rightarrow> bool" where
  "source_of r x \<longleftrightarrow> o_kind x = rp_SourceKind r \<and> o_group x = rp_SourceGroup r"

definition target_of :: "RefPath \<Rightarrow> sql_object \<Rightarrow> bool" where
  "target_of r x \<longleftrightarrow> o_kind x = rp_TargetKind r \<and> o_group x = rp_TargetGroup r"

text \<open>An object refers to the object of the target kind of a path that its own kind has, with the
  name that stands there. The join tests the name alone.\<close>

definition refers :: "string list \<Rightarrow> sql_object \<Rightarrow> sql_object \<Rightarrow> bool" where
  "refers kinds p c \<longleftrightarrow> o_cluster c = o_cluster p \<and> o_namespace c = o_namespace p \<and>
     (\<exists>r \<in> set (refPaths kinds). source_of r p \<and> target_of r c \<and> o_name c \<in> ref_names p r)"

definition mentions :: "string list \<Rightarrow> sql_object \<Rightarrow> sql_object \<Rightarrow> bool" where
  "mentions kinds p c \<longleftrightarrow> o_cluster c = o_cluster p \<and> o_namespace c = o_namespace p \<and>
     (\<exists>r \<in> set (refPaths kinds). o_name c \<in> ref_names p r)"

lemma refers_mentions: "refers kinds p c \<Longrightarrow> mentions kinds p c"
  by (auto simp: refers_def mentions_def)

lemma selects_code [code]: "selects p c \<longleftrightarrow> o_cluster c = o_cluster p \<and> o_namespace c = o_namespace p \<and> o_id c \<noteq> o_id p \<and>
    (case selector p of None \<Rightarrow> False | Some m \<Rightarrow> matches m c)"
  by (auto simp: selects_def split: option.splits)

lemma refers_code [code]: "refers kinds p c \<longleftrightarrow> o_cluster c = o_cluster p \<and> o_namespace c = o_namespace p \<and>
    (\<exists>r \<in> set (refPaths kinds). source_of r p \<and> target_of r c \<and>
       JStr (o_name c) \<in> set (jpath_values (jpath_steps (rp_PGPath r)) (JObj (o_body p))))"
  by (simp add: refers_def ref_names_def)

lemma mentions_code [code]: "mentions kinds p c \<longleftrightarrow> o_cluster c = o_cluster p \<and> o_namespace c = o_namespace p \<and>
    (\<exists>r \<in> set (refPaths kinds). JStr (o_name c) \<in> set (jpath_values (jpath_steps (rp_PGPath r)) (JObj (o_body p))))"
  by (simp add: mentions_def ref_names_def)

text \<open>The objects in a relation to an object, one for each way it is related. The kinds are
  those that the filters of the relation name: only references to these are followed.\<close>

definition related :: "(sql_object \<Rightarrow> sql_object \<Rightarrow> bool) \<Rightarrow> string \<Rightarrow> sql_object \<Rightarrow> sql_object list \<Rightarrow> sql_object list" where
  "related reference rel p objs =
     (if rel = RelDescendants then filter (owns p) objs
      else if rel = RelOwners then filter (\<lambda>c. owns c p) objs
      else if rel = RelReferences then filter (reference p) objs
      else if rel = RelSelects then filter (selects p) objs
      else if rel = RelSelectedBy then filter (\<lambda>c. selects c p) objs
      else if rel = RelEvents then filter (\<lambda>c. o_cluster c = o_cluster p \<and> o_kind c = ''Event'' \<and>
        body_at c [''involvedObject'', ''uid''] = Some (JStr (o_uid p))) objs
      else if rel = RelGrouped then filter (\<lambda>c. o_id c \<noteq> o_id p \<and> o_label p group_label \<noteq> None \<and>
        o_label c group_label = o_label p group_label) objs
      else if rel = RelLinked then concat (map (\<lambda>r. filter (names p r) objs) (links p))
      else [])"

definition children :: "string \<Rightarrow> string list \<Rightarrow> sql_object \<Rightarrow> sql_object list \<Rightarrow> sql_object list" where
  "children rel kinds p objs = related (refers kinds) rel p objs"

definition found :: "string \<Rightarrow> string list \<Rightarrow> sql_object \<Rightarrow> sql_object list \<Rightarrow> sql_object list" where
  "found rel kinds p objs = related (mentions kinds) rel p objs"

lemma found_children: "rel \<noteq> RelReferences \<Longrightarrow> found rel kinds p objs = children rel kinds p objs"
  by (simp add: found_def children_def related_def)


lemma children_found: "children RelReferences kinds p objs = filter (refers kinds p) (found RelReferences kinds p objs)"
  by (auto simp: found_def children_def related_def refers_mentions intro!: filter_cong)

lemma children_subset_found: "set (children rel kinds x objs) \<subseteq> set (found rel kinds x objs)"
  using children_found [of kinds x objs] found_children [of rel kinds x objs] by (cases "rel = RelReferences") auto

subsection \<open>The joins\<close>

abbreviation same_col :: "string \<Rightarrow> string \<Rightarrow> string \<Rightarrow> spred" where
  "same_col c p col \<equiv> PEq (ECol c col) (ECol p col)"

definition descendantConds :: "bool \<Rightarrow> string \<Rightarrow> string \<Rightarrow> spred list" where
  "descendantConds postgres p c = [same_col c p ''cluster'',
     if postgres then PContains (ECol c ''owner_refs'') (EUidArray (ECol p ''uid''))
     else PEach (ECol c ''owner_refs'') ''oref'' (PEq (EExtract (ECol ''oref'' ''value'') ''$.uid'') (ECol p ''uid''))]"

definition ownerConds :: "bool \<Rightarrow> string \<Rightarrow> string \<Rightarrow> spred list" where
  "ownerConds postgres p c = [same_col c p ''cluster'',
     if postgres then PInEach (ECol c ''uid'') (EArrow (EElem ''ref'') ''uid'') ArrayElements (ECol p ''owner_refs'') ''ref''
     else PInEach (ECol c ''uid'') (EExtract (ECol ''oref'' ''value'') ''$.uid'') JsonEach (ECol p ''owner_refs'') ''oref'']"

definition selectorOf :: "bool \<Rightarrow> string \<Rightarrow> sexpr" where
  "selectorOf postgres a =
     (if postgres then EField (EField (EField (ECol a ''object'') ''spec'') ''selector'') ''matchLabels''
      else EExtract (ECol a ''object'') ''$.spec.selector.matchLabels'')"

text \<open>The object under alias \<open>h\<close> holds the selector, the one under \<open>m\<close> has the labels.\<close>

definition selectConds :: "bool \<Rightarrow> string \<Rightarrow> string \<Rightarrow> string \<Rightarrow> string \<Rightarrow> spred list" where
  "selectConds postgres p c h m = [same_col c p ''cluster'', same_col c p ''namespace''] @
     (if postgres then
        [PContains (ECol m ''labels'') (EParen (selectorOf True h)), PNotNull (selectorOf True h), PNeq (ECol c ''id'') (ECol p ''id'')]
      else
        [PNotNull (selectorOf False h), PNeq (ECol c ''id'') (ECol p ''id''),
         PNoneOf (selectorOf False h) ''sel'' (PEither (PNull (EKeyExtract (ECol m ''labels'') ''sel''))
           (PNeq (EKeyExtract (ECol m ''labels'') ''sel'') (ECol ''sel'' ''value'')))])"

definition eventConds :: "bool \<Rightarrow> string \<Rightarrow> string \<Rightarrow> spred list" where
  "eventConds postgres p c = [same_col c p ''cluster'', PEq (ECol c ''kind'') (ELit ''Event''),
     PEq (if postgres then EArrow (EField (ECol c ''object'') ''involvedObject'') ''uid''
          else EExtract (ECol c ''object'') ''$.involvedObject.uid'') (ECol p ''uid'')]"

definition groupOf :: "bool \<Rightarrow> string \<Rightarrow> sexpr" where
  "groupOf postgres a =
     (if postgres then EArrow (ECol a ''labels'') group_label
      else EExtract (ECol a ''labels'') (''$.'' @ CHR 0x22 # group_label @ [CHR 0x22]))"

definition groupConds :: "bool \<Rightarrow> string \<Rightarrow> string \<Rightarrow> spred list" where
  "groupConds postgres p c =
     [PEq (groupOf postgres c) (groupOf postgres p), PNeq (ECol c ''id'') (ECol p ''id''), PNotNull (groupOf postgres p)]"

definition linkMember :: "bool \<Rightarrow> string \<Rightarrow> sexpr" where
  "linkMember postgres k =
     (if postgres then EArrow (EElem ''ref'') k else EExtract (ECol ''ref'' ''value'') (''$.'' @ k))"

definition linkConds :: "bool \<Rightarrow> string \<Rightarrow> string \<Rightarrow> spred list" where
  "linkConds postgres p c =
     [PEq (ECol c ''cluster'') (ECoalesce (linkMember postgres ''cluster'') (ECol p ''cluster'')),
      PEq (ECol c ''api_group'') (ECoalesce (linkMember postgres ''group'') (ELit [])),
      PEq (ECol c ''kind'') (linkMember postgres ''kind''),
      PEq (ECol c ''namespace'') (ECoalesce (linkMember postgres ''namespace'') (ELit [])),
      PEq (ECol c ''name'') (linkMember postgres ''name'')]"

definition linkSource :: "bool \<Rightarrow> string \<Rightarrow> sjoin" where
  "linkSource postgres p =
     (if postgres then JLateral (ECast (EArrow (EField (EField (ECol p ''object'') ''metadata'') ''annotations'') relates_to)) ''ref''
      else JEach (EExtract (ECol p ''annotations'') (''$.'' @ CHR 0x22 # relates_to @ [CHR 0x22])) ''ref'')"

text \<open>The paths of a reference on SQLite: the array paths with their aliases, and the path of
  the name.\<close>

definition liteSpec :: "RefPath \<Rightarrow> (string \<times> string) list \<times> string" where
  "liteSpec r =
     (let f = rp_SQLiteFieldPath r in
      if rp_SQLiteArrayPath r = [] then ([], f)
      else if f = ''NESTED_ENV_SECRET'' then ([(''$.spec.containers'', ''cont''), (''$.env'', ''env'')], ''$.valueFrom.secretKeyRef.name'')
      else if f = ''NESTED_ENV_CONFIGMAP'' then ([(''$.spec.containers'', ''cont''), (''$.env'', ''env'')], ''$.valueFrom.configMapKeyRef.name'')
      else if f = ''NESTED_ENVFROM_SECRET'' then ([(''$.spec.containers'', ''cont''), (''$.envFrom'', ''ef'')], ''$.secretRef.name'')
      else if f = ''NESTED_ENVFROM_CONFIGMAP'' then ([(''$.spec.containers'', ''cont''), (''$.envFrom'', ''ef'')], ''$.configMapRef.name'')
      else if f = ''NESTED_INGRESS_SERVICE'' then ([(''$.spec.rules'', ''r''), (''$.http.paths'', ''p'')], ''$.backend.service.name'')
      else ([(rp_SQLiteArrayPath r, ''je'')], f))"

fun eachSources :: "sexpr \<Rightarrow> (string \<times> string) list \<Rightarrow> (sexpr \<times> string) list" where
  "eachSources e [] = []"
| "eachSources e ((path, x) # ls) = (EExtract e path, x) # eachSources (ECol x ''value'') ls"

definition lastSource :: "sexpr \<Rightarrow> (string \<times> string) list \<Rightarrow> sexpr" where
  "lastSource e ls = (if ls = [] then e else ECol (snd (last ls)) ''value'')"

definition refQuery :: "bool \<Rightarrow> string \<Rightarrow> RefPath \<Rightarrow> nquery" where
  "refQuery postgres p r =
     (if postgres then NPath (ECol p ''object'') (rp_PGPath r)
      else case liteSpec r of (ls, f) \<Rightarrow>
        if ls = [] then NScalar (EExtract (ECol p ''object'') f)
        else NEach (EExtract (lastSource (ECol p ''object'') ls) f) (eachSources (ECol p ''object'') ls))"

definition referenceConds :: "bool \<Rightarrow> string \<Rightarrow> string \<Rightarrow> string list \<Rightarrow> spred list" where
  "referenceConds postgres p c kinds =
     (if refPaths kinds = [] then [PNever]
      else [same_col c p ''cluster'', same_col c p ''namespace'',
            PInUnion (ECol c ''name'') (map (refQuery postgres p) (refPaths kinds))])"

definition relationJoin :: "string \<Rightarrow> bool \<Rightarrow> string \<Rightarrow> string \<Rightarrow> string list \<Rightarrow> sjoin list" where
  "relationJoin rel postgres p c kinds =
     (if rel = RelDescendants then [JObjects c (descendantConds postgres p c)]
      else if rel = RelOwners then [JObjects c (ownerConds postgres p c)]
      else if rel = RelReferences then [JObjects c (referenceConds postgres p c kinds)]
      else if rel = RelSelects then [JObjects c (selectConds postgres p c p c)]
      else if rel = RelSelectedBy then [JObjects c (selectConds postgres p c c p)]
      else if rel = RelEvents then [JObjects c (eventConds postgres p c)]
      else if rel = RelGrouped then [JObjects c (groupConds postgres p c)]
      else if rel = RelLinked then [linkSource postgres p, JObjects c (linkConds postgres p c)]
      else [JObjects c [PNever]])"

definition relationWhere :: "string \<Rightarrow> string \<Rightarrow> string list \<Rightarrow> spred list" where
  "relationWhere rel c kinds =
     (if rel = RelReferences \<and> refPaths kinds \<noteq> [] \<and> kinds \<noteq> [] then [PInComma (ECol c ''kind'') (map pstr_param kinds)] else [])"

lemma descendant_text:
  "buildDescendantJoin ctx = (jtext (JObjects (rc_childAlias ctx) (descendantConds (rc_dialect ctx = ''postgres'') (rc_parentAlias ctx) (rc_childAlias ctx))), [], [])"
  by (simp add: buildDescendantJoin_def Let_def Sprintf.simps descendantConds_def)

lemma owner_text:
  "buildOwnerJoin ctx = (jtext (JObjects (rc_childAlias ctx) (ownerConds (rc_dialect ctx = ''postgres'') (rc_parentAlias ctx) (rc_childAlias ctx))), [], [])"
  by (simp add: buildOwnerJoin_def Let_def Sprintf.simps ownerConds_def)

lemma selects_text:
  "buildSelectsJoin ctx = (jtext (JObjects (rc_childAlias ctx) (selectConds (rc_dialect ctx = ''postgres'') (rc_parentAlias ctx) (rc_childAlias ctx) (rc_parentAlias ctx) (rc_childAlias ctx))), [], [])"
  by (simp add: buildSelectsJoin_def Let_def Sprintf.simps selectConds_def selectorOf_def)

lemma selected_by_text:
  "buildSelectedByJoin ctx = (jtext (JObjects (rc_childAlias ctx) (selectConds (rc_dialect ctx = ''postgres'') (rc_parentAlias ctx) (rc_childAlias ctx) (rc_childAlias ctx) (rc_parentAlias ctx))), [], [])"
  by (simp add: buildSelectedByJoin_def Let_def Sprintf.simps selectConds_def selectorOf_def)

lemma events_text:
  "buildEventsJoin ctx = (jtext (JObjects (rc_childAlias ctx) (eventConds (rc_dialect ctx = ''postgres'') (rc_parentAlias ctx) (rc_childAlias ctx))), [], [])"
  by (simp add: buildEventsJoin_def Let_def Sprintf.simps eventConds_def)

lemma grouped_text:
  "buildGroupedJoin ctx = (jtext (JObjects (rc_childAlias ctx) (groupConds (rc_dialect ctx = ''postgres'') (rc_parentAlias ctx) (rc_childAlias ctx))), [], [])"
  by (simp add: buildGroupedJoin_def Let_def Sprintf.simps groupConds_def groupOf_def group_label_def)

lemma linked_text:
  "buildLinkedJoin ctx = (jtext (linkSource (rc_dialect ctx = ''postgres'') (rc_parentAlias ctx)) @ '' '' @ jtext (JObjects (rc_childAlias ctx) (linkConds (rc_dialect ctx = ''postgres'') (rc_parentAlias ctx) (rc_childAlias ctx))), [], [])"
  by (simp add: buildLinkedJoin_def Let_def Sprintf.simps linkSource_def linkConds_def linkMember_def relates_to_def)

lemma noRows_text: "noRows ctx = (jtext (JObjects (rc_childAlias ctx) [PNever]), [], [])"
  by (simp add: noRows_def Sprintf.simps)

lemma sqlite_subquery_text: "buildSQLiteRefSubquery r a = ''('' @ ntext (refQuery False a r) @ '')''"
  by (simp add: buildSQLiteRefSubquery_def refQuery_def liteSpec_def lastSource_def Let_def Sprintf.simps)

lemma subquery_text: "BuildRefNameSubquery r a d = ''('' @ ntext (refQuery (d = ''postgres'') a r) @ '')''"
  by (simp add: BuildRefNameSubquery_def sqlite_subquery_text) (simp add: refQuery_def Sprintf.simps)

lemma trimmed_subquery_text:
  "TrimSuffix (TrimPrefix (BuildRefNameSubquery r a d) ''('') '')'' = ntext (refQuery (d = ''postgres'') a r)"
  unfolding subquery_text TrimPrefix_append TrimSuffix_append ..

lemma reference_text:
  assumes "rc_refRegistry ctx \<noteq> None"
  shows "buildReferenceJoin ctx =
    (jtext (JObjects (rc_childAlias ctx) (referenceConds (rc_dialect ctx = ''postgres'') (rc_parentAlias ctx) (rc_childAlias ctx)
        (targetKinds (rc_filters ctx)))),
     map ptext (relationWhere RelReferences (rc_childAlias ctx) (targetKinds (rc_filters ctx))),
     concat (map pargs (relationWhere RelReferences (rc_childAlias ctx) (targetKinds (rc_filters ctx)))))"
  using assms
  by (simp add: buildReferenceJoin_def referenceConds_def relationWhere_def refPaths_def [symmetric] Let_def noRows_text
      trimmed_subquery_text comp_def Sprintf.simps concat_map_singleton)

lemmas relation_texts = descendant_text owner_text selects_text selected_by_text events_text grouped_text linked_text noRows_text

lemma relationJoin_text:
  assumes "rc_refRegistry ctx \<noteq> None"
  shows "buildRelationJoin rel ctx =
    (Join (map jtext (relationJoin rel (rc_dialect ctx = ''postgres'') (rc_parentAlias ctx) (rc_childAlias ctx)
        (targetKinds (rc_filters ctx)))) '' '',
     map ptext (relationWhere rel (rc_childAlias ctx) (targetKinds (rc_filters ctx))),
     concat (map pargs (relationWhere rel (rc_childAlias ctx) (targetKinds (rc_filters ctx)))))"
  using reference_text [OF assms]
  by (simp add: buildRelationJoin_def relationJoin_def relation_texts relationWhere_def del: jtext.simps ptext.simps pargs.simps)

subsection \<open>References\<close>

lemma sql_scalar_iff [simp]: "sql_scalar j = VStr s \<longleftrightarrow> j = JStr s" "sql_scalar j = VNull \<longleftrightarrow> j = JNull"
  "VStr s = sql_scalar j \<longleftrightarrow> j = JStr s"
  by (auto simp: sql_scalar_def split: json.split)

lemma sql_scalar_simps [simp]:
  "sql_scalar JNull = VNull" "sql_scalar (JObj kvs) = VJson (JObj kvs)" "sql_scalar (JArr js) = VJson (JArr js)"
  by (simp_all add: sql_scalar_def)

text \<open>A document whose values along a path have the kinds that the path expects: objects
  where a member is taken, arrays of objects where every element is taken.\<close>

fun shaped :: "jstep list \<Rightarrow> json \<Rightarrow> bool" where
  "shaped [] j = True"
| "shaped (Member k # ss) j =
     (case j of JObj kvs \<Rightarrow> (case map_of kvs k of None \<Rightarrow> True | Some x \<Rightarrow> shaped ss x) | JArr js \<Rightarrow> False | _ \<Rightarrow> True)"
| "shaped (Each # ss) j = (case j of JArr js \<Rightarrow> (\<forall>x \<in> set js. (\<exists>kvs. x = JObj kvs) \<and> shaped ss x) | _ \<Rightarrow> False)"

definition refs_ok :: "sql_object \<Rightarrow> bool" where
  "refs_ok x \<longleftrightarrow> (\<forall>r \<in> set BuiltinRefPaths. shaped (jpath_steps (rp_PGPath r)) (JObj (o_body x)))"

lemma members_walk:
  assumes "shaped (map Member ks @ ss) j"
  shows "jpath_values (map Member ks @ ss) j = (case walk j ks of None \<Rightarrow> [] | Some x \<Rightarrow> jpath_values ss x)"
    and "walk j ks = Some x \<Longrightarrow> shaped ss x"
  using assms by (induction ks arbitrary: j) (auto split: json.splits option.splits)

fun level_steps :: "string list list \<Rightarrow> string list \<Rightarrow> jstep list" where
  "level_steps [] ks = map Member ks"
| "level_steps (l # ls) ks = map Member l @ Each # level_steps ls ks"

text \<open>The two columns of the table of reference paths describe the same steps.\<close>

definition same_steps :: "RefPath \<Rightarrow> bool" where
  "same_steps r = (case liteSpec r of (ls, f) \<Rightarrow>
     list_all (\<lambda>(path, x). path_steps (tl path) \<noteq> None) ls \<and> path_steps (tl f) \<noteq> None \<and>
     jpath_steps (rp_PGPath r) = level_steps (map (\<lambda>(path, x). the (path_steps (tl path))) ls) (the (path_steps (tl f))))"

lemma builtin_same_steps: "list_all same_steps BuiltinRefPaths"
  by code_simp

lemma walk_extract:
  assumes "path_steps (tl path) = Some ks"
  shows "json_extract (VJson j) path = (case walk j ks of None \<Rightarrow> VNull | Some x \<Rightarrow> sql_scalar x)"
  using assms by (simp add: json_extract_def)

lemma each_envs_values:
  assumes "eeval env e = VJson j" and "list_all (\<lambda>(path, x). path_steps (tl path) \<noteq> None) ls" and "path_steps (tl f) = Some ks"
    and "shaped (level_steps (map (\<lambda>(path, x). the (path_steps (tl path))) ls) ks) j"
  shows "VStr s \<in> (\<lambda>en. eeval en (EExtract (lastSource e ls) f)) ` set (each_envs (eachSources e ls) env) \<longleftrightarrow>
    JStr s \<in> set (jpath_values (level_steps (map (\<lambda>(path, x). the (path_steps (tl path))) ls) ks) j)"
  using assms
proof (induction ls arbitrary: e env j)
  case Nil
  then show ?case using members_walk(1) [of ks "[]" j] walk_extract [OF Nil(3), of j]
    by (auto simp: lastSource_def split: option.split)
next
  case (Cons l ls)
  obtain path x where l: "l = (path, x)" by (cases l)
  obtain as where as: "path_steps (tl path) = Some as" using Cons.prems(2) l by auto
  let ?rest = "level_steps (map (\<lambda>(path, x). the (path_steps (tl path))) ls) ks"
  have sh: "shaped (map Member as @ Each # ?rest) j" using Cons.prems(4) l as by simp
  note walk = members_walk [OF sh]
  have last: "lastSource e (l # ls) = lastSource (ECol x ''value'') ls" by (simp add: lastSource_def l)
  show ?case
  proof (cases "walk j as")
    case None
    with walk(1) show ?thesis using Cons.prems(1) l as by (simp add: walk_extract [OF as])
  next
    case (Some a)
    then obtain os where a: "a = JArr (map JObj os)" and os: "\<forall>o' \<in> set os. shaped ?rest (JObj o')"
    proof -
      from walk(2) [OF Some] obtain js where "a = JArr js" "\<forall>y \<in> set js. (\<exists>kvs. y = JObj kvs) \<and> shaped ?rest y"
        by (auto split: json.splits)
      moreover from this(2) obtain os where "js = map JObj os" by (metis ex_map_conv)
      ultimately show thesis using that by auto
    qed
    have IH: "VStr s \<in> (\<lambda>en. eeval en (EExtract (lastSource (ECol x ''value'') ls) f)) `
        set (each_envs (eachSources (ECol x ''value'') ls) (env(x := entry VNull (JObj o')))) \<longleftrightarrow>
        JStr s \<in> set (jpath_values ?rest (JObj o'))" if "o' \<in> set os" for o'
      using Cons.prems that os by (intro Cons.IH) (simp_all add: l)
    show ?thesis
      unfolding last using walk(1) Some a Cons.prems(1) IH l as
      by (simp add: walk_extract [OF as] image_UN comp_def)
  qed
qed

lemma lite_names:
  assumes "refs_ok x" "env p = object_cols x" "r \<in> set BuiltinRefPaths"
  shows "VStr s \<in> set (nvals env (refQuery False p r)) \<longleftrightarrow> s \<in> ref_names x r"
proof -
  obtain ls f where lf: "liteSpec r = (ls, f)" by (cases "liteSpec r")
  have "same_steps r" using builtin_same_steps assms(3) by (simp add: list_all_iff)
  then obtain ks where ks: "list_all (\<lambda>(path, x). path_steps (tl path) \<noteq> None) ls" "path_steps (tl f) = Some ks"
    and st: "jpath_steps (rp_PGPath r) = level_steps (map (\<lambda>(path, x). the (path_steps (tl path))) ls) ks"
    by (auto simp: same_steps_def lf)
  have "shaped (level_steps (map (\<lambda>(path, x). the (path_steps (tl path))) ls) ks) (JObj (o_body x))"
    using assms(1,3) st by (auto simp: refs_ok_def)
  with each_envs_values [of env "ECol p ''object''" "JObj (o_body x)" ls f ks s] assms(2) ks
  have "VStr s \<in> (\<lambda>en. eeval en (EExtract (lastSource (ECol p ''object'') ls) f)) ` set (each_envs (eachSources (ECol p ''object'') ls) env) \<longleftrightarrow>
      s \<in> ref_names x r" by (simp add: ref_names_def st)
  then show ?thesis by (auto simp: refQuery_def lf lastSource_def)
qed

lemma postgres_names:
  assumes "env p = object_cols x"
  shows "VStr s \<in> set (nvals env (refQuery True p r)) \<longleftrightarrow> s \<in> ref_names x r"
  using assms by (auto simp: refQuery_def ref_names_def image_iff eq_commute [of "VStr s"])

subsection \<open>The rows of a join\<close>

text \<open>The objects whose columns have the shape that the relations expect: references and
  selectors are made of strings, a selector is not empty, and the annotations of the body are
  those of the column. On SQLite the keys of a selector are parts of a path and the values at
  the reference paths have the expected kinds.\<close>

definition strings_only :: "(string \<times> json) list \<Rightarrow> bool" where
  "strings_only kvs \<longleftrightarrow> (\<forall>(k, j) \<in> set kvs. \<exists>s. j = JStr s)"

definition uid_strings :: "sql_object \<Rightarrow> bool" where
  "uid_strings x \<longleftrightarrow> (\<forall>rs. o_ownerRefs x = Some rs \<longrightarrow> (\<forall>r \<in> set rs. \<forall>j. map_of r ''uid'' = Some j \<longrightarrow> (\<exists>s. j = JStr s)))"

definition selector_ok :: "bool \<Rightarrow> sql_object \<Rightarrow> bool" where
  "selector_ok postgres x \<longleftrightarrow> body_at x [''spec'', ''selector'', ''matchLabels''] = None \<or>
     (\<exists>kvs. body_at x [''spec'', ''selector'', ''matchLabels''] = Some (JObj kvs) \<and> kvs \<noteq> [] \<and> strings_only kvs \<and>
        (postgres \<or> (\<forall>k \<in> fst ` set kvs. path_key k)))"

definition links_ok :: "bool \<Rightarrow> sql_object \<Rightarrow> bool" where
  "links_ok postgres x \<longleftrightarrow>
     (postgres \<longrightarrow> body_at x [''metadata'', ''annotations'', relates_to] = map_option JStr (o_annotation x relates_to)) \<and>
     (\<forall>s. o_annotation x relates_to = Some s \<longrightarrow>
        (\<exists>rs. Unmarshal s = Some (JArr (map JObj rs)) \<and> (\<forall>r \<in> set rs. strings_only r)))"

definition wf_row :: "bool \<Rightarrow> sql_object \<Rightarrow> bool" where
  "wf_row postgres x \<longleftrightarrow> uid_strings x \<and> selector_ok postgres x \<and> links_ok postgres x \<and> (postgres \<or> refs_ok x)"

lemma VStr_not_null: "v = VStr u \<and> v \<noteq> VNull \<longleftrightarrow> v = VStr u" "VStr u = v \<and> v \<noteq> VNull \<longleftrightarrow> v = VStr u"
  by auto

lemma jrows_filter:
  assumes "\<And>y. y \<in> set objs \<Longrightarrow> (\<forall>q \<in> set ps. peval types (env(c := object_cols y)) q = Some True) \<longleftrightarrow> P y"
  shows "jrows types (map object_cols objs) (JObjects c ps) env = map (\<lambda>y. env(c := object_cols y)) (filter P objs)"
  using assms by (induction objs) auto

locale join_aliases =
  fixes p c :: string
  assumes distinct_aliases: "c \<noteq> p" "p \<noteq> ''oref''" "p \<noteq> ''ref''" "p \<noteq> ''sel''" "c \<noteq> ''oref''" "c \<noteq> ''ref''" "c \<noteq> ''sel''"
begin

abbreviation at :: "row_env \<Rightarrow> sql_object \<Rightarrow> row_env" where
  "at env y \<equiv> env(c := object_cols y)"

abbreviation all_hold :: "columns list \<Rightarrow> row_env \<Rightarrow> sql_object \<Rightarrow> spred list \<Rightarrow> bool" where
  "all_hold types env y ps \<equiv> (\<forall>q \<in> set ps. peval types (at env y) q = Some True)"

lemma uid_path: "json_extract (VJson (JObj r)) ''$.uid'' = (case map_of r ''uid'' of None \<Rightarrow> VNull | Some j \<Rightarrow> sql_scalar j)"
  using json_extract_member [of "''uid''" "JObj r"]
  by (simp add: path_key_def plain_char_def json_field_def)

lemma owner_uids_iff:
  assumes "uid_strings y"
  shows "u \<in> set (owner_uids y) \<longleftrightarrow> (\<exists>rs. o_ownerRefs y = Some rs \<and> (\<exists>r \<in> set rs. map_of r ''uid'' = Some (JStr u)))"
proof (cases "o_ownerRefs y")
  case (Some rs)
  have "u \<in> set (case map_of r ''uid'' of Some j \<Rightarrow> [json_string j] | None \<Rightarrow> []) \<longleftrightarrow> map_of r ''uid'' = Some (JStr u)"
    if "r \<in> set rs" for r
    using assms Some that unfolding uid_strings_def by (cases "map_of r ''uid''") (fastforce simp: json_string_def)+
  with Some show ?thesis by (simp add: owner_uids_def)
qed (simp add: owner_uids_def)

lemma descendants_hold:
  assumes parent: "env p = object_cols x" and "wf_row postgres y"
  shows "all_hold types env y (descendantConds postgres p c) \<longleftrightarrow> owns x y"
proof -
  have uid: "uid_strings y" using assms(2) by (simp add: wf_row_def)
  have "contains (refs_json (o_ownerRefs y)) (JArr [JObj [(''uid'', JStr u)]]) \<longleftrightarrow> u \<in> set (owner_uids y)" for u
    unfolding owner_uids_iff [OF uid] by (auto simp: refs_json_def list_ex_iff split: option.split)
  moreover have "(\<exists>r \<in> set (fun_rows JsonEach (VJson (refs_json (o_ownerRefs y)))).
      json_extract (r ''value'') ''$.uid'' = VStr u) \<longleftrightarrow> u \<in> set (owner_uids y)" for u
    unfolding owner_uids_iff [OF uid] by (auto simp: refs_json_def fun_rows.simps uid_path split: option.splits)
  ultimately show ?thesis
    using distinct_aliases
    by (simp add: descendantConds_def owns_def parent list_ex_iff VStr_not_null del: contains.simps)
qed

lemma owners_hold:
  assumes parent: "env p = object_cols x" and shape: "wf_row postgres x"
  shows "all_hold types env y (ownerConds postgres p c) \<longleftrightarrow> owns y x"
proof -
  have uid: "uid_strings x" using shape by (simp add: wf_row_def)
  have "(\<exists>r \<in> set (fun_rows ArrayElements (VJson (refs_json (o_ownerRefs x)))).
      (case json_field (r ''value'') ''uid'' of None \<Rightarrow> VNull | Some j \<Rightarrow> sql_scalar j) = VStr u) \<longleftrightarrow> u \<in> set (owner_uids x)" for u
    unfolding owner_uids_iff [OF uid]
    by (auto simp: refs_json_def fun_rows.simps elements_def json_field_def split: option.splits)
  moreover have "(\<exists>r \<in> set (fun_rows JsonEach (VJson (refs_json (o_ownerRefs x)))).
      json_extract (r ''value'') ''$.uid'' = VStr u) \<longleftrightarrow> u \<in> set (owner_uids x)" for u
    unfolding owner_uids_iff [OF uid]
    by (auto simp: refs_json_def fun_rows.simps uid_path split: option.splits)
  ultimately show ?thesis
    using distinct_aliases by (auto simp: ownerConds_def owns_def parent image_iff eq_commute)
qed

end

subsection \<open>Selectors, events and groups\<close>

lemma walk_Cons: "walk j (k # ks) = Option.bind (json_field (VJson j) k) (\<lambda>x. walk x ks)"
  by (cases j) (simp_all add: json_field_def split: option.split)

lemma json_field_VNull [simp]: "json_field VNull k = None" "json_field (VStr s) k = None"
  by (simp_all add: json_field_def)

lemma json_field_case:
  "json_field (case w of None \<Rightarrow> VNull | Some j \<Rightarrow> VJson j) k = Option.bind w (\<lambda>j. json_field (VJson j) k)"
  by (cases w) simp_all

lemma strings_only_members:
  "strings_only kvs \<Longrightarrow> map (\<lambda>p. (fst p, JStr (snd p))) (string_members kvs) = kvs"
  by (induction kvs) (auto simp: strings_only_def string_members_def json_string_def)

lemma selector_path: "path_steps ''.spec.selector.matchLabels'' = Some [''spec'', ''selector'', ''matchLabels'']"
  by code_simp

lemma event_path: "path_steps ''.involvedObject.uid'' = Some [''involvedObject'', ''uid'']"
  by code_simp

lemma selectorOf_value:
  assumes "e a = object_cols z"
  shows "eeval e (selectorOf True a) = (case body_at z [''spec'', ''selector'', ''matchLabels''] of None \<Rightarrow> VNull | Some j \<Rightarrow> VJson j)"
    and "eeval e (selectorOf False a) = (case body_at z [''spec'', ''selector'', ''matchLabels''] of None \<Rightarrow> VNull | Some j \<Rightarrow> sql_scalar j)"
  using assms
  by (simp_all add: selectorOf_def body_at_def walk_Cons json_extract_def selector_path json_field_case del: walk.simps(2,3)
      split: option.split)

lemma selector_cases:
  assumes "selector_ok postgres z"
  obtains (none) "body_at z [''spec'', ''selector'', ''matchLabels''] = None" "selector z = None"
  | (some) m where "body_at z [''spec'', ''selector'', ''matchLabels''] = Some (JObj (map (\<lambda>p. (fst p, JStr (snd p))) m))"
      "selector z = Some m" "m \<noteq> []" "postgres \<or> (\<forall>(k, v) \<in> set m. path_key k)"
proof -
  consider "body_at z [''spec'', ''selector'', ''matchLabels''] = None"
    | kvs where "body_at z [''spec'', ''selector'', ''matchLabels''] = Some (JObj kvs)" "kvs \<noteq> []" "strings_only kvs"
      "postgres \<or> (\<forall>k \<in> fst ` set kvs. path_key k)"
    using assms by (auto simp: selector_ok_def)
  then show ?thesis
  proof cases
    case 1
    then show ?thesis by (intro none) (simp_all add: selector_def)
  next
    case (2 kvs)
    moreover have "postgres \<or> (\<forall>(k, v) \<in> set (string_members kvs). path_key k)"
      using 2(4) by (auto simp: string_members_def)
    ultimately show ?thesis
      by (intro some [of "string_members kvs"]) (auto simp: selector_def strings_only_members, simp_all add: string_members_def)
  qed
qed

lemma label_matches:
  assumes "path_key k" and "e m = object_cols z" and "e ''sel'' = entry (VStr k) (JStr v)"
  shows "peval types e (PEither (PNull (EKeyExtract (ECol m ''labels'') ''sel''))
      (PNeq (EKeyExtract (ECol m ''labels'') ''sel'') (ECol ''sel'' ''value''))) = Some True \<longleftrightarrow> o_label z k \<noteq> Some v"
  using assms(2,3) json_extract_simp [OF assms(1), of "strings_json (o_labels z)"]
  by (auto simp: sql_eq_def sql_not_def split: option.splits)

context join_aliases begin

lemma selector_holds:
  assumes "selector_ok postgres z" and "e h = object_cols z" and "e m = object_cols w"
    and "h \<noteq> ''sel''" "m \<noteq> ''sel''"
  shows "(\<forall>q \<in> set (drop 2 (selectConds postgres p c h m)). peval types e q = Some True) \<longleftrightarrow>
    peval types e (PNeq (ECol c ''id'') (ECol p ''id'')) = Some True \<and> (\<exists>s. selector z = Some s \<and> matches s w)"
  using assms(1)
proof (cases rule: selector_cases)
  case none
  with assms(2) show ?thesis by (auto simp: selectConds_def selectorOf_value)
next
  case (some s)
  have "peval types e (PContains (ECol m ''labels'') (EParen (selectorOf True h))) = Some True \<longleftrightarrow> matches s w"
    using some(1,3) assms(2,3) contains_labels [of s w] by (simp add: selectorOf_value matches_def del: contains.simps)
  moreover have "peval types e (PNoneOf (selectorOf False h) ''sel'' (PEither (PNull (EKeyExtract (ECol m ''labels'') ''sel''))
      (PNeq (EKeyExtract (ECol m ''labels'') ''sel'') (ECol ''sel'' ''value'')))) = Some True \<longleftrightarrow> matches s w"
    if "\<not> postgres"
  proof -
    have "peval types (e(''sel'' := entry (VStr k) (JStr v))) (PEither (PNull (EKeyExtract (ECol m ''labels'') ''sel''))
        (PNeq (EKeyExtract (ECol m ''labels'') ''sel'') (ECol ''sel'' ''value''))) = Some True \<longleftrightarrow> o_label w k \<noteq> Some v"
      if "(k, v) \<in> set s" for k v
      using that \<open>\<not> postgres\<close> some(4) assms(3,5) by (intro label_matches) auto
    then show ?thesis
      using some(1) assms(2)
      by (auto simp: selectorOf_value matches_def list_ex_iff simp del: peval.simps(18) split: prod.splits)
  qed
  ultimately show ?thesis
    using some(1,2) assms(2) by (auto simp: selectConds_def selectorOf_value simp del: peval.simps(8,15,17))
qed

lemma selects_hold:
  assumes parent: "env p = object_cols x" and shape: "wf_row postgres x" and row: "wf_row postgres y"
  shows "all_hold types env y (selectConds postgres p c p c) \<longleftrightarrow> selects x y"
    and "all_hold types env y (selectConds postgres p c c p) \<longleftrightarrow> selects y x"
proof -
  have split: "(\<forall>q \<in> set (selectConds postgres p c h m). P q) \<longleftrightarrow>
      P (same_col c p ''cluster'') \<and> P (same_col c p ''namespace'') \<and> (\<forall>q \<in> set (drop 2 (selectConds postgres p c h m)). P q)" for h m P
    by (simp add: selectConds_def)
  show "all_hold types env y (selectConds postgres p c p c) \<longleftrightarrow> selects x y"
    unfolding split using selector_holds [of postgres x "at env y" p c y types] shape distinct_aliases
    by (auto simp: wf_row_def selects_def parent)
  show "all_hold types env y (selectConds postgres p c c p) \<longleftrightarrow> selects y x"
    unfolding split using selector_holds [of postgres y "at env y" c p x types] row distinct_aliases
    by (auto simp: wf_row_def selects_def parent)
qed

lemma events_hold:
  assumes parent: "env p = object_cols x"
  shows "all_hold types env y (eventConds postgres p c) \<longleftrightarrow> o_cluster y = o_cluster x \<and> o_kind y = ''Event'' \<and>
     body_at y [''involvedObject'', ''uid''] = Some (JStr (o_uid x))"
  using distinct_aliases
  by (auto simp: eventConds_def parent body_at_def walk_Cons json_extract_def event_path json_field_case simp del: walk.simps(2,3)
      split: option.splits if_splits)

lemma groupOf_value:
  assumes "e a = object_cols z"
  shows "eeval e (groupOf postgres a) = (case o_label z group_label of None \<Rightarrow> VNull | Some v \<Rightarrow> VStr v)"
proof -
  have "CHR 0x22 \<notin> set group_label" by (simp add: group_label_def)
  from json_extract_quoted [OF this, of "strings_json (o_labels z)"] show ?thesis
    using assms by (auto simp: groupOf_def split: option.split)
qed

lemma groups_hold:
  assumes parent: "env p = object_cols x"
  shows "all_hold types env y (groupConds postgres p c) \<longleftrightarrow> o_id y \<noteq> o_id x \<and> o_label x group_label \<noteq> None \<and>
     o_label y group_label = o_label x group_label"
  using distinct_aliases groupOf_value [of "at env y" c y postgres] groupOf_value [of "at env y" p x postgres]
  by (auto simp: groupConds_def parent split: option.splits)

end

subsection \<open>Links\<close>

lemma string_members_of: "strings_only r \<Longrightarrow> map_of r k = map_option JStr (map_of (string_members r) k)"
  using map_of_JStr [of "string_members r" k] by (simp add: strings_only_members)

lemma linkMember_value:
  assumes "e ''ref'' = entry VNull (JObj r)" "strings_only r" "path_key k"
  shows "eeval e (linkMember postgres k) = (case map_of (string_members r) k of None \<Rightarrow> VNull | Some v \<Rightarrow> VStr v)"
  using assms(1) string_members_of [OF assms(2), of k] json_extract_simp [OF assms(3), of "JObj r"]
  by (auto simp: linkMember_def json_field_def split: option.split)

lemma link_keys:
  "path_key ''cluster''" "path_key ''group''" "path_key ''kind''" "path_key ''namespace''" "path_key ''name''"
  by (simp_all add: path_key_def plain_char_def)

lemma joins_rows_single [simp]: "joins_rows types objs [j] env = jrows types objs j env"
proof -
  have "joins_rows types objs [] = (\<lambda>e. [e])" by (rule ext) simp
  then show ?thesis by (simp add: concat_map_singleton del: jrows.simps)
qed

context join_aliases begin

lemma links_hold:
  assumes parent: "env p = object_cols x" and strings: "strings_only r"
  shows "(\<forall>q \<in> set (linkConds postgres p c). peval types (env(''ref'' := entry VNull (JObj r), c := object_cols y)) q = Some True) \<longleftrightarrow>
    names x (string_members r) y"
proof -
  let ?e = "env(''ref'' := entry VNull (JObj r), c := object_cols y)"
  have ref: "?e ''ref'' = entry VNull (JObj r)" using distinct_aliases by simp
  note vals = linkMember_value [where e = ?e, OF ref strings]
  have row: "?e c = object_cols y" "?e p = object_cols x" using distinct_aliases parent by simp_all
  show ?thesis
    unfolding linkConds_def names_def list.set ball_simps peval.simps eeval.simps vals [OF link_keys(1)] vals [OF link_keys(2)]
      vals [OF link_keys(3)] vals [OF link_keys(4)] vals [OF link_keys(5)] row object_cols_simps sql_eq_True
    by (auto split: option.splits)
qed

lemma link_body:
  assumes shape: "wf_row postgres x" and postgres
  shows "Option.bind (json_field (VJson (JObj (o_body x))) ''metadata'') (\<lambda>j. Option.bind (json_field (VJson j) ''annotations'')
      (\<lambda>j. json_field (VJson j) relates_to)) = map_option JStr (o_annotation x relates_to)"
  using assms by (simp add: wf_row_def links_ok_def body_at_def walk_Cons Option.bind_assoc del: walk.simps(2,3))

lemma link_column:
  "json_extract (VJson (strings_json (o_annotations x))) (''$.'' @ CHR 0x22 # relates_to @ [CHR 0x22]) =
     (case o_annotation x relates_to of None \<Rightarrow> VNull | Some s \<Rightarrow> VStr s)"
proof -
  have "CHR 0x22 \<notin> set relates_to" by (simp add: relates_to_def)
  from json_extract_quoted [OF this, of "strings_json (o_annotations x)"] show ?thesis by (auto split: option.split)
qed

lemma linkSource_rows:
  assumes parent: "env p = object_cols x" and shape: "wf_row postgres x"
  shows "jrows types objs (linkSource postgres p) env =
     (case Option.bind (o_annotation x relates_to) Unmarshal of
        Some (JArr js) \<Rightarrow> map (\<lambda>j. env(''ref'' := entry VNull j)) js | _ \<Rightarrow> [])"
proof -
  have ok: "links_ok postgres x" using shape by (simp add: wf_row_def)
  show ?thesis
  proof (cases "o_annotation x relates_to")
    case None
    with link_body [OF shape] link_column [of x] show ?thesis
      by (auto simp: linkSource_def parent json_field_case)
  next
    case (Some s)
    with ok obtain rs where "Unmarshal s = Some (JArr (map JObj rs))" by (auto simp: links_ok_def)
    with Some link_body [OF shape] link_column [of x] show ?thesis
      by (auto simp: linkSource_def parent json_field_case fun_rows.simps elements_def)
  qed
qed

lemma linked_rows:
  assumes parent: "env p = object_cols x" and shape: "wf_row postgres x"
  shows "joins_rows types (map object_cols objs) [linkSource postgres p, JObjects c (linkConds postgres p c)] env =
     (case Option.bind (o_annotation x relates_to) Unmarshal of
        Some (JArr js) \<Rightarrow> concat (map (\<lambda>j. map (\<lambda>y. env(''ref'' := entry VNull j, c := object_cols y))
          (filter (names x (case j of JObj kvs \<Rightarrow> string_members kvs | _ \<Rightarrow> [])) objs)) js) | _ \<Rightarrow> [])"
proof (cases "o_annotation x relates_to")
  case None
  then show ?thesis by (simp add: linkSource_rows [where env = env, OF assms])
next
  case (Some s)
  have "links_ok postgres x" using shape by (simp add: wf_row_def)
  with Some obtain rs where rs: "Unmarshal s = Some (JArr (map JObj rs))" "\<forall>r \<in> set rs. strings_only r"
    by (auto simp: links_ok_def)
  have "jrows types (map object_cols objs) (JObjects c (linkConds postgres p c)) (env(''ref'' := entry VNull (JObj r))) =
      map (\<lambda>y. env(''ref'' := entry VNull (JObj r), c := object_cols y)) (filter (names x (string_members r)) objs)"
    if "r \<in> set rs" for r
    using that rs(2) by (intro jrows_filter links_hold [where env = env, OF parent]) simp
  then have "concat (map (\<lambda>r. jrows types (map object_cols objs) (JObjects c (linkConds postgres p c)) (env(''ref'' := entry VNull (JObj r)))) rs) =
      concat (map (\<lambda>r. map (\<lambda>y. env(''ref'' := entry VNull (JObj r), c := object_cols y)) (filter (names x (string_members r)) objs)) rs)"
    by (intro arg_cong [of _ _ concat] map_cong) simp_all
  with Some rs(1) show ?thesis
    by (simp add: linkSource_rows [where env = env, OF assms] comp_def joins_rows.simps(2) [of _ _ _ "[_]"] del: jrows.simps joins_rows.simps(2))
qed

end

subsection \<open>All relations\<close>

text \<open>A join fails when one of its conditions or its own table function does.\<close>

primrec join_fails :: "columns list \<Rightarrow> columns list \<Rightarrow> row_env \<Rightarrow> sjoin \<Rightarrow> bool" where
  "join_fails types objs env (JObjects a ps) = (\<exists>r \<in> set objs. \<exists>q \<in> set ps. pred_fails types (env(a := r)) q)"
| "join_fails types objs env (JEach e x) = fun_fails JsonEach (eeval env e)"
| "join_fails types objs env (JLateral e x) = fun_fails ArrayElements (eeval env e)"

context join_aliases begin

lemma references_hold:
  assumes parent: "env p = object_cols x" and shape: "wf_row postgres x"
  shows "all_hold types env y (referenceConds postgres p c kinds) \<longleftrightarrow> mentions kinds x y"
proof -
  have row: "at env y p = object_cols x" using parent distinct_aliases by simp
  have "VStr s \<in> set (nvals (at env y) (refQuery postgres p r)) \<longleftrightarrow> s \<in> ref_names x r" if "r \<in> set (refPaths kinds)" for r s
  proof (cases postgres)
    case True
    then show ?thesis using postgres_names [where env = "at env y", OF row] by simp
  next
    case False
    with shape that show ?thesis using lite_names [where env = "at env y", OF _ row, of r s] by (auto simp: wf_row_def refPaths_def)
  qed
  then show ?thesis
    using distinct_aliases parent by (auto simp: referenceConds_def mentions_def image_iff Bex_def)
qed

lemma single_rows:
  assumes parent: "env p = object_cols x" and shape: "wf_row postgres x" and rows: "\<forall>y \<in> set objs. wf_row postgres y" and single: "rel \<noteq> RelLinked"
  shows "joins_rows types (map object_cols objs) (relationJoin rel postgres p c kinds) env =
    map (\<lambda>y. env(c := object_cols y)) (found rel kinds x objs)"
proof -
  have wf: "y \<in> set objs \<Longrightarrow> wf_row postgres y" for y using rows by blast
  note found = jrows_filter [where types = types and env = env and c = c and objs = objs]
  have never: "jrows types (map object_cols objs) (JObjects c [PNever]) env = []" by simp
  have "relationJoin rel postgres p c kinds \<noteq> [] \<and> tl (relationJoin rel postgres p c kinds) = []"
    using single by (simp add: relationJoin_def)
  then have one: "joins_rows types (map object_cols objs) (relationJoin rel postgres p c kinds) env =
      jrows types (map object_cols objs) (hd (relationJoin rel postgres p c kinds)) env"
    by (cases "relationJoin rel postgres p c kinds") (simp_all del: joins_rows.simps jrows.simps)
  show ?thesis
    unfolding one using single
    by (simp add: relationJoin_def found_def related_def never found [OF descendants_hold [where env = env, OF parent wf]] found [OF owners_hold [where env = env, OF parent shape]]
        found [OF references_hold [where env = env, OF parent shape]] found [OF selects_hold(1) [where env = env, OF parent shape wf]]
        found [OF selects_hold(2) [where env = env, OF parent shape wf]] found [OF events_hold [where env = env, OF parent]] found [OF groups_hold [where env = env, OF parent]] del: jrows.simps joins_rows.simps)
qed

lemma relation_rows:
  assumes parent: "env p = object_cols x" and shape: "wf_row postgres x" and rows: "\<forall>y \<in> set objs. wf_row postgres y"
  shows "map (\<lambda>e. e c) (joins_rows types (map object_cols objs) (relationJoin rel postgres p c kinds) env) =
    map object_cols (found rel kinds x objs)"
proof (cases "rel = RelLinked")
  case True
  then have "found rel kinds x objs = concat (map (\<lambda>r. filter (names x r) objs) (links x))"
    by (simp add: found_def related_def)
  with True show ?thesis
    by (auto simp: relationJoin_def linked_rows [where env = env, OF parent shape] links_def map_concat comp_def simp del: joins_rows.simps split: option.split json.split)
next
  case False
  with single_rows [where env = env, OF parent shape rows] show ?thesis by (simp add: comp_def)
qed

lemma conds_fail:
  assumes parent: "env p = object_cols x"
  shows "\<not> (\<exists>q \<in> set (descendantConds postgres p c). pred_fails types (at env y) q)"
  "(\<exists>q \<in> set (ownerConds postgres p c). pred_fails types (at env y) q) \<longleftrightarrow> postgres \<and> o_ownerRefs x = None"
  "\<not> (\<exists>q \<in> set (referenceConds postgres p c kinds). pred_fails types (at env y) q)"
  "\<not> (\<exists>q \<in> set (eventConds postgres p c). pred_fails types (at env y) q)"
  "\<not> (\<exists>q \<in> set (groupConds postgres p c). pred_fails types (at env y) q)"
  "\<not> (\<exists>q \<in> set (linkConds postgres p c). pred_fails types e q)"
  using distinct_aliases
  by (simp_all add: descendantConds_def ownerConds_def referenceConds_def eventConds_def groupConds_def linkConds_def
      parent refs_json_def split: option.split)

lemma selectConds_fail:
  assumes "e h = object_cols z" "selector_ok postgres z"
  shows "\<not> (\<exists>q \<in> set (selectConds postgres p c h m). pred_fails types e q)"
proof -
  have "\<not> fun_fails JsonEach (eeval e (selectorOf False h))"
    using assms(2) by (cases rule: selector_cases) (simp_all add: selectorOf_value(2) [where e = e, OF assms(1)])
  then show ?thesis by (simp add: selectConds_def)
qed

lemma linkSource_fails:
  assumes parent: "env p = object_cols x" and shape: "wf_row postgres x"
  shows "\<not> join_fails types objs env (linkSource postgres p)"
proof -
  have ok: "links_ok postgres x" using shape by (simp add: wf_row_def)
  show ?thesis
  proof (cases "o_annotation x relates_to")
    case None
    with link_body [OF shape] link_column [of x] show ?thesis
      by (auto simp: linkSource_def parent json_field_case)
  next
    case (Some s)
    with ok obtain rs where "Unmarshal s = Some (JArr (map JObj rs))" by (auto simp: links_ok_def)
    with Some link_body [OF shape] link_column [of x] show ?thesis
      by (auto simp: linkSource_def parent json_field_case)
  qed
qed

lemma relation_fails:
  assumes parent: "env p = object_cols x" and shape: "wf_row postgres x" and rows: "\<forall>y \<in> set objs. wf_row postgres y"
  shows "(\<exists>j \<in> set (relationJoin rel postgres p c kinds). join_fails types (map object_cols objs) env j) \<longleftrightarrow>
    postgres \<and> rel = RelOwners \<and> o_ownerRefs x = None \<and> objs \<noteq> []"
proof -
  have ps: "join_fails types (map object_cols objs) env (JObjects c ps) \<longleftrightarrow> (\<exists>y \<in> set objs. \<exists>q \<in> set ps. pred_fails types (at env y) q)" for ps
    by simp
  have row: "at env y p = object_cols x" "at env y c = object_cols y" for y using parent distinct_aliases by simp_all
  have s1: "\<not> (\<exists>q \<in> set (selectConds postgres p c p c). pred_fails types (at env y) q)" for y
    using shape by (intro selectConds_fail [where e = "at env y", OF row(1)]) (simp add: wf_row_def)
  have s2: "\<not> (\<exists>q \<in> set (selectConds postgres p c c p). pred_fails types (at env y) q)" if "y \<in> set objs" for y
    using rows that by (intro selectConds_fail [where e = "at env y", OF row(2)]) (simp add: wf_row_def)
  have ne: "objs \<noteq> [] \<longleftrightarrow> (\<exists>y. y \<in> set objs)" by (cases objs) auto
  have never: "\<not> (\<exists>q \<in> set [PNever]. pred_fails types e q)" for e by simp
  have links: "\<not> (\<exists>y \<in> set objs. \<exists>q \<in> set (linkConds postgres p c). pred_fails types (at env y) q)" using conds_fail(6) [where env = env, OF parent] by blast
  show ?thesis
    unfolding ne relationJoin_def using conds_fail [where env = env, OF parent] s1 s2 never linkSource_fails [where env = env, OF parent shape] links
    by (simp add: ps conj_comms del: join_fails.simps)
qed

end



subsection \<open>What a join finds\<close>

lemma join_aliases_levels: "join_aliases ''l0'' ''l1''"
  by unfold_locales simp_all


definition web_context :: "string \<Rightarrow> relationContext" where
  "web_context dialect = \<lparr>rc_parentAlias = ''l0'', rc_childAlias = ''l1'', rc_dialect = dialect, rc_filters = [],
     rc_refRegistry = Some NewRefPathRegistry\<rparr>"


text \<open>A pod that mounts a secret: the references join, asked for secrets only, also finds the
  configuration map of the same name, before the kind is tested in the WHERE clause; without
  a kind nothing tests it.\<close>

theorem references_find_any_kind:
  "let pod = web_object\<lparr>o_group := [], o_kind := ''Pod'', o_body := [(''spec'', JObj [(''volumes'',
         JArr [JObj [(''secret'', JObj [(''secretName'', JStr ''db'')])]])])]\<rparr>;
       secret = web_object\<lparr>o_id := ''3'', o_group := [], o_kind := ''Secret'', o_name := ''db''\<rparr>;
       config = web_object\<lparr>o_id := ''4'', o_group := [], o_kind := ''ConfigMap'', o_name := ''db''\<rparr>
   in found RelReferences [] pod [secret, config] = [secret, config] \<and> children RelReferences [] pod [secret, config] = [secret]"
  by code_simp

text \<open>C38. The only relation whose join makes a statement fail on well-formed rows: on PostgreSQL the
  owners relation unnests the owner references of the parent, and the store writes the JSON null
  for an object without any, which PostgreSQL refuses to unnest. The join conditions of every
  other relation, and of every relation on SQLite, are evaluated without an error. The filters of a
  relation are not part of its join, and an object whose link annotation is not a list of objects
  is not well formed.\<close>

theorem relation_join_fails:
  assumes "rc_refRegistry ctx \<noteq> None" and "join_aliases (rc_parentAlias ctx) (rc_childAlias ctx)"
    and "env (rc_parentAlias ctx) = object_cols x"
    and "\<forall>y \<in> set (x # objs). wf_row (rc_dialect ctx = ''postgres'') y"
  shows "let joins = relationJoin rel (rc_dialect ctx = ''postgres'') (rc_parentAlias ctx) (rc_childAlias ctx)
        (targetKinds (rc_filters ctx))
    in fst (buildRelationJoin rel ctx) = Join (map jtext joins) '' '' \<and>
       (list_ex (join_fails types (map object_cols objs) env) joins \<longleftrightarrow>
          rc_dialect ctx = ''postgres'' \<and> rel = RelOwners \<and> o_ownerRefs x = None \<and> objs \<noteq> [])"
  using join_aliases.relation_fails [OF assms(2), where env = env and objs = objs and x = x] assms(3,4)
  by (simp add: relationJoin_text [OF assms(1)] Let_def list_ex_iff)

theorem relation_join_fails_witness:
  "list_ex (join_fails [] [object_cols web_object] (\<lambda>_. object_cols web_object)) (relationJoin RelOwners True ''l0'' ''l1'' [])"
proof -
  have "wf_row True web_object"
    by (simp add: wf_row_def uid_strings_def selector_ok_def links_ok_def body_at_def web_object_def o_annotation_def)
  then show ?thesis
    using relation_join_fails [of "web_context ''postgres''" "\<lambda>_. object_cols web_object" web_object "[web_object]" RelOwners]
      join_aliases_levels
    by (simp add: web_context_def Let_def targetKinds_def web_object_def del: join_fails.simps)
qed

end
