(* ===== verification/Subquery_Semantics.thy ===== *)
theory Subquery_Semantics
  imports Relation_Semantics Sql_Generator
begin

text \<open>
  What a subquery of \<open>generateWithRelations\<close> returns. The traversal writes, for every relation
  block, a SELECT over the root objects, the joins of all relations on the way to the block and
  the clauses of its filters. The invariant of the loop says that the join chain of a queued
  block is the text of the joins along its path in the spec; the rows of the subquery are then
  the ends of the chains of objects that the joins find from a root object, as far as they meet the
  filters.
\<close>

subsection \<open>Paths through the spec\<close>

type_synonym rel_path = "(string \<times> RelationSpec) list"


definition block_kinds :: "string \<times> RelationSpec \<Rightarrow> string list" where
  "block_kinds b = targetKinds (rs_Filters (snd b))"




subsection \<open>The join chain of a block\<close>















subsection \<open>Chains of related objects\<close>

type_synonym next_objects = "string \<Rightarrow> string list \<Rightarrow> sql_object \<Rightarrow> sql_object list \<Rightarrow> sql_object list"

text \<open>The chains along a path, with what leads from one object to the next as a parameter:
  \<open>children\<close> for the related objects, \<open>found\<close> for those that the joins find.\<close>

fun chains :: "next_objects \<Rightarrow> rel_path \<Rightarrow> sql_object list \<Rightarrow> sql_object \<Rightarrow> sql_object list list" where
  "chains step [] objs x = [[]]"
| "chains step (b # bs) objs x =
     concat (map (\<lambda>y. map ((#) y) (chains step bs objs y)) (step (BaseRelation (fst b)) (block_kinds b) x objs))"











subsection \<open>The result of a subquery\<close>
















subsection \<open>The filters of a block\<close>










subsection \<open>Properties\<close>




lemma chains_length: "c \<in> set (chains step bs objs x) \<Longrightarrow> length c = length bs"
  by (induction bs arbitrary: x c) auto






end
