(* ===== verification/Object_Store.thy ===== *)
theory Object_Store
  imports Kuery_Prelude
begin

text \<open>
  \<open>internal/store\<close>: the three tables and the operations on them. The database driver and
  GORM are a parameter: a record of the calls that the store makes, each of which may
  fail. What the store relies on is the locale \<open>gorm_db\<close>: a call that succeeds has the
  documented effect on the rows of its table and no other, a call that fails has none
  (its state is dropped). A row is a function from column names to values; the functions
  from models to rows follow the struct tags of \<open>models.go\<close>. GORM writes a column's
  default when the field holds the zero value, which matters for \<open>ttl\<close>.
\<close>

datatype colval = CString string | CTime gotime | CInt int64 | CBool bool | CNull

type_synonym row = "string \<Rightarrow> colval"

definition time_col :: "gotime option \<Rightarrow> colval" where
  "time_col t = (case t of None \<Rightarrow> CNull | Some x \<Rightarrow> CTime x)"

definition json_col :: "string option \<Rightarrow> colval" where
  "json_col j = (case j of None \<Rightarrow> CNull | Some s \<Rightarrow> CString s)"

subsection \<open>Models\<close>

record ObjectModel =
  om_ID :: string
  om_UID :: string
  om_Cluster :: string
  om_APIGroup :: string
  om_APIVersion :: string
  om_Kind :: string
  om_Resource :: string
  om_Namespace :: string
  om_Name :: string
  om_Labels :: "string option"
  om_Annotations :: "string option"
  om_OwnerRefs :: "string option"
  om_Conditions :: "string option"
  om_CreationTS :: "gotime option"
  om_ResourceVersion :: string
  om_Object :: "string option"

record ResourceTypeModel =
  rt_Cluster :: string
  rt_APIGroup :: string
  rt_APIVersion :: string
  rt_Kind :: string
  rt_Singular :: string
  rt_Resource :: string
  rt_ShortNames :: "string option"
  rt_Categories :: "string option"
  rt_Namespaced :: bool
  rt_Subresources :: "string option"
  rt_Identity :: string

record ClusterModel =
  cm_Name :: string
  cm_Status :: string
  cm_LastSeen :: gotime
  cm_EngagedAt :: "gotime option"
  cm_Labels :: "string option"
  cm_TTL :: int64

abbreviation objectsTable :: string where "objectsTable \<equiv> ''objects''"
abbreviation resourceTypesTable :: string where "resourceTypesTable \<equiv> ''resource_types''"
abbreviation clustersTable :: string where "clustersTable \<equiv> ''clusters''"
abbreviation objectLabelsTable :: string where "objectLabelsTable \<equiv> ''object_labels''"

text \<open>A row of the columns listed, all others absent.\<close>

definition row_of :: "(string \<times> colval) list \<Rightarrow> row" where
  "row_of cvs c = (case map_of cvs c of None \<Rightarrow> CNull | Some v \<Rightarrow> v)"

definition objectRow :: "ObjectModel \<Rightarrow> row" where
  "objectRow o1 = row_of
     [(''id'', CString (om_ID o1)), (''uid'', CString (om_UID o1)), (''cluster'', CString (om_Cluster o1)),
      (''api_group'', CString (om_APIGroup o1)), (''api_version'', CString (om_APIVersion o1)),
      (''kind'', CString (om_Kind o1)), (''resource'', CString (om_Resource o1)),
      (''namespace'', CString (om_Namespace o1)), (''name'', CString (om_Name o1)),
      (''labels'', json_col (om_Labels o1)), (''annotations'', json_col (om_Annotations o1)),
      (''owner_refs'', json_col (om_OwnerRefs o1)), (''conditions'', json_col (om_Conditions o1)),
      (''creation_ts'', time_col (om_CreationTS o1)), (''resource_version'', CString (om_ResourceVersion o1)),
      (''object'', json_col (om_Object o1))]"

definition resourceTypeRow :: "ResourceTypeModel \<Rightarrow> row" where
  "resourceTypeRow rt = row_of
     [(''cluster'', CString (rt_Cluster rt)), (''api_group'', CString (rt_APIGroup rt)),
      (''api_version'', CString (rt_APIVersion rt)), (''kind'', CString (rt_Kind rt)),
      (''singular'', CString (rt_Singular rt)), (''resource'', CString (rt_Resource rt)),
      (''short_names'', json_col (rt_ShortNames rt)), (''categories'', json_col (rt_Categories rt)),
      (''namespaced'', CBool (rt_Namespaced rt)), (''subresources'', json_col (rt_Subresources rt)),
      (''identity'', CString (rt_Identity rt))]"

definition clusterRow :: "ClusterModel \<Rightarrow> row" where
  "clusterRow c = row_of
     [(''name'', CString (cm_Name c)), (''status'', CString (cm_Status c)), (''last_seen'', CTime (cm_LastSeen c)),
      (''engaged_at'', time_col (cm_EngagedAt c)), (''labels'', json_col (cm_Labels c)),
      (''ttl'', CInt (if cm_TTL c = 0 then 3600 else cm_TTL c))]"

text \<open>Reading a row back into a struct: a NULL leaves the field at its zero value.\<close>

definition col_string :: "colval \<Rightarrow> string" where
  "col_string v = (case v of CString s \<Rightarrow> s | _ \<Rightarrow> [])"

definition col_json :: "colval \<Rightarrow> string option" where
  "col_json v = (case v of CString s \<Rightarrow> Some s | _ \<Rightarrow> None)"

definition col_time :: "colval \<Rightarrow> gotime option" where
  "col_time v = (case v of CTime t \<Rightarrow> Some t | _ \<Rightarrow> None)"

definition rowObjectModel :: "row \<Rightarrow> ObjectModel" where
  "rowObjectModel r =
     \<lparr>om_ID = col_string (r ''id''), om_UID = col_string (r ''uid''), om_Cluster = col_string (r ''cluster''),
      om_APIGroup = col_string (r ''api_group''), om_APIVersion = col_string (r ''api_version''),
      om_Kind = col_string (r ''kind''), om_Resource = col_string (r ''resource''),
      om_Namespace = col_string (r ''namespace''), om_Name = col_string (r ''name''),
      om_Labels = col_json (r ''labels''), om_Annotations = col_json (r ''annotations''),
      om_OwnerRefs = col_json (r ''owner_refs''), om_Conditions = col_json (r ''conditions''),
      om_CreationTS = col_time (r ''creation_ts''), om_ResourceVersion = col_string (r ''resource_version''),
      om_Object = col_json (r ''object'')\<rparr>"

definition rowClusterModel :: "row \<Rightarrow> ClusterModel" where
  "rowClusterModel r =
     \<lparr>cm_Name = col_string (r ''name''), cm_Status = col_string (r ''status''),
      cm_LastSeen = (case col_time (r ''last_seen'') of None \<Rightarrow> 0 | Some t \<Rightarrow> t),
      cm_EngagedAt = col_time (r ''engaged_at''), cm_Labels = col_json (r ''labels''),
      cm_TTL = (case r ''ttl'' of CInt n \<Rightarrow> n | _ \<Rightarrow> 0)\<rparr>"

subsection \<open>The calls of GORM\<close>

record 'db gorm =
  g_create :: "'db \<Rightarrow> string \<Rightarrow> string list \<Rightarrow> string list \<Rightarrow> row \<Rightarrow> 'db result"
  g_delete :: "'db \<Rightarrow> string \<Rightarrow> string \<Rightarrow> colval list \<Rightarrow> 'db result"
  g_update :: "'db \<Rightarrow> string \<Rightarrow> string \<Rightarrow> colval list \<Rightarrow> string \<Rightarrow> colval \<Rightarrow> 'db result"
  g_first :: "'db \<Rightarrow> string \<Rightarrow> string \<Rightarrow> colval list \<Rightarrow> row result"
  g_find :: "'db \<Rightarrow> string \<Rightarrow> string \<Rightarrow> colval list \<Rightarrow> row list result"
  g_migrate :: "'db \<Rightarrow> string list \<Rightarrow> 'db result"
  g_exec :: "'db \<Rightarrow> string \<Rightarrow> 'db result"
  g_DB :: "'db \<Rightarrow> unit result"
  g_close :: "'db \<Rightarrow> 'db result"

subsection \<open>The store\<close>

record Config =
  cfg_Driver :: string
  cfg_DSN :: string

record 'db store =
  st_db :: 'db
  st_driver :: string

text \<open>\<open>newSQLiteDB\<close> ignores the outcome of its two PRAGMA statements.\<close>

definition newSQLiteDB :: "'db gorm \<Rightarrow> (string \<Rightarrow> 'db result) \<Rightarrow> string \<Rightarrow> 'db result" where
  "newSQLiteDB g openSQLite dsn =
     andthen (openSQLite dsn) (\<lambda>db.
       let exec = (\<lambda>db sql. case g_exec g db sql of Inl _ \<Rightarrow> db | Inr db' \<Rightarrow> db')
       in Inr (exec (exec db ''PRAGMA journal_mode=WAL'') ''PRAGMA foreign_keys=ON''))"

definition newPostgresDB :: "(string \<Rightarrow> 'db result) \<Rightarrow> string \<Rightarrow> 'db result" where
  "newPostgresDB openPostgres dsn = openPostgres dsn"

definition NewStore ::
  "'db gorm \<Rightarrow> (string \<Rightarrow> 'db result) \<Rightarrow> (string \<Rightarrow> 'db result) \<Rightarrow> Config \<Rightarrow> 'db store result" where
  "NewStore g openSQLite openPostgres cfg =
     (let opened = (\<lambda>r. case r of Inl e \<Rightarrow> Inl (Wrapped ''failed to open database'' e)
                        | Inr db \<Rightarrow> Inr \<lparr>st_db = db, st_driver = cfg_Driver cfg\<rparr>)
      in if cfg_Driver cfg = ''sqlite'' then opened (newSQLiteDB g openSQLite (cfg_DSN cfg))
         else if cfg_Driver cfg = ''postgres'' then opened (newPostgresDB openPostgres (cfg_DSN cfg))
         else Inl (UnsupportedDriver (cfg_Driver cfg)))"

definition ginIndexes :: "string list" where
  "ginIndexes =
     [''CREATE INDEX IF NOT EXISTS idx_obj_labels_gin ON objects USING GIN(labels)'',
      ''CREATE INDEX IF NOT EXISTS idx_obj_owner_refs_gin ON objects USING GIN(owner_refs)'',
      ''CREATE INDEX IF NOT EXISTS idx_obj_conditions_gin ON objects USING GIN(conditions)'',
      ''CREATE INDEX IF NOT EXISTS idx_rt_categories_gin ON resource_types USING GIN(categories)'',
      ''CREATE INDEX IF NOT EXISTS idx_rt_short_names_gin ON resource_types USING GIN(short_names)'']"

definition migrateSQLite :: "'db gorm \<Rightarrow> 'db \<Rightarrow> 'db result" where
  "migrateSQLite g db = g_migrate g db [objectLabelsTable]"

fun execAll :: "'db gorm \<Rightarrow> 'db \<Rightarrow> string list \<Rightarrow> 'db result" where
  "execAll g db [] = Inr db"
| "execAll g db (sql # sqls) = andthen (g_exec g db sql) (\<lambda>db'. execAll g db' sqls)"

definition migratePostgres :: "'db gorm \<Rightarrow> 'db \<Rightarrow> 'db result" where
  "migratePostgres g db = execAll g db ginIndexes"

definition AutoMigrate :: "'db gorm \<Rightarrow> 'db store \<Rightarrow> 'db store result" where
  "AutoMigrate g s =
     (case g_migrate g (st_db s) [objectsTable, resourceTypesTable, clustersTable] of
        Inl e \<Rightarrow> Inl (Wrapped ''auto-migrate core tables'' e)
      | Inr db \<Rightarrow>
          if st_driver s = ''sqlite'' then
            (case migrateSQLite g db of
               Inl e \<Rightarrow> Inl (Wrapped ''sqlite-specific migration'' e) | Inr db' \<Rightarrow> Inr (s\<lparr>st_db := db'\<rparr>))
          else if st_driver s = ''postgres'' then
            (case migratePostgres g db of
               Inl e \<Rightarrow> Inl (Wrapped ''postgres-specific migration'' e) | Inr db' \<Rightarrow> Inr (s\<lparr>st_db := db'\<rparr>))
          else Inr (s\<lparr>st_db := db\<rparr>))"

definition UpsertObject :: "'db gorm \<Rightarrow> 'db \<Rightarrow> ObjectModel \<Rightarrow> 'db result" where
  "UpsertObject g db obj =
     g_create g db objectsTable
       [''cluster'', ''api_group'', ''kind'', ''namespace'', ''name'']
       [''uid'', ''api_version'', ''resource'', ''labels'', ''annotations'',
        ''owner_refs'', ''conditions'', ''creation_ts'', ''resource_version'', ''object'']
       (objectRow obj)"

definition DeleteObject ::
  "'db gorm \<Rightarrow> 'db \<Rightarrow> string \<Rightarrow> string \<Rightarrow> string \<Rightarrow> string \<Rightarrow> string \<Rightarrow> 'db result" where
  "DeleteObject g db cluster apiGroup kind namespace name =
     g_delete g db objectsTable
       ''cluster = ? AND api_group = ? AND kind = ? AND namespace = ? AND name = ?''
       [CString cluster, CString apiGroup, CString kind, CString namespace, CString name]"

definition GetObject :: "'db gorm \<Rightarrow> 'db \<Rightarrow> string \<Rightarrow> ObjectModel result" where
  "GetObject g db uuid = andthen (g_first g db objectsTable ''id = ?'' [CString uuid]) (\<lambda>r. Inr (rowObjectModel r))"

definition UpsertResourceType :: "'db gorm \<Rightarrow> 'db \<Rightarrow> ResourceTypeModel \<Rightarrow> 'db result" where
  "UpsertResourceType g db rt =
     g_create g db resourceTypesTable
       [''cluster'', ''api_group'', ''resource'', ''identity'']
       [''api_version'', ''kind'', ''singular'', ''short_names'', ''categories'', ''namespaced'', ''subresources'']
       (resourceTypeRow rt)"

definition DeleteResourceTypesForCluster :: "'db gorm \<Rightarrow> 'db \<Rightarrow> string \<Rightarrow> 'db result" where
  "DeleteResourceTypesForCluster g db cluster =
     g_delete g db resourceTypesTable ''cluster = ?'' [CString cluster]"

definition UpsertCluster :: "'db gorm \<Rightarrow> 'db \<Rightarrow> ClusterModel \<Rightarrow> 'db result" where
  "UpsertCluster g db c =
     g_create g db clustersTable [''name'']
       [''status'', ''last_seen'', ''engaged_at'', ''labels'', ''ttl''] (clusterRow c)"

definition GetCluster :: "'db gorm \<Rightarrow> 'db \<Rightarrow> string \<Rightarrow> ClusterModel result" where
  "GetCluster g db name = andthen (g_first g db clustersTable ''name = ?'' [CString name]) (\<lambda>r. Inr (rowClusterModel r))"

definition ListStaleClusters :: "'db gorm \<Rightarrow> 'db \<Rightarrow> gotime \<Rightarrow> ClusterModel list result" where
  "ListStaleClusters g db expiredBefore =
     andthen (g_find g db clustersTable ''status = ? AND last_seen < ?'' [CString ''stale'', CTime expiredBefore])
       (\<lambda>rs. Inr (map rowClusterModel rs))"

definition DeleteCluster :: "'db gorm \<Rightarrow> 'db \<Rightarrow> string \<Rightarrow> 'db result" where
  "DeleteCluster g db name = g_delete g db clustersTable ''name = ?'' [CString name]"

definition DeleteObjectsForCluster :: "'db gorm \<Rightarrow> 'db \<Rightarrow> string \<Rightarrow> 'db result" where
  "DeleteObjectsForCluster g db cluster = g_delete g db objectsTable ''cluster = ?'' [CString cluster]"

definition Close :: "'db gorm \<Rightarrow> 'db store \<Rightarrow> 'db result" where
  "Close g s = andthen (g_DB g (st_db s)) (\<lambda>_. g_close g (st_db s))"


text \<open>The interface \<open>Store\<close>, and the store as a value of it. Each method that writes
  returns the new state of the database.\<close>

record 'db Store =
  s_UpsertObject :: "'db \<Rightarrow> ObjectModel \<Rightarrow> 'db result"
  s_DeleteObject :: "'db \<Rightarrow> string \<Rightarrow> string \<Rightarrow> string \<Rightarrow> string \<Rightarrow> string \<Rightarrow> 'db result"
  s_GetObject :: "'db \<Rightarrow> string \<Rightarrow> ObjectModel result"
  s_UpsertResourceType :: "'db \<Rightarrow> ResourceTypeModel \<Rightarrow> 'db result"
  s_DeleteResourceTypesForCluster :: "'db \<Rightarrow> string \<Rightarrow> 'db result"
  s_UpsertCluster :: "'db \<Rightarrow> ClusterModel \<Rightarrow> 'db result"
  s_GetCluster :: "'db \<Rightarrow> string \<Rightarrow> ClusterModel result"
  s_ListStaleClusters :: "'db \<Rightarrow> gotime \<Rightarrow> ClusterModel list result"
  s_DeleteCluster :: "'db \<Rightarrow> string \<Rightarrow> 'db result"
  s_DeleteObjectsForCluster :: "'db \<Rightarrow> string \<Rightarrow> 'db result"

definition gormStore :: "'db gorm \<Rightarrow> 'db Store" where
  "gormStore g =
     \<lparr>s_UpsertObject = UpsertObject g, s_DeleteObject = DeleteObject g, s_GetObject = GetObject g,
      s_UpsertResourceType = UpsertResourceType g,
      s_DeleteResourceTypesForCluster = DeleteResourceTypesForCluster g,
      s_UpsertCluster = UpsertCluster g, s_GetCluster = GetCluster g,
      s_ListStaleClusters = ListStaleClusters g, s_DeleteCluster = DeleteCluster g,
      s_DeleteObjectsForCluster = DeleteObjectsForCluster g\<rparr>"

subsection \<open>What the calls do to the tables\<close>

definition same_on :: "string list \<Rightarrow> row \<Rightarrow> row \<Rightarrow> bool" where
  "same_on cols r r' \<longleftrightarrow> map r cols = map r' cols"

definition assign :: "string list \<Rightarrow> row \<Rightarrow> row \<Rightarrow> row" where
  "assign cols new old = (\<lambda>c. if c \<in> set cols then new c else old c)"

definition upsert_rows :: "string list \<Rightarrow> string list \<Rightarrow> row \<Rightarrow> row list \<Rightarrow> row list" where
  "upsert_rows key upd r rs =
     (if list_ex (same_on key r) rs then map (\<lambda>x. if same_on key r x then assign upd r x else x) rs
      else rs @ [r])"

definition eqs :: "string list \<Rightarrow> string" where
  "eqs cols = Join (map (\<lambda>c. c @ '' = ?'') cols) '' AND ''"

definition plain_col :: "string \<Rightarrow> bool" where
  "plain_col c \<longleftrightarrow> CHR '' '' \<notin> set c \<and> c \<notin> {[], ''='', ''?'', ''AND''}"

definition older :: "string \<Rightarrow> gotime \<Rightarrow> row \<Rightarrow> bool" where
  "older c t r = (case r c of CTime x \<Rightarrow> x < t | _ \<Rightarrow> False)"

text \<open>The documented behaviour of GORM that the store relies on.\<close>

locale gorm_db =
  fixes g :: "'db gorm" and tables :: "'db \<Rightarrow> string \<Rightarrow> row list"
  assumes create: "g_create g db t key upd r = Inr db' \<Longrightarrow>
      tables db' = (tables db)(t := upsert_rows key upd r (tables db t))"
    and delete: "g_delete g db t (eqs cols) vals = Inr db' \<Longrightarrow> list_all plain_col cols \<Longrightarrow>
      tables db' = (tables db)(t := filter (\<lambda>r. map r cols \<noteq> vals) (tables db t))"
    and update: "g_update g db t (eqs cols) vals c v = Inr db' \<Longrightarrow> list_all plain_col cols \<Longrightarrow>
      tables db' = (tables db)(t := map (\<lambda>r. if map r cols = vals then r(c := v) else r) (tables db t))"
    and first: "g_first g db t (eqs cols) vals = Inr r \<Longrightarrow> list_all plain_col cols \<Longrightarrow>
      r \<in> set (tables db t) \<and> map r cols = vals"
    and stale: "g_find g db t ''status = ? AND last_seen < ?'' [CString s, CTime u] = Inr rs \<Longrightarrow>
      set rs = {r \<in> set (tables db t). r ''status'' = CString s \<and> older ''last_seen'' u r}"

text \<open>The contract of the interface, in terms of the three tables.\<close>

definition objectKey :: "string list" where
  "objectKey = [''cluster'', ''api_group'', ''kind'', ''namespace'', ''name'']"

definition objectUpdates :: "string list" where
  "objectUpdates = [''uid'', ''api_version'', ''resource'', ''labels'', ''annotations'',
     ''owner_refs'', ''conditions'', ''creation_ts'', ''resource_version'', ''object'']"

definition typeKey :: "string list" where
  "typeKey = [''cluster'', ''api_group'', ''resource'', ''identity'']"

definition typeUpdates :: "string list" where
  "typeUpdates = [''api_version'', ''kind'', ''singular'', ''short_names'', ''categories'', ''namespaced'', ''subresources'']"

definition clusterUpdates :: "string list" where
  "clusterUpdates = [''status'', ''last_seen'', ''engaged_at'', ''labels'', ''ttl'']"

locale store_contract =
  fixes s :: "'db Store" and tables :: "'db \<Rightarrow> string \<Rightarrow> row list"
  assumes UpsertObject: "s_UpsertObject s db obj = Inr db' \<Longrightarrow>
      tables db' = (tables db)(objectsTable := upsert_rows objectKey objectUpdates (objectRow obj) (tables db objectsTable))"
    and DeleteObject: "s_DeleteObject s db cl gr k ns n = Inr db' \<Longrightarrow>
      tables db' = (tables db)(objectsTable :=
        filter (\<lambda>r. map r objectKey \<noteq> map CString [cl, gr, k, ns, n]) (tables db objectsTable))"
    and UpsertResourceType: "s_UpsertResourceType s db rt = Inr db' \<Longrightarrow>
      tables db' = (tables db)(resourceTypesTable :=
        upsert_rows typeKey typeUpdates (resourceTypeRow rt) (tables db resourceTypesTable))"
    and DeleteResourceTypesForCluster: "s_DeleteResourceTypesForCluster s db cl = Inr db' \<Longrightarrow>
      tables db' = (tables db)(resourceTypesTable :=
        filter (\<lambda>r. r ''cluster'' \<noteq> CString cl) (tables db resourceTypesTable))"
    and UpsertCluster: "s_UpsertCluster s db c = Inr db' \<Longrightarrow>
      tables db' = (tables db)(clustersTable := upsert_rows [''name''] clusterUpdates (clusterRow c) (tables db clustersTable))"
    and ListStaleClusters: "s_ListStaleClusters s db t = Inr cs \<Longrightarrow>
      set cs = rowClusterModel ` {r \<in> set (tables db clustersTable). r ''status'' = CString ''stale'' \<and> older ''last_seen'' t r}"
    and DeleteCluster: "s_DeleteCluster s db cl = Inr db' \<Longrightarrow>
      tables db' = (tables db)(clustersTable := filter (\<lambda>r. r ''name'' \<noteq> CString cl) (tables db clustersTable))"
    and DeleteObjectsForCluster: "s_DeleteObjectsForCluster s db cl = Inr db' \<Longrightarrow>
      tables db' = (tables db)(objectsTable := filter (\<lambda>r. r ''cluster'' \<noteq> CString cl) (tables db objectsTable))"

lemma where_literals:
  "eqs objectKey = ''cluster = ? AND api_group = ? AND kind = ? AND namespace = ? AND name = ?''"
  "eqs [''cluster''] = ''cluster = ?''" "eqs [''name''] = ''name = ?''" "eqs [''id''] = ''id = ?''"
  "list_all plain_col objectKey" "list_all plain_col [''cluster'']" "list_all plain_col [''name'']" "list_all plain_col [''id'']"
  by code_simp+

lemmas store_defs = UpsertObject_def DeleteObject_def GetObject_def UpsertResourceType_def
  DeleteResourceTypesForCluster_def UpsertCluster_def GetCluster_def ListStaleClusters_def DeleteCluster_def
  DeleteObjectsForCluster_def

text \<open>The store meets the contract on any database with that behaviour.\<close>

sublocale gorm_db \<subseteq> store_contract "gormStore g" tables
proof unfold_locales
  fix db db' obj rt c cl gr k ns n t cs
  show "s_UpsertObject (gormStore g) db obj = Inr db' \<Longrightarrow> tables db' = (tables db)(objectsTable :=
      upsert_rows objectKey objectUpdates (objectRow obj) (tables db objectsTable))"
    using create [of db objectsTable objectKey objectUpdates "objectRow obj" db']
    by (simp add: gormStore_def UpsertObject_def objectKey_def objectUpdates_def)
  show "s_DeleteObject (gormStore g) db cl gr k ns n = Inr db' \<Longrightarrow> tables db' = (tables db)(objectsTable :=
      filter (\<lambda>r. map r objectKey \<noteq> map CString [cl, gr, k, ns, n]) (tables db objectsTable))"
    using delete [of db objectsTable objectKey "map CString [cl, gr, k, ns, n]" db'] where_literals
    by (simp add: gormStore_def DeleteObject_def)
  show "s_UpsertResourceType (gormStore g) db rt = Inr db' \<Longrightarrow> tables db' = (tables db)(resourceTypesTable :=
      upsert_rows typeKey typeUpdates (resourceTypeRow rt) (tables db resourceTypesTable))"
    using create [of db resourceTypesTable typeKey typeUpdates "resourceTypeRow rt" db']
    by (simp add: gormStore_def UpsertResourceType_def typeKey_def typeUpdates_def)
  show "s_DeleteResourceTypesForCluster (gormStore g) db cl = Inr db' \<Longrightarrow> tables db' = (tables db)(resourceTypesTable :=
      filter (\<lambda>r. r ''cluster'' \<noteq> CString cl) (tables db resourceTypesTable))"
    using delete [of db resourceTypesTable "[''cluster'']" "[CString cl]" db'] where_literals
    by (simp add: gormStore_def DeleteResourceTypesForCluster_def)
  show "s_UpsertCluster (gormStore g) db c = Inr db' \<Longrightarrow> tables db' = (tables db)(clustersTable :=
      upsert_rows [''name''] clusterUpdates (clusterRow c) (tables db clustersTable))"
    using create [of db clustersTable "[''name'']" clusterUpdates "clusterRow c" db']
    by (simp add: gormStore_def UpsertCluster_def clusterUpdates_def)
  show "s_ListStaleClusters (gormStore g) db t = Inr cs \<Longrightarrow> set cs = rowClusterModel `
      {r \<in> set (tables db clustersTable). r ''status'' = CString ''stale'' \<and> older ''last_seen'' t r}"
    using stale [of db clustersTable "''stale''" t]
    by (cases "g_find g db clustersTable ''status = ? AND last_seen < ?'' [CString ''stale'', CTime t]")
      (simp_all add: gormStore_def ListStaleClusters_def, metis list.set_map)
  show "s_DeleteCluster (gormStore g) db cl = Inr db' \<Longrightarrow> tables db' = (tables db)(clustersTable :=
      filter (\<lambda>r. r ''name'' \<noteq> CString cl) (tables db clustersTable))"
    using delete [of db clustersTable "[''name'']" "[CString cl]" db'] where_literals
    by (simp add: gormStore_def DeleteCluster_def)
  show "s_DeleteObjectsForCluster (gormStore g) db cl = Inr db' \<Longrightarrow> tables db' = (tables db)(objectsTable :=
      filter (\<lambda>r. r ''cluster'' \<noteq> CString cl) (tables db objectsTable))"
    using delete [of db objectsTable "[''cluster'']" "[CString cl]" db'] where_literals
    by (simp add: gormStore_def DeleteObjectsForCluster_def)
qed


subsection \<open>Tables in memory\<close>

text \<open>A database that keeps its tables as lists of rows and reads the conditions by their
  words.\<close>

definition where_cols :: "string \<Rightarrow> string list" where
  "where_cols wh = filter (\<lambda>w. w \<notin> {[], ''='', ''?'', ''AND''}) (Split wh (CHR '' ''))"

definition mem_gorm :: "(string \<Rightarrow> row list) gorm" where
  "mem_gorm =
     \<lparr>g_create = (\<lambda>db t key upd r. Inr (db(t := upsert_rows key upd r (db t)))),
      g_delete = (\<lambda>db t wh vals. Inr (db(t := filter (\<lambda>r. map r (where_cols wh) \<noteq> vals) (db t)))),
      g_update = (\<lambda>db t wh vals c v. Inr (db(t := map (\<lambda>r. if map r (where_cols wh) = vals then r(c := v) else r) (db t)))),
      g_first = (\<lambda>db t wh vals. case find (\<lambda>r. map r (where_cols wh) = vals) (db t) of
         None \<Rightarrow> Inl (ExternalError ''record not found'') | Some r \<Rightarrow> Inr r),
      g_find = (\<lambda>db t wh vals. case vals of
         [v, CTime u] \<Rightarrow> Inr (filter (\<lambda>r. r ''status'' = v \<and> older ''last_seen'' u r) (db t))
       | _ \<Rightarrow> Inl (ExternalError ''unsupported query'')),
      g_migrate = (\<lambda>db _. Inr db), g_exec = (\<lambda>db _. Inr db), g_DB = (\<lambda>_. Inr ()), g_close = Inr\<rparr>"

lemma Split_eq:
  assumes "CHR '' '' \<notin> set c"
  shows "Split (c @ '' = ?'') (CHR '' '') = [c, ''='', ''?'']"
proof -
  have "Split (c @ CHR '' '' # ''= ?'') (CHR '' '') = [c, ''='', ''?'']"
    by (simp only: Split_append_sep Split_no_sep [OF assms]) simp
  then show ?thesis by simp
qed

lemma Split_eq_and:
  assumes "CHR '' '' \<notin> set c"
  shows "Split ((c @ '' = ?'') @ '' AND '' @ rest) (CHR '' '') = [c, ''='', ''?'', ''AND''] @ Split rest (CHR '' '')"
proof -
  have "(c @ '' = ?'') @ '' AND '' @ rest = (c @ '' = ?'') @ CHR '' '' # ''AND'' @ CHR '' '' # rest" by simp
  then show ?thesis by (simp only: Split_append_sep Split_no_sep [OF assms]) simp
qed

lemma where_cols_eqs: "list_all plain_col cols \<Longrightarrow> where_cols (eqs cols) = cols"
proof (induction cols)
  case Nil
  then show ?case by (simp add: where_cols_def eqs_def)
next
  case (Cons c cols)
  show ?case
  proof (cases "cols = []")
    case True
    with Cons.prems show ?thesis by (simp add: where_cols_def eqs_def plain_col_def Split_eq del: append_Cons)
  next
    case False
    then have "eqs (c # cols) = (c @ '' = ?'') @ '' AND '' @ eqs cols" by (simp add: eqs_def Join_Cons)
    with Cons False show ?thesis
      by (simp add: where_cols_def plain_col_def Split_eq_and del: append_assoc append_Cons)
  qed
qed

interpretation mem: gorm_db mem_gorm "\<lambda>db. db"
  by unfold_locales
    (auto simp: mem_gorm_def where_cols_eqs find_Some_iff in_set_conv_nth split: option.splits)

subsection \<open>Objects as a map\<close>

definition object_at :: "row list \<Rightarrow> colval list \<Rightarrow> row option" where
  "object_at rs k = find (\<lambda>r. map r objectKey = k) rs"

definition keyOf :: "ObjectModel \<Rightarrow> colval list" where
  "keyOf obj = map CString [om_Cluster obj, om_APIGroup obj, om_Kind obj, om_Namespace obj, om_Name obj]"

lemma object_at_Nil [simp]: "object_at [] = (\<lambda>_. None)"
  by (simp add: object_at_def fun_eq_iff)

lemma objectRow_key: "map (objectRow obj) objectKey = keyOf obj"
  by (simp add: objectRow_def objectKey_def keyOf_def row_of_def)

lemma assign_key: "set key \<inter> set upd = {} \<Longrightarrow> map (assign upd r x) key = map x key"
  by (auto simp: assign_def)

lemma objectKey_updates: "set objectKey \<inter> set objectUpdates = {}"
  by (auto simp: objectKey_def objectUpdates_def)

lemma find_filter_key:
  "find (\<lambda>r. f r = k) (filter (\<lambda>r. f r \<noteq> k') rs) = (if k = k' then None else find (\<lambda>r. f r = k) rs)"
  by (induction rs) auto

lemma find_map_key:
  "(\<And>x. f (h x) = f x) \<Longrightarrow>
   find (\<lambda>r. f r = k) (map (\<lambda>x. if f x = k' then h x else x) rs) =
     (if k = k' then map_option h (find (\<lambda>r. f r = k) rs) else find (\<lambda>r. f r = k) rs)"
  by (induction rs) auto

lemma find_append: "find P (xs @ ys) = (case find P xs of None \<Rightarrow> find P ys | Some x \<Rightarrow> Some x)"
  by (induction xs) auto

lemma upsert_objects_at:
  "object_at (upsert_rows objectKey objectUpdates (objectRow obj) rs) =
     (object_at rs)(keyOf obj \<mapsto> (case object_at rs (keyOf obj) of
        None \<Rightarrow> objectRow obj | Some old \<Rightarrow> assign objectUpdates (objectRow obj) old))"
proof
  fix k
  let ?k = "keyOf obj" and ?f = "\<lambda>r. map r objectKey"
  have ex: "list_ex (same_on objectKey (objectRow obj)) rs \<longleftrightarrow> object_at rs ?k \<noteq> None"
    by (auto simp: list_ex_iff object_at_def same_on_def objectRow_key find_None_iff dest: sym)
  have s: "same_on objectKey (objectRow obj) x \<longleftrightarrow> ?f x = ?k" for x
    by (auto simp: same_on_def objectRow_key)
  show "object_at (upsert_rows objectKey objectUpdates (objectRow obj) rs) k =
     ((object_at rs)(?k \<mapsto> (case object_at rs ?k of
        None \<Rightarrow> objectRow obj | Some old \<Rightarrow> assign objectUpdates (objectRow obj) old))) k"
  proof (cases "object_at rs ?k")
    case None
    with ex show ?thesis
      by (auto simp: upsert_rows_def object_at_def find_append objectRow_key split: option.split)
  next
    case (Some old)
    with ex have "upsert_rows objectKey objectUpdates (objectRow obj) rs =
        map (\<lambda>x. if ?f x = ?k then assign objectUpdates (objectRow obj) x else x) rs"
      by (simp add: upsert_rows_def s)
    with Some show ?thesis
      unfolding object_at_def
      using find_map_key [of ?f "assign objectUpdates (objectRow obj)" k ?k rs] assign_key [OF objectKey_updates]
      by auto
  qed
qed

lemma delete_objects_at:
  "object_at (filter (\<lambda>r. map r objectKey \<noteq> k) rs) = (object_at rs)(k := None)"
  by (auto simp: object_at_def find_filter_key)

lemma rowObjectModel_objectRow: "rowObjectModel (objectRow obj) = obj"
  by (cases obj) (simp add: rowObjectModel_def objectRow_def row_of_def col_string_def col_json_def col_time_def
      json_col_def time_col_def split: option.split)

text \<open>No two rows of a table share a key.\<close>

definition keys_unique :: "string list \<Rightarrow> row list \<Rightarrow> bool" where
  "keys_unique key rs \<longleftrightarrow> distinct (map (\<lambda>r. map r key) rs)"

lemma keys_unique_upsert:
  assumes "keys_unique key rs" "set key \<inter> set upd = {}"
  shows "keys_unique key (upsert_rows key upd r rs)"
proof (cases "list_ex (same_on key r) rs")
  case True
  have "map (\<lambda>x. map x key) (map (\<lambda>x. if same_on key r x then assign upd r x else x) rs) = map (\<lambda>x. map x key) rs"
    using assign_key [OF assms(2)] by simp
  with True assms(1) show ?thesis unfolding keys_unique_def upsert_rows_def by (simp only: if_True)
next
  case False
  with assms(1) show ?thesis by (auto simp: keys_unique_def upsert_rows_def list_ex_iff same_on_def)
qed

lemma keys_unique_filter: "keys_unique key rs \<Longrightarrow> keys_unique key (filter P rs)"
  unfolding keys_unique_def by (rule distinct_map_filter)


subsection \<open>Sequences of store operations\<close>

datatype store_op =
    OpUpsertObject ObjectModel
  | OpDeleteObject string string string string string
  | OpUpsertResourceType ResourceTypeModel
  | OpDeleteResourceTypes string
  | OpUpsertCluster ClusterModel
  | OpDeleteCluster string
  | OpDeleteObjects string

fun apply_op :: "'db Store \<Rightarrow> 'db \<Rightarrow> store_op \<Rightarrow> 'db result" where
  "apply_op s db (OpUpsertObject obj) = s_UpsertObject s db obj"
| "apply_op s db (OpDeleteObject cl gr k ns n) = s_DeleteObject s db cl gr k ns n"
| "apply_op s db (OpUpsertResourceType rt) = s_UpsertResourceType s db rt"
| "apply_op s db (OpDeleteResourceTypes cl) = s_DeleteResourceTypesForCluster s db cl"
| "apply_op s db (OpUpsertCluster c) = s_UpsertCluster s db c"
| "apply_op s db (OpDeleteCluster cl) = s_DeleteCluster s db cl"
| "apply_op s db (OpDeleteObjects cl) = s_DeleteObjectsForCluster s db cl"

text \<open>An operation that fails leaves the database as it was, and the next one runs.\<close>

definition attempt :: "'db \<Rightarrow> 'db result \<Rightarrow> 'db" where
  "attempt db r = (case r of Inl _ \<Rightarrow> db | Inr db' \<Rightarrow> db')"

definition run_ops :: "'db Store \<Rightarrow> 'db \<Rightarrow> store_op list \<Rightarrow> 'db" where
  "run_ops s db ops = foldl (\<lambda>db op. attempt db (apply_op s db op)) db ops"

definition store_inv :: "(string \<Rightarrow> row list) \<Rightarrow> bool" where
  "store_inv ts \<longleftrightarrow> keys_unique objectKey (ts objectsTable) \<and> keys_unique typeKey (ts resourceTypesTable) \<and>
     keys_unique [''name''] (ts clustersTable)"

lemma type_updates: "set typeKey \<inter> set typeUpdates = {}" "set [''name''] \<inter> set clusterUpdates = {}"
  by (auto simp: typeKey_def typeUpdates_def clusterUpdates_def)

context store_contract begin

lemma apply_op_inv: "apply_op s db op = Inr db' \<Longrightarrow> store_inv (tables db) \<Longrightarrow> store_inv (tables db')"
  using keys_unique_upsert [OF _ objectKey_updates] keys_unique_upsert [OF _ type_updates(1)]
    keys_unique_upsert [OF _ type_updates(2)]
  by (cases op) (auto simp: store_inv_def keys_unique_filter dest!: UpsertObject DeleteObject UpsertResourceType
      DeleteResourceTypesForCluster UpsertCluster DeleteCluster DeleteObjectsForCluster)

lemma run_ops_inv: "store_inv (tables db) \<Longrightarrow> store_inv (tables (run_ops s db ops))"
  unfolding run_ops_def
  by (induction ops arbitrary: db) (auto simp: attempt_def split: sum.split dest: apply_op_inv)

end

context gorm_db begin

lemma contract: "store_contract (gormStore g) tables" ..

lemma upsert_object_map:
  assumes "UpsertObject g db obj = Inr db'"
  shows "object_at (tables db' objectsTable) = (object_at (tables db objectsTable))(keyOf obj \<mapsto>
    (case object_at (tables db objectsTable) (keyOf obj) of
       None \<Rightarrow> objectRow obj
     | Some old \<Rightarrow> (\<lambda>c. if c \<in> set objectUpdates then objectRow obj c else old c)))"
  using UpsertObject [of db obj db'] assms
    upsert_objects_at [of obj "tables db objectsTable", unfolded assign_def]
  by (simp add: gormStore_def)

lemma delete_object_map:
  assumes "DeleteObject g db cl gr k ns n = Inr db'"
  shows "object_at (tables db' objectsTable) =
    (object_at (tables db objectsTable))(map CString [cl, gr, k, ns, n] := None)"
  using DeleteObject [of db cl gr k ns n db'] assms
    delete_objects_at [of "map CString [cl, gr, k, ns, n]" "tables db objectsTable"]
  by (simp add: gormStore_def)

lemma get_after_upsert:
  assumes "UpsertObject g db obj = Inr db'"
    and fresh: "\<forall>r \<in> set (tables db objectsTable). map r objectKey \<noteq> keyOf obj \<and> r ''id'' \<noteq> CString (om_ID obj)"
    and "GetObject g db' (om_ID obj) = Inr res"
  shows "res = obj"
proof -
  have "\<not> list_ex (same_on objectKey (objectRow obj)) (tables db objectsTable)"
    using fresh by (auto simp: list_ex_iff same_on_def objectRow_key dest: sym)
  then have rows: "tables db' objectsTable = tables db objectsTable @ [objectRow obj]"
    using UpsertObject [of db obj db'] assms(1) by (simp add: gormStore_def upsert_rows_def)
  from assms(3) obtain r where r: "g_first g db' objectsTable (eqs [''id'']) [CString (om_ID obj)] = Inr r"
    "res = rowObjectModel r" by (auto simp: GetObject_def andthen_Inr_iff where_literals)
  have "r = objectRow obj"
    using first [OF r(1) where_literals(8)] fresh by (auto simp: rows)
  then show ?thesis by (simp add: r(2) rowObjectModel_objectRow)
qed

end

definition example_object :: ObjectModel where
  "example_object = \<lparr>om_ID = ''1'', om_UID = ''u1'', om_Cluster = ''east'', om_APIGroup = ''apps'', om_APIVersion = ''v1'',
     om_Kind = ''Deployment'', om_Resource = ''deployments'', om_Namespace = ''prod'', om_Name = ''web'',
     om_Labels = Some ''{}'', om_Annotations = None, om_OwnerRefs = None, om_Conditions = Some ''[]'',
     om_CreationTS = Some 5, om_ResourceVersion = ''7'', om_Object = Some ''{}''\<rparr>"

subsection \<open>Properties\<close>

text \<open>C13. The store keeps the objects as a map: on a database with the documented behaviour,
  an upsert writes the new columns at the object's cluster, group, kind, namespace and name
  and keeps the identifier the object was first stored with, a delete removes exactly that
  entry, and neither touches another object.\<close>

theorem store_objects_map:
  assumes "gorm_db g tables"
  shows "(UpsertObject g db obj = Inr db1 \<longrightarrow>
      object_at (tables db1 objectsTable) = (object_at (tables db objectsTable))(keyOf obj \<mapsto>
        (case object_at (tables db objectsTable) (keyOf obj) of
           None \<Rightarrow> objectRow obj
         | Some old \<Rightarrow> (\<lambda>c. if c \<in> set objectUpdates then objectRow obj c else old c))))
    \<and> (DeleteObject g db cl gr k ns n = Inr db2 \<longrightarrow>
      object_at (tables db2 objectsTable) =
        (object_at (tables db objectsTable))(map CString [cl, gr, k, ns, n] := None))"
  using gorm_db.upsert_object_map [OF assms] gorm_db.delete_object_map [OF assms] by blast

theorem store_objects_map_witness:
  "object_at (run_ops (gormStore mem_gorm) (\<lambda>_. []) [OpUpsertObject example_object,
       OpUpsertObject (example_object\<lparr>om_ID := ''2'', om_UID := ''u2''\<rparr>)] objectsTable) =
     [keyOf example_object \<mapsto> objectRow (example_object\<lparr>om_UID := ''u2''\<rparr>)]"
proof -
  let ?o = "example_object\<lparr>om_ID := ''2'', om_UID := ''u2''\<rparr>"
  let ?db1 = "(\<lambda>_. [])(objectsTable := [objectRow example_object])"
  have 1: "UpsertObject mem_gorm (\<lambda>_. []) example_object = Inr ?db1"
    by (simp add: UpsertObject_def mem_gorm_def upsert_rows_def)
  obtain db2 where 2: "UpsertObject mem_gorm ?db1 ?o = Inr db2"
    by (simp add: UpsertObject_def mem_gorm_def)
  have k: "keyOf ?o = keyOf example_object" by (simp add: keyOf_def example_object_def)
  have "object_at (?db1 objectsTable) = [keyOf example_object \<mapsto> objectRow example_object]"
    using store_objects_map [OF mem.gorm_db_axioms, THEN conjunct1, rule_format, OF 1] by (simp add: object_at_def)
  moreover have "(\<lambda>c. if c \<in> set objectUpdates then objectRow ?o c else objectRow example_object c) =
      objectRow (example_object\<lparr>om_UID := ''u2''\<rparr>)"
    by (rule ext) (simp add: objectRow_def row_of_def objectUpdates_def example_object_def split: option.splits)
  ultimately have "object_at (db2 objectsTable) =
      [keyOf example_object \<mapsto> objectRow (example_object\<lparr>om_UID := ''u2''\<rparr>)]"
    using store_objects_map [OF mem.gorm_db_axioms, THEN conjunct1, rule_format, OF 2] k by simp
  with 1 2 show ?thesis by (simp add: run_ops_def attempt_def gormStore_def)
qed

text \<open>C25. Keys stay unique: whatever sequence of store operations runs, each failing or
  succeeding, no two objects share cluster, group, kind, namespace and name, no two resource
  types share their key, and no two clusters share a name.\<close>

theorem store_keys_unique:
  assumes "gorm_db g tables" and "store_inv (tables db)"
  shows "store_inv (tables (run_ops (gormStore g) db ops))"
  by (rule store_contract.run_ops_inv [OF gorm_db.contract [OF assms(1)] assms(2)])

theorem store_keys_unique_witness:
  "store_inv (run_ops (gormStore mem_gorm) (\<lambda>_. [])
     [OpUpsertObject example_object, OpUpsertObject (example_object\<lparr>om_UID := ''u2''\<rparr>)])"
  by (rule store_keys_unique [OF mem.gorm_db_axioms]) (simp add: store_inv_def keys_unique_def)

text \<open>An object is read back as it was written: after the upsert of an object whose key
  and identifier are new, a lookup by its identifier that succeeds returns every field of
  it.\<close>

theorem GetObject_UpsertObject:
  assumes "gorm_db g tables" and "UpsertObject g db obj = Inr db'"
    and "\<forall>r \<in> set (tables db objectsTable). map r objectKey \<noteq> keyOf obj \<and> r ''id'' \<noteq> CString (om_ID obj)"
    and "GetObject g db' (om_ID obj) = Inr res"
  shows "res = obj"
  using gorm_db.get_after_upsert [OF assms] .

theorem GetObject_UpsertObject_witness:
  "\<exists>db'. UpsertObject mem_gorm (\<lambda>_. []) example_object = Inr db' \<and>
     GetObject mem_gorm db' ''1'' = Inr example_object"
proof -
  obtain db' where u: "UpsertObject mem_gorm (\<lambda>_. []) example_object = Inr db'"
    by (simp add: UpsertObject_def mem_gorm_def)
  then have db': "db' = (\<lambda>_. [])(objectsTable := [objectRow example_object])"
    by (simp add: UpsertObject_def mem_gorm_def upsert_rows_def)
  have w: "where_cols ''id = ?'' = [''id'']" by code_simp
  have "objectRow example_object ''id'' = CString ''1''" by code_simp
  then obtain res where r: "GetObject mem_gorm db' ''1'' = Inr res"
    by (simp add: GetObject_def mem_gorm_def db' w)
  moreover have "om_ID example_object = ''1''" by (simp add: example_object_def)
  ultimately have "res = example_object"
    using GetObject_UpsertObject [OF mem.gorm_db_axioms u, of res] by simp
  with u r show ?thesis by blast
qed

end
