(* ===== verification/Sync_Discovery.thy ===== *)
theory Sync_Discovery
  imports Object_Store Go_Marshal
begin

text \<open>
  \<open>internal/sync/blacklist.go\<close> and \<open>discovery.go\<close>: which resources of a cluster are
  synced, and the \<open>resource_types\<close> table. The answer of the discovery client and
  \<open>schema.ParseGroupVersion\<close> are parameters. A nil slice is \<open>None\<close>: it is encoded as
  \<open>null\<close>, an empty one as \<open>[]\<close>.
\<close>

subsection \<open>Blacklist\<close>

record GroupVersionResource =
  gvr_Group :: string
  gvr_Version :: string
  gvr_Resource :: string

record GroupResource =
  gr_Group :: string
  gr_Resource :: string

definition DefaultBlacklist :: "GroupVersionResource list" where
  "DefaultBlacklist =
     [\<lparr>gvr_Group = '''', gvr_Version = ''v1'', gvr_Resource = ''secrets''\<rparr>,
      \<lparr>gvr_Group = '''', gvr_Version = ''v1'', gvr_Resource = ''events''\<rparr>,
      \<lparr>gvr_Group = ''events.k8s.io'', gvr_Version = ''v1'', gvr_Resource = ''events''\<rparr>]"

record Blacklist =
  entries :: "GroupResource \<Rightarrow> bool option"

definition groupResource :: "GroupVersionResource \<Rightarrow> GroupResource" where
  "groupResource gvr = \<lparr>gr_Group = gvr_Group gvr, gr_Resource = gvr_Resource gvr\<rparr>"

definition NewBlacklist :: "GroupVersionResource list \<Rightarrow> Blacklist" where
  "NewBlacklist gvrs =
     foldl (\<lambda>b gvr. b\<lparr>entries := (entries b)(groupResource gvr \<mapsto> True)\<rparr>) \<lparr>entries = (\<lambda>_. None)\<rparr> gvrs"

definition IsBlacklisted :: "Blacklist \<Rightarrow> GroupResource \<Rightarrow> bool" where
  "IsBlacklisted b gr = (case entries b gr of None \<Rightarrow> False | Some v \<Rightarrow> v)"

lemma IsBlacklisted_NewBlacklist: "IsBlacklisted (NewBlacklist gvrs) gr \<longleftrightarrow> gr \<in> groupResource ` set gvrs"
proof -
  have "entries (foldl (\<lambda>b gvr. b\<lparr>entries := (entries b)(groupResource gvr \<mapsto> True)\<rparr>) b gvrs) gr =
      (if gr \<in> groupResource ` set gvrs then Some True else entries b gr)" for b :: Blacklist
    by (induction gvrs arbitrary: b) auto
  then show ?thesis by (simp add: IsBlacklisted_def NewBlacklist_def)
qed

subsection \<open>Discovery\<close>

record DiscoveredResource =
  dr_GVR :: GroupVersionResource
  dr_Kind :: string
  dr_Singular :: string
  dr_ShortNames :: "string list option"
  dr_Categories :: "string list option"
  dr_Namespaced :: bool

text \<open>What the discovery client returns: \<open>metav1.APIResource\<close> and \<open>APIResourceList\<close>.\<close>

record APIResource =
  ar_Name :: string
  ar_SingularName :: string
  ar_Namespaced :: bool
  ar_Kind :: string
  ar_Verbs :: "string list"
  ar_ShortNames :: "string list option"
  ar_Categories :: "string list option"

record APIResourceList =
  arl_GroupVersion :: string
  arl_APIResources :: "APIResource list"

definition hasVerbs :: "string list \<Rightarrow> string list \<Rightarrow> bool" where
  "hasVerbs vs required =
     (let verbSet = foldl (\<lambda>m v. m(v \<mapsto> True)) (\<lambda>_. None) vs
      in list_all (\<lambda>r. case verbSet r of None \<Rightarrow> False | Some b \<Rightarrow> b) required)"

lemma hasVerbs_iff: "hasVerbs vs required \<longleftrightarrow> set required \<subseteq> set vs"
proof -
  have "foldl (\<lambda>m v. m(v \<mapsto> True)) m vs r = (if r \<in> set vs then Some True else m r)" for m r
    by (induction vs arbitrary: m) auto
  then show ?thesis by (auto simp: hasVerbs_def list_all_iff split: if_splits)
qed

definition marshal_slice :: "string list option \<Rightarrow> string" where
  "marshal_slice xs = (case xs of None \<Rightarrow> ''null'' | Some ys \<Rightarrow> marshal_string_list ys)"

text \<open>The sub-resource names of a resource; \<open>append\<close> leaves the slice nil when there are none.\<close>

definition subresourcesOf :: "APIResourceList \<Rightarrow> APIResource \<Rightarrow> string list option" where
  "subresourcesOf l ar =
     (case filter (\<lambda>n. HasPrefix n (ar_Name ar @ ''/'')) (map ar_Name (arl_APIResources l)) of
        [] \<Rightarrow> None
      | ns \<Rightarrow> Some (map (\<lambda>n. TrimPrefix n (ar_Name ar @ ''/'')) ns))"

definition resourceTypeOf ::
  "string \<Rightarrow> string \<times> string \<Rightarrow> APIResourceList \<Rightarrow> APIResource \<Rightarrow> ResourceTypeModel" where
  "resourceTypeOf clusterName gv l ar =
     \<lparr>rt_Cluster = clusterName, rt_APIGroup = fst gv, rt_APIVersion = snd gv, rt_Kind = ar_Kind ar,
      rt_Singular = ar_SingularName ar, rt_Resource = ar_Name ar,
      rt_ShortNames = Some (marshal_slice (ar_ShortNames ar)),
      rt_Categories = Some (marshal_slice (ar_Categories ar)), rt_Namespaced = ar_Namespaced ar,
      rt_Subresources = Some (marshal_slice (subresourcesOf l ar)), rt_Identity = ''''\<rparr>"

definition discoveredOf :: "string \<times> string \<Rightarrow> APIResource \<Rightarrow> DiscoveredResource" where
  "discoveredOf gv ar =
     \<lparr>dr_GVR = \<lparr>gvr_Group = fst gv, gvr_Version = snd gv, gvr_Resource = ar_Name ar\<rparr>,
      dr_Kind = ar_Kind ar, dr_Singular = ar_SingularName ar, dr_ShortNames = ar_ShortNames ar,
      dr_Categories = ar_Categories ar, dr_Namespaced = ar_Namespaced ar\<rparr>"

text \<open>The body of the inner loop: the database and the watchable resources so far.\<close>

definition discoverResource ::
  "'db Store \<Rightarrow> string \<Rightarrow> Blacklist \<Rightarrow> string \<times> string \<Rightarrow> APIResourceList \<Rightarrow>
   'db \<times> DiscoveredResource list \<Rightarrow> APIResource \<Rightarrow> 'db \<times> DiscoveredResource list" where
  "discoverResource s clusterName bl gv l st ar =
     (let (db, watchable) = st in
      if Contains (ar_Name ar) (CHR ''/'') then st
      else if IsBlacklisted bl \<lparr>gr_Group = fst gv, gr_Resource = ar_Name ar\<rparr> then st
      else (case s_UpsertResourceType s db (resourceTypeOf clusterName gv l ar) of
              Inl _ \<Rightarrow> st
            | Inr db' \<Rightarrow> (db', if hasVerbs (ar_Verbs ar) [''list'', ''watch'']
                              then watchable @ [discoveredOf gv ar] else watchable)))"

definition discoverList ::
  "(string \<Rightarrow> (string \<times> string) result) \<Rightarrow> 'db Store \<Rightarrow> string \<Rightarrow> Blacklist \<Rightarrow>
   'db \<times> DiscoveredResource list \<Rightarrow> APIResourceList option \<Rightarrow> 'db \<times> DiscoveredResource list" where
  "discoverList parseGV s clusterName bl st lst =
     (case lst of
        None \<Rightarrow> st
      | Some l \<Rightarrow>
          (case parseGV (arl_GroupVersion l) of
             Inl _ \<Rightarrow> st
           | Inr gv \<Rightarrow> foldl (discoverResource s clusterName bl gv l) st (arl_APIResources l)))"

text \<open>\<open>RunDiscovery\<close>; the discovery client returns the lists and possibly an error
  beside them. It fails only before it has changed the database.\<close>

definition RunDiscovery ::
  "(string \<Rightarrow> (string \<times> string) result) \<Rightarrow> string \<Rightarrow> APIResourceList option list \<times> kerror option \<Rightarrow>
   'db Store \<Rightarrow> Blacklist \<Rightarrow> 'db \<Rightarrow> ('db \<times> DiscoveredResource list) result" where
  "RunDiscovery parseGV clusterName dc s bl db =
     (case (snd dc, fst dc) of
        (Some e, []) \<Rightarrow> Inl (Wrapped (''discovery failed for cluster '' @ clusterName) e)
      | (_, apiLists) \<Rightarrow>
          (case s_DeleteResourceTypesForCluster s db clusterName of
             Inl e \<Rightarrow> Inl (Wrapped (''failed to clear resource_types for cluster '' @ clusterName) e)
           | Inr db' \<Rightarrow> Inr (foldl (discoverList parseGV s clusterName bl) (db', []) apiLists)))"

subsection \<open>One loop over the eligible resources\<close>

type_synonym found = "(string \<times> string) \<times> APIResourceList \<times> APIResource"

definition eligible ::
  "(string \<Rightarrow> (string \<times> string) result) \<Rightarrow> Blacklist \<Rightarrow> APIResourceList option list \<Rightarrow> found list" where
  "eligible parseGV bl apiLists = concat (map (\<lambda>lst. case lst of
       None \<Rightarrow> []
     | Some l \<Rightarrow> (case parseGV (arl_GroupVersion l) of
         Inl _ \<Rightarrow> []
       | Inr gv \<Rightarrow> map (\<lambda>ar. (gv, l, ar))
           (filter (\<lambda>ar. CHR ''/'' \<notin> set (ar_Name ar) \<and>
                         \<not> IsBlacklisted bl \<lparr>gr_Group = fst gv, gr_Resource = ar_Name ar\<rparr>)
             (arl_APIResources l)))) apiLists)"

fun store_found ::
  "'db Store \<Rightarrow> string \<Rightarrow> 'db \<times> DiscoveredResource list \<Rightarrow> found \<Rightarrow> 'db \<times> DiscoveredResource list" where
  "store_found s cl (db, ws) (gv, l, ar) =
     (case s_UpsertResourceType s db (resourceTypeOf cl gv l ar) of
        Inl _ \<Rightarrow> (db, ws)
      | Inr db' \<Rightarrow> (db', if {''list'', ''watch''} \<subseteq> set (ar_Verbs ar) then ws @ [discoveredOf gv ar] else ws))"

lemma discoverResource_eq:
  "discoverResource s cl bl gv l st ar =
     (if CHR ''/'' \<notin> set (ar_Name ar) \<and> \<not> IsBlacklisted bl \<lparr>gr_Group = fst gv, gr_Resource = ar_Name ar\<rparr>
      then store_found s cl st (gv, l, ar) else st)"
  by (cases st) (auto simp: discoverResource_def Contains_def hasVerbs_iff)

lemma discoverResources_eq:
  "foldl (discoverResource s cl bl gv l) st ars = foldl (store_found s cl) st (map (\<lambda>ar. (gv, l, ar))
     (filter (\<lambda>ar. CHR ''/'' \<notin> set (ar_Name ar) \<and>
        \<not> IsBlacklisted bl \<lparr>gr_Group = fst gv, gr_Resource = ar_Name ar\<rparr>) ars))"
  by (induction ars arbitrary: st) (simp_all add: discoverResource_eq)

lemma discoverLists_eq:
  "foldl (discoverList parseGV s cl bl) st apiLists = foldl (store_found s cl) st (eligible parseGV bl apiLists)"
  by (induction apiLists arbitrary: st)
    (simp_all add: eligible_def discoverList_def discoverResources_eq split: option.split sum.split)

lemma RunDiscovery_Inr:
  assumes "RunDiscovery parseGV cl dc s bl db = Inr (db', ws)"
  obtains db1 where "s_DeleteResourceTypesForCluster s db cl = Inr db1"
    "foldl (store_found s cl) (db1, []) (eligible parseGV bl (fst dc)) = (db', ws)"
  using assms that unfolding RunDiscovery_def discoverLists_eq
  by (cases "snd dc"; cases "fst dc"; cases "s_DeleteResourceTypesForCluster s db cl") auto

lemma eligible_plain:
  assumes "(gv, l, ar) \<in> set (eligible parseGV bl apiLists)"
  shows "CHR ''/'' \<notin> set (ar_Name ar)" "\<not> IsBlacklisted bl \<lparr>gr_Group = fst gv, gr_Resource = ar_Name ar\<rparr>"
    "Some l \<in> set apiLists" "parseGV (arl_GroupVersion l) = Inr gv" "ar \<in> set (arl_APIResources l)"
  using assms by (auto simp: eligible_def split: option.splits sum.splits)

subsection \<open>The table after a discovery\<close>

text \<open>Group and resource of the types that are recorded for a cluster.\<close>

definition types_of :: "(string \<Rightarrow> row list) \<Rightarrow> string \<Rightarrow> (colval \<times> colval) set" where
  "types_of ts cl = (\<lambda>r. (r ''api_group'', r ''resource'')) ` {r \<in> set (ts resourceTypesTable). r ''cluster'' = CString cl}"

abbreviation found_key :: "found \<Rightarrow> colval \<times> colval" where
  "found_key f \<equiv> (CString (fst (fst f)), CString (ar_Name (snd (snd f))))"

abbreviation found_verbs :: "found \<Rightarrow> string set" where
  "found_verbs f \<equiv> set (ar_Verbs (snd (snd f)))"

definition watches :: "found \<Rightarrow> bool" where
  "watches f \<longleftrightarrow> {''list'', ''watch''} \<subseteq> found_verbs f"

abbreviation found_resource :: "found \<Rightarrow> DiscoveredResource" where
  "found_resource f \<equiv> discoveredOf (fst f) (snd (snd f))"

lemma upsert_rows_keys:
  assumes "set key \<inter> set upd = {}"
  shows "(\<lambda>x. map x key) ` set (upsert_rows key upd r rs) = insert (map r key) ((\<lambda>x. map x key) ` set rs)"
proof (cases "list_ex (same_on key r) rs")
  case True
  then have "map r key \<in> (\<lambda>x. map x key) ` set rs" by (auto simp: list_ex_iff same_on_def)
  moreover have "(\<lambda>x. map x key) \<circ> (\<lambda>x. if same_on key r x then assign upd r x else x) = (\<lambda>x. map x key)"
    using assign_key [OF assms] by (auto simp: fun_eq_iff)
  ultimately show ?thesis using True
    by (simp only: upsert_rows_def if_True set_map image_comp insert_absorb)
qed (simp add: upsert_rows_def)

lemma upsert_rows_others:
  assumes "c \<in> set key" "r c = v" "c \<notin> set upd"
  shows "filter (\<lambda>x. x c \<noteq> v) (upsert_rows key upd r rs) = filter (\<lambda>x. x c \<noteq> v) rs"
proof -
  have "same_on key r x \<Longrightarrow> x c = v" for x using assms by (auto simp: same_on_def)
  then have "filter (\<lambda>x. x c \<noteq> v) (map (\<lambda>x. if same_on key r x then assign upd r x else x) rs) = filter (\<lambda>x. x c \<noteq> v) rs"
    using assms(3) by (induction rs) (auto simp: assign_def)
  then show ?thesis using assms by (simp add: upsert_rows_def)
qed

lemma resourceTypeRow_key:
  "map (resourceTypeRow (resourceTypeOf cl gv l ar)) typeKey =
     [CString cl, CString (fst gv), CString (ar_Name ar), CString []]"
  "resourceTypeRow (resourceTypeOf cl gv l ar) ''cluster'' = CString cl"
  by (simp_all add: resourceTypeRow_def resourceTypeOf_def typeKey_def row_of_def)

lemma types_of_keys:
  "types_of ts cl = (\<lambda>k. (k ! 1, k ! 2)) ` {k \<in> (\<lambda>x. map x typeKey) ` set (ts resourceTypesTable). k ! 0 = CString cl}"
  unfolding types_of_def by (force simp: typeKey_def)

lemma types_of_upsert:
  "types_of (ts(resourceTypesTable := upsert_rows typeKey typeUpdates
     (resourceTypeRow (resourceTypeOf cl gv l ar)) (ts resourceTypesTable))) cl =
   insert (CString (fst gv), CString (ar_Name ar)) (types_of ts cl)"
proof -
  have "{k \<in> insert k0 K. k ! 0 = CString cl} = insert k0 {k \<in> K. k ! 0 = CString cl}"
    if "k0 ! 0 = CString cl" for k0 K using that by auto
  then show ?thesis
    unfolding types_of_keys by (simp add: upsert_rows_keys [OF type_updates(1)] resourceTypeRow_key(1))
qed

text \<open>Two states of the tables that differ in the resource types of one cluster only.\<close>

definition only_types :: "string \<Rightarrow> (string \<Rightarrow> row list) \<Rightarrow> (string \<Rightarrow> row list) \<Rightarrow> bool" where
  "only_types cl ts ts' \<longleftrightarrow>
     (\<exists>rs. ts' = ts(resourceTypesTable := rs) \<and>
       filter (\<lambda>r. r ''cluster'' \<noteq> CString cl) rs = filter (\<lambda>r. r ''cluster'' \<noteq> CString cl) (ts resourceTypesTable))"

lemma only_types_refl [simp]: "only_types cl ts ts"
  unfolding only_types_def by (intro exI [of _ "ts resourceTypesTable"]) simp

lemma only_types_trans: "only_types cl ts ts' \<Longrightarrow> only_types cl ts' ts'' \<Longrightarrow> only_types cl ts ts''"
  unfolding only_types_def by auto

context store_contract begin

lemma store_found_cases:
  obtains "store_found s cl st f = st"
      "\<forall>db'. s_UpsertResourceType s (fst st) (resourceTypeOf cl (fst f) (fst (snd f)) (snd (snd f))) \<noteq> Inr db'"
  | db' where "s_UpsertResourceType s (fst st) (resourceTypeOf cl (fst f) (fst (snd f)) (snd (snd f))) = Inr db'"
      "store_found s cl st f = (db', snd st @ (if watches f then [found_resource f] else []))"
  by (cases st; cases f; cases "s_UpsertResourceType s (fst st) (resourceTypeOf cl (fst f) (fst (snd f)) (snd (snd f)))")
    (auto simp: watches_def)

lemma upsert_type:
  assumes "s_UpsertResourceType s db (resourceTypeOf cl gv l ar) = Inr db'"
  shows "only_types cl (tables db) (tables db')"
    and "types_of (tables db') cl = insert (CString (fst gv), CString (ar_Name ar)) (types_of (tables db) cl)"
proof -
  have "filter (\<lambda>r. r ''cluster'' \<noteq> CString cl) (upsert_rows typeKey typeUpdates
      (resourceTypeRow (resourceTypeOf cl gv l ar)) (tables db resourceTypesTable)) =
      filter (\<lambda>r. r ''cluster'' \<noteq> CString cl) (tables db resourceTypesTable)"
    by (rule upsert_rows_others) (simp_all add: typeKey_def typeUpdates_def resourceTypeRow_key)
  then show "only_types cl (tables db) (tables db')"
    unfolding only_types_def UpsertResourceType [OF assms] by blast
  show "types_of (tables db') cl = insert (CString (fst gv), CString (ar_Name ar)) (types_of (tables db) cl)"
    unfolding UpsertResourceType [OF assms] by (rule types_of_upsert)
qed

end

context store_contract begin

lemma store_found_step:
  "only_types cl (tables (fst st)) (tables (fst (store_found s cl st f)))"
  "types_of (tables (fst (store_found s cl st f))) cl \<subseteq> insert (found_key f) (types_of (tables (fst st)) cl)"
  "types_of (tables (fst st)) cl \<subseteq> types_of (tables (fst (store_found s cl st f))) cl"
  "w \<in> set (snd (store_found s cl st f)) \<Longrightarrow> w \<in> set (snd st) \<or>
     w = found_resource f \<and> watches f \<and> found_key f \<in> types_of (tables (fst (store_found s cl st f))) cl"
  by (cases rule: store_found_cases [of cl st f]; auto dest: upsert_type split: if_splits)+

lemma store_found_fold:
  "only_types cl (tables (fst st)) (tables (fst (foldl (store_found s cl) st fs)))"
  "types_of (tables (fst (foldl (store_found s cl) st fs))) cl \<subseteq> types_of (tables (fst st)) cl \<union> found_key ` set fs"
  "w \<in> set (snd (foldl (store_found s cl) st fs)) \<Longrightarrow> w \<in> set (snd st) \<or>
     (\<exists>f \<in> set fs. w = found_resource f \<and> watches f \<and>
        found_key f \<in> types_of (tables (fst (foldl (store_found s cl) st fs))) cl)"
proof (induction fs rule: rev_induct)
  case (snoc f fs)
  let ?st = "foldl (store_found s cl) st fs"
  note step = store_found_step [where cl = cl and st = ?st and f = f]
  { case 1
    show ?case using snoc.IH(1) step(1) by (auto intro: only_types_trans)
  next
    case 2
    show ?case using snoc.IH(2) step(2) by auto
  next
    case 3
    then show ?case using snoc.IH(3) step(3) step(4) [of w] by (auto simp del: store_found.simps) }
qed simp_all

lemma store_found_all:
  assumes "\<And>db rt. \<exists>db'. s_UpsertResourceType s db rt = Inr db'"
  shows "types_of (tables (fst (foldl (store_found s cl) st fs))) cl = types_of (tables (fst st)) cl \<union> found_key ` set fs \<and>
    snd (foldl (store_found s cl) st fs) =
      snd st @ map found_resource (filter watches fs)"
proof (induction fs rule: rev_induct)
  case (snoc f fs)
  let ?st = "foldl (store_found s cl) st fs"
  obtain db' where db': "s_UpsertResourceType s (fst ?st) (resourceTypeOf cl (fst f) (fst (snd f)) (snd (snd f))) = Inr db'"
    using assms by blast
  then have "store_found s cl ?st f = (db', snd ?st @ (if watches f then [found_resource f] else []))"
    by (cases rule: store_found_cases [of cl ?st f]) auto
  with snoc upsert_type(2) [OF db'] show ?case by simp
qed simp

lemma cleared_types:
  assumes "s_DeleteResourceTypesForCluster s db cl = Inr db1"
  shows "only_types cl (tables db) (tables db1)" "types_of (tables db1) cl = {}"
proof -
  show "only_types cl (tables db) (tables db1)"
    unfolding only_types_def DeleteResourceTypesForCluster [OF assms] by (intro exI conjI, rule refl) simp
  show "types_of (tables db1) cl = {}"
    unfolding types_of_def DeleteResourceTypesForCluster [OF assms] by auto
qed

lemma discovery_sound:
  assumes "RunDiscovery parseGV cl dc s bl db = Inr (db', ws)"
  shows "only_types cl (tables db) (tables db')"
    and "types_of (tables db') cl \<subseteq> found_key ` set (eligible parseGV bl (fst dc))"
    and "w \<in> set ws \<Longrightarrow> \<exists>f \<in> set (eligible parseGV bl (fst dc)).
      w = found_resource f \<and> watches f \<and> found_key f \<in> types_of (tables db') cl"
proof -
  obtain db1 where d: "s_DeleteResourceTypesForCluster s db cl = Inr db1"
    and f: "foldl (store_found s cl) (db1, []) (eligible parseGV bl (fst dc)) = (db', ws)"
    using assms by (rule RunDiscovery_Inr)
  note fold = store_found_fold [where cl = cl and st = "(db1, [])" and fs = "eligible parseGV bl (fst dc)", unfolded f]
  show "only_types cl (tables db) (tables db')"
    using fold(1) by (auto intro: only_types_trans cleared_types(1) [OF d])
  show "types_of (tables db') cl \<subseteq> found_key ` set (eligible parseGV bl (fst dc))"
    using fold(2) cleared_types(2) [OF d] by auto
  show "w \<in> set ws \<Longrightarrow> \<exists>f \<in> set (eligible parseGV bl (fst dc)).
      w = found_resource f \<and> watches f \<and> found_key f \<in> types_of (tables db') cl"
    using fold(3) [of w] by simp
qed

lemma discovery_complete:
  assumes "RunDiscovery parseGV cl dc s bl db = Inr (db', ws)"
    and "\<And>db rt. \<exists>db'. s_UpsertResourceType s db rt = Inr db'"
  shows "types_of (tables db') cl = found_key ` set (eligible parseGV bl (fst dc))"
    and "ws = map found_resource (filter watches (eligible parseGV bl (fst dc)))"
proof -
  obtain db1 where d: "s_DeleteResourceTypesForCluster s db cl = Inr db1"
    and f: "foldl (store_found s cl) (db1, []) (eligible parseGV bl (fst dc)) = (db', ws)"
    using assms(1) by (rule RunDiscovery_Inr)
  from store_found_all [OF assms(2), of cl "(db1, [])" "eligible parseGV bl (fst dc)"] cleared_types(2) [OF d]
  show "types_of (tables db') cl = found_key ` set (eligible parseGV bl (fst dc))"
    and "ws = map found_resource (filter watches (eligible parseGV bl (fst dc)))"
    by (simp_all add: f)
qed

end

subsection \<open>Properties\<close>

definition example_lists :: "APIResourceList option list" where
  "example_lists =
     [None, Some \<lparr>arl_GroupVersion = ''v1'', arl_APIResources =
        [\<lparr>ar_Name = ''pods'', ar_SingularName = ''pod'', ar_Namespaced = True, ar_Kind = ''Pod'',
          ar_Verbs = [''get'', ''list'', ''watch''], ar_ShortNames = Some [''po''], ar_Categories = None\<rparr>,
         \<lparr>ar_Name = ''pods/log'', ar_SingularName = [], ar_Namespaced = True, ar_Kind = ''Pod'',
          ar_Verbs = [''get''], ar_ShortNames = None, ar_Categories = None\<rparr>,
         \<lparr>ar_Name = ''secrets'', ar_SingularName = ''secret'', ar_Namespaced = True, ar_Kind = ''Secret'',
          ar_Verbs = [''list'', ''watch''], ar_ShortNames = None, ar_Categories = None\<rparr>]\<rparr>]"

definition example_parseGV :: "string \<Rightarrow> (string \<times> string) result" where
  "example_parseGV s = (case Split s (CHR ''/'') of
       [v] \<Rightarrow> Inr ([], v) | [gr, v] \<Rightarrow> Inr (gr, v) | _ \<Rightarrow> Inl (ExternalError ''unexpected GroupVersion string''))"

abbreviation example_discovery :: "((string \<Rightarrow> row list) \<times> DiscoveredResource list) result" where
  "example_discovery \<equiv> RunDiscovery example_parseGV ''east'' (example_lists, Some (ExternalError ''partial''))
     (gormStore mem_gorm) (NewBlacklist DefaultBlacklist) (\<lambda>_. [])"

lemma example_eligible:
  "map found_key (eligible example_parseGV (NewBlacklist DefaultBlacklist) example_lists) = [(CString [], CString ''pods'')]"
  "map watches (eligible example_parseGV (NewBlacklist DefaultBlacklist) example_lists) = [True]"
  by (simp_all add: eligible_def example_parseGV_def example_lists_def IsBlacklisted_NewBlacklist DefaultBlacklist_def
      groupResource_def watches_def)

lemma example_discovery_ok: "\<exists>db' ws. example_discovery = Inr (db', ws)"
  by (simp add: RunDiscovery_def example_lists_def gormStore_def DeleteResourceTypesForCluster_def mem_gorm_def)

lemma mem_upsert_type: "\<exists>db'. s_UpsertResourceType (gormStore mem_gorm) db rt = Inr db'"
  by (simp add: gormStore_def UpsertResourceType_def mem_gorm_def)

text \<open>Nothing that is blacklisted is synced: after a discovery, with any pattern of
  failing upserts, no resource type of the cluster and no resource handed to the informers
  is on the blacklist or a sub-resource, every resource handed to the informers is recorded,
  and the rows of other clusters and the other tables are as before.\<close>

theorem discovery_respects_blacklist:
  assumes "gorm_db g tables" and "RunDiscovery parseGV cl dc (gormStore g) bl db = Inr (db', ws)"
  shows "only_types cl (tables db) (tables db')
    \<and> (\<forall>(gr, res) \<in> types_of (tables db') cl. \<exists>group resource. gr = CString group \<and> res = CString resource \<and>
         CHR ''/'' \<notin> set resource \<and> \<not> IsBlacklisted bl \<lparr>gr_Group = group, gr_Resource = resource\<rparr>)
    \<and> (\<forall>w \<in> set ws. (CString (gvr_Group (dr_GVR w)), CString (gvr_Resource (dr_GVR w))) \<in> types_of (tables db') cl)"
proof -
  note sound = store_contract.discovery_sound [OF gorm_db.contract [OF assms(1)] assms(2)]
  have "\<exists>group resource. gr = CString group \<and> res = CString resource \<and>
         CHR ''/'' \<notin> set resource \<and> \<not> IsBlacklisted bl \<lparr>gr_Group = group, gr_Resource = resource\<rparr>"
    if "(gr, res) \<in> types_of (tables db') cl" for gr res
    using subsetD [OF sound(2) that] eligible_plain(1, 2) [of _ _ _ parseGV bl "fst dc"] by fastforce
  moreover have "(CString (gvr_Group (dr_GVR w)), CString (gvr_Resource (dr_GVR w))) \<in> types_of (tables db') cl"
    if "w \<in> set ws" for w
    using sound(3) [OF that] by (auto simp: discoveredOf_def)
  ultimately show ?thesis using sound(1) by blast
qed

theorem discovery_respects_blacklist_witness:
  "\<exists>db' ws. example_discovery = Inr (db', ws) \<and> (CString [], CString ''secrets'') \<notin> types_of db' ''east''"
proof -
  obtain db' ws where r: "example_discovery = Inr (db', ws)" using example_discovery_ok by blast
  have "IsBlacklisted (NewBlacklist DefaultBlacklist) \<lparr>gr_Group = [], gr_Resource = ''secrets''\<rparr>"
    by (simp add: IsBlacklisted_NewBlacklist DefaultBlacklist_def groupResource_def)
  with discovery_respects_blacklist [OF mem.gorm_db_axioms r] have "(CString [], CString ''secrets'') \<notin> types_of db' ''east''"
    by fastforce
  with r show ?thesis by blast
qed

text \<open>C23. Discovery is exact on a store that does not fail: it records the resources that
  have a parseable group version, are no sub-resources and are not blacklisted, and no
  others that an earlier discovery left, and hands to the informers, in order, exactly those
  of them that can be listed and watched.\<close>

theorem discovery_exact:
  assumes "gorm_db g tables" and "\<And>db rt. \<exists>db'. s_UpsertResourceType (gormStore g) db rt = Inr db'"
    and "RunDiscovery parseGV cl dc (gormStore g) bl db = Inr (db', ws)"
  shows "types_of (tables db') cl = found_key ` set (eligible parseGV bl (fst dc))
    \<and> ws = map found_resource (filter watches (eligible parseGV bl (fst dc)))"
  using store_contract.discovery_complete [OF gorm_db.contract [OF assms(1)] assms(3, 2)] by simp

theorem discovery_exact_witness:
  "\<exists>db' ws. example_discovery = Inr (db', ws) \<and> types_of db' ''east'' = {(CString [], CString ''pods'')} \<and> length ws = 1"
proof -
  obtain db' ws where r: "example_discovery = Inr (db', ws)" using example_discovery_ok by blast
  note ex = discovery_exact [OF mem.gorm_db_axioms mem_upsert_type r]
  let ?e = "eligible example_parseGV (NewBlacklist DefaultBlacklist) example_lists"
  have "set (map found_key ?e) = {(CString [], CString ''pods'')}" unfolding example_eligible by simp
  moreover obtain f where "?e = [f]" "watches f" using example_eligible(2) by auto
  ultimately show ?thesis using r ex by auto
qed

text \<open>Events are on the default blacklist.\<close>

theorem default_blacklist_events:
  "IsBlacklisted (NewBlacklist DefaultBlacklist) \<lparr>gr_Group = [], gr_Resource = ''events''\<rparr>"
  by (simp add: IsBlacklisted_NewBlacklist DefaultBlacklist_def groupResource_def)

end
