(* ===== verification/Sync_Handler.thy ===== *)
theory Sync_Handler
  imports Sync_Discovery
begin

text \<open>
  \<open>internal/sync/handler.go\<close>: informer events to rows. The accessors of
  \<open>unstructured.Unstructured\<close>, the encoding of owner references and \<open>uuid.NewSHA1\<close> are
  the record \<open>k8s_api\<close>, a parameter; the body of an object is its JSON map. A handler that
  fails logs the error and leaves the database as it is.
\<close>

type_synonym object = "(string \<times> json) list"

record k8s_api =
  k_GetNamespace :: "object \<Rightarrow> string"
  k_GetName :: "object \<Rightarrow> string"
  k_GetUID :: "object \<Rightarrow> string"
  k_GetResourceVersion :: "object \<Rightarrow> string"
  k_GetLabels :: "object \<Rightarrow> string gomap option"
  k_GetAnnotations :: "object \<Rightarrow> string gomap option"
  k_OwnerReferencesJSON :: "object \<Rightarrow> string result"
  k_GetCreationTimestamp :: "object \<Rightarrow> gotime option"
  k_NewSHA1 :: "string \<Rightarrow> string \<Rightarrow> string"

text \<open>The dynamic type of an event's argument.\<close>

datatype interface = Unstructured object | DeletedFinalStateUnknown interface | OtherType

record EventHandler =
  eh_ClusterName :: string
  eh_GVR :: GroupVersionResource
  eh_Kind :: string

definition objectIDNamespace :: string where
  "objectIDNamespace = ''a1b2c3d4-e5f6-4a7b-8c9d-0e1f2a3b4c5d''"

definition toUnstructured :: "interface \<Rightarrow> object option" where
  "toUnstructured obj =
     (let obj' = (case obj of DeletedFinalStateUnknown d \<Rightarrow> d | _ \<Rightarrow> obj)
      in case obj' of Unstructured u \<Rightarrow> Some u | _ \<Rightarrow> None)"

definition extractConditions :: "object \<Rightarrow> string" where
  "extractConditions u =
     (case map_of u ''status'' of
        Some (JObj status) \<Rightarrow>
          (case map_of status ''conditions'' of
             None \<Rightarrow> ''[]''
           | Some conditions \<Rightarrow> (case Marshal conditions of Inl _ \<Rightarrow> ''[]'' | Inr data \<Rightarrow> data))
      | _ \<Rightarrow> ''[]'')"

definition marshal_nil_map :: "string gomap option \<Rightarrow> string" where
  "marshal_nil_map m = (case m of None \<Rightarrow> ''null'' | Some kvs \<Rightarrow> marshal_string_map kvs)"

definition idKey :: "string \<Rightarrow> string \<Rightarrow> string \<Rightarrow> string \<Rightarrow> string \<Rightarrow> string" where
  "idKey cluster apiGroup kind namespace name = Sprintf ''%s/%s/%s/%s/%s'' [cluster, apiGroup, kind, namespace, name]"

definition toObjectModel :: "k8s_api \<Rightarrow> EventHandler \<Rightarrow> object \<Rightarrow> ObjectModel result" where
  "toObjectModel k h u =
     (let gvr = eh_GVR h;
          id = k_NewSHA1 k objectIDNamespace
            (idKey (eh_ClusterName h) (gvr_Group gvr) (eh_Kind h) (k_GetNamespace k u) (k_GetName k u))
      in case Marshal (JObj u) of
           Inl e \<Rightarrow> Inl (Wrapped ''marshal object'' e)
         | Inr objJSON \<Rightarrow> Inr
             \<lparr>om_ID = id, om_UID = k_GetUID k u, om_Cluster = eh_ClusterName h, om_APIGroup = gvr_Group gvr,
              om_APIVersion = gvr_Version gvr, om_Kind = eh_Kind h, om_Resource = gvr_Resource gvr,
              om_Namespace = k_GetNamespace k u, om_Name = k_GetName k u,
              om_Labels = Some (marshal_nil_map (k_GetLabels k u)),
              om_Annotations = Some (marshal_nil_map (k_GetAnnotations k u)),
              om_OwnerRefs = (case k_OwnerReferencesJSON k u of Inl _ \<Rightarrow> None | Inr j \<Rightarrow> Some j),
              om_Conditions = Some (extractConditions u),
              om_CreationTS = k_GetCreationTimestamp k u,
              om_ResourceVersion = k_GetResourceVersion k u, om_Object = Some objJSON\<rparr>)"

definition upsert :: "k8s_api \<Rightarrow> 'db Store \<Rightarrow> EventHandler \<Rightarrow> 'db \<Rightarrow> interface \<Rightarrow> 'db" where
  "upsert k s h db obj =
     (case toUnstructured obj of
        None \<Rightarrow> db
      | Some u \<Rightarrow>
          (case toObjectModel k h u of
             Inl _ \<Rightarrow> db
           | Inr model \<Rightarrow> (case s_UpsertObject s db model of Inl _ \<Rightarrow> db | Inr db' \<Rightarrow> db')))"

definition OnAdd :: "k8s_api \<Rightarrow> 'db Store \<Rightarrow> EventHandler \<Rightarrow> 'db \<Rightarrow> interface \<Rightarrow> bool \<Rightarrow> 'db" where
  "OnAdd k s h db obj isInInitialList = upsert k s h db obj"

definition OnUpdate :: "k8s_api \<Rightarrow> 'db Store \<Rightarrow> EventHandler \<Rightarrow> 'db \<Rightarrow> interface \<Rightarrow> interface \<Rightarrow> 'db" where
  "OnUpdate k s h db oldObj newObj = upsert k s h db newObj"

definition OnDelete :: "k8s_api \<Rightarrow> 'db Store \<Rightarrow> EventHandler \<Rightarrow> 'db \<Rightarrow> interface \<Rightarrow> 'db" where
  "OnDelete k s h db obj =
     (case toUnstructured obj of
        None \<Rightarrow> db
      | Some u \<Rightarrow>
          (case s_DeleteObject s db (eh_ClusterName h) (gvr_Group (eh_GVR h)) (eh_Kind h)
                  (k_GetNamespace k u) (k_GetName k u) of
             Inl _ \<Rightarrow> db | Inr db' \<Rightarrow> db'))"

subsection \<open>Events in sequence\<close>

datatype event = Added interface bool | Updated interface interface | Deleted interface

fun handle :: "k8s_api \<Rightarrow> 'db Store \<Rightarrow> 'db \<Rightarrow> EventHandler \<times> event \<Rightarrow> 'db" where
  "handle k s db (h, Added obj initial) = OnAdd k s h db obj initial"
| "handle k s db (h, Updated old new) = OnUpdate k s h db old new"
| "handle k s db (h, Deleted obj) = OnDelete k s h db obj"

definition run_events :: "k8s_api \<Rightarrow> 'db Store \<Rightarrow> 'db \<Rightarrow> (EventHandler \<times> event) list \<Rightarrow> 'db" where
  "run_events k s db evs = foldl (handle k s) db evs"

text \<open>What an event says: the key of its object, and the row it should have from then on.\<close>

definition upsert_effect :: "k8s_api \<Rightarrow> EventHandler \<Rightarrow> interface \<Rightarrow> (colval list \<times> row option) option" where
  "upsert_effect k h obj =
     (case toUnstructured obj of
        None \<Rightarrow> None
      | Some u \<Rightarrow> (case toObjectModel k h u of Inl _ \<Rightarrow> None | Inr m \<Rightarrow> Some (keyOf m, Some (objectRow m))))"

fun effect :: "k8s_api \<Rightarrow> EventHandler \<times> event \<Rightarrow> (colval list \<times> row option) option" where
  "effect k (h, Added obj _) = upsert_effect k h obj"
| "effect k (h, Updated _ new) = upsert_effect k h new"
| "effect k (h, Deleted obj) =
     (case toUnstructured obj of
        None \<Rightarrow> None
      | Some u \<Rightarrow> Some (map CString [eh_ClusterName h, gvr_Group (eh_GVR h), eh_Kind h, k_GetNamespace k u, k_GetName k u], None))"

subsection \<open>Identifiers\<close>

lemma idKey_eq: "idKey c g k n m = c @ ''/'' @ g @ ''/'' @ k @ ''/'' @ n @ ''/'' @ m"
  by (simp add: idKey_def Sprintf.simps)

text \<open>Every stored row is a model whose identifier is the hash of its key.\<close>

definition model_id :: "k8s_api \<Rightarrow> ObjectModel \<Rightarrow> string" where
  "model_id k m = k_NewSHA1 k objectIDNamespace
     (idKey (om_Cluster m) (om_APIGroup m) (om_Kind m) (om_Namespace m) (om_Name m))"

definition ids_hashed :: "k8s_api \<Rightarrow> row list \<Rightarrow> bool" where
  "ids_hashed k rs \<longleftrightarrow> (\<forall>r \<in> set rs. \<exists>m. r = objectRow m \<and> om_ID m = model_id k m)"

lemma toObjectModel_id: "toObjectModel k h u = Inr m \<Longrightarrow> om_ID m = model_id k m"
  by (auto simp: toObjectModel_def model_id_def Let_def split: sum.splits)

lemma keyOf_model_id: "keyOf m = keyOf m' \<Longrightarrow> model_id k m = model_id k m'"
  by (simp add: keyOf_def model_id_def)

lemma assign_objectRow:
  assumes "keyOf old = keyOf new" "om_ID old = om_ID new"
  shows "assign objectUpdates (objectRow new) (objectRow old) = objectRow new"
proof
  fix c
  show "assign objectUpdates (objectRow new) (objectRow old) c = objectRow new c"
    using assms by (simp add: assign_def objectUpdates_def objectRow_def row_of_def keyOf_def)
qed

lemma upsert_rows_hashed:
  assumes "ids_hashed k rs" "om_ID m = model_id k m"
  shows "ids_hashed k (upsert_rows objectKey objectUpdates (objectRow m) rs)"
    and "object_at rs (keyOf m) = Some old \<Longrightarrow> assign objectUpdates (objectRow m) old = objectRow m"
proof -
  have same: "assign objectUpdates (objectRow m) r = objectRow m" if "r \<in> set rs" "map r objectKey = keyOf m" for r
    using assms that unfolding ids_hashed_def
    by (metis assign_objectRow keyOf_model_id objectRow_key)
  then show "ids_hashed k (upsert_rows objectKey objectUpdates (objectRow m) rs)"
    using assms by (auto simp: ids_hashed_def upsert_rows_def same_on_def objectRow_key split: if_splits)
  show "object_at rs (keyOf m) = Some old \<Longrightarrow> assign objectUpdates (objectRow m) old = objectRow m"
    by (rule same) (auto simp: object_at_def find_Some_iff)
qed

subsection \<open>The table follows the events\<close>

definition follow :: "(colval list \<Rightarrow> row option) \<Rightarrow> (colval list \<times> row option) option \<Rightarrow> colval list \<Rightarrow> row option" where
  "follow m e = (case e of None \<Rightarrow> m | Some (key, v) \<Rightarrow> m(key := v))"

locale reliable_objects = store_contract +
  assumes upsert_ok: "\<exists>db'. s_UpsertObject s db obj = Inr db'"
    and delete_ok: "\<exists>db'. s_DeleteObject s db cl gr kd ns n = Inr db'"
begin

lemma upsert_follows:
  assumes "ids_hashed k (tables db objectsTable)"
  shows "ids_hashed k (tables (upsert k s h db obj) objectsTable)"
    and "object_at (tables (upsert k s h db obj) objectsTable) =
      follow (object_at (tables db objectsTable)) (upsert_effect k h obj)"
proof -
  have "ids_hashed k (tables (upsert k s h db obj) objectsTable) \<and>
    object_at (tables (upsert k s h db obj) objectsTable) =
      follow (object_at (tables db objectsTable)) (upsert_effect k h obj)"
  proof (cases "\<exists>u m. toUnstructured obj = Some u \<and> toObjectModel k h u = Inr m")
    case True
    then obtain u m where um: "toUnstructured obj = Some u" "toObjectModel k h u = Inr m" by blast
    obtain db' where db': "s_UpsertObject s db m = Inr db'" using upsert_ok by blast
    have rows: "tables db' objectsTable = upsert_rows objectKey objectUpdates (objectRow m) (tables db objectsTable)"
      by (simp add: UpsertObject [OF db'])
    note hashed = upsert_rows_hashed [OF assms toObjectModel_id [OF um(2)]]
    have "object_at (tables db' objectsTable) = (object_at (tables db objectsTable))(keyOf m \<mapsto> objectRow m)"
      unfolding rows upsert_objects_at using hashed(2) by (auto split: option.split)
    with um db' rows hashed(1) show ?thesis by (simp add: upsert_def upsert_effect_def follow_def)
  next
    case False
    with assms show ?thesis
      by (auto simp: upsert_def upsert_effect_def follow_def split: option.splits sum.splits)
  qed
  then show "ids_hashed k (tables (upsert k s h db obj) objectsTable)"
    and "object_at (tables (upsert k s h db obj) objectsTable) =
      follow (object_at (tables db objectsTable)) (upsert_effect k h obj)" by blast+
qed

lemma OnDelete_follows:
  assumes "ids_hashed k (tables db objectsTable)"
  shows "ids_hashed k (tables (OnDelete k s h db obj) objectsTable)"
    and "object_at (tables (OnDelete k s h db obj) objectsTable) =
      follow (object_at (tables db objectsTable)) (effect k (h, Deleted obj))"
proof -
  have "ids_hashed k (tables (OnDelete k s h db obj) objectsTable) \<and>
    object_at (tables (OnDelete k s h db obj) objectsTable) =
      follow (object_at (tables db objectsTable)) (effect k (h, Deleted obj))"
  proof (cases "toUnstructured obj")
    case (Some u)
    let ?key = "map CString [eh_ClusterName h, gvr_Group (eh_GVR h), eh_Kind h, k_GetNamespace k u, k_GetName k u]"
    obtain db' where db': "s_DeleteObject s db (eh_ClusterName h) (gvr_Group (eh_GVR h)) (eh_Kind h)
        (k_GetNamespace k u) (k_GetName k u) = Inr db'" using delete_ok by blast
    have rows: "tables db' objectsTable = filter (\<lambda>r. map r objectKey \<noteq> ?key) (tables db objectsTable)"
      by (simp add: DeleteObject [OF db'])
    have "ids_hashed k (tables db' objectsTable)" using assms unfolding rows by (simp add: ids_hashed_def)
    moreover have "object_at (tables db' objectsTable) = (object_at (tables db objectsTable))(?key := None)"
      unfolding rows by (rule delete_objects_at)
    ultimately show ?thesis using Some db' by (simp add: OnDelete_def follow_def)
  next
    case None
    with assms show ?thesis by (simp add: OnDelete_def follow_def)
  qed
  then show "ids_hashed k (tables (OnDelete k s h db obj) objectsTable)"
    and "object_at (tables (OnDelete k s h db obj) objectsTable) =
      follow (object_at (tables db objectsTable)) (effect k (h, Deleted obj))" by blast+
qed

lemma handle_follows:
  assumes "ids_hashed k (tables db objectsTable)"
  shows "ids_hashed k (tables (handle k s db he) objectsTable)"
    and "object_at (tables (handle k s db he) objectsTable) = follow (object_at (tables db objectsTable)) (effect k he)"
  using upsert_follows [OF assms] OnDelete_follows [OF assms]
  by (cases "(k, s, db, he)" rule: handle.cases; simp add: OnAdd_def OnUpdate_def)+

lemma run_events_follow:
  assumes "ids_hashed k (tables db objectsTable)"
  shows "ids_hashed k (tables (run_events k s db evs) objectsTable)
    \<and> object_at (tables (run_events k s db evs) objectsTable) =
        foldl follow (object_at (tables db objectsTable)) (map (effect k) evs)"
  using assms
proof (induction evs arbitrary: db)
  case (Cons he evs)
  from Cons.IH [OF handle_follows(1) [OF Cons.prems]] handle_follows(2) [OF Cons.prems]
  show ?case by (simp add: run_events_def)
qed (simp add: run_events_def)

end

lemma mem_objects_ok:
  "\<exists>db'. s_UpsertObject (gormStore mem_gorm) db obj = Inr db'"
  "\<exists>db'. s_DeleteObject (gormStore mem_gorm) db cl gr kd ns n = Inr db'"
  by (simp_all add: gormStore_def UpsertObject_def DeleteObject_def mem_gorm_def)

interpretation objmem: reliable_objects "gormStore mem_gorm" "\<lambda>db. db"
  by unfold_locales (rule mem_objects_ok)+

text \<open>The last event about a key decides.\<close>

definition last_effect :: "k8s_api \<Rightarrow> (EventHandler \<times> event) list \<Rightarrow> colval list \<Rightarrow> row option option" where
  "last_effect k evs = map_of (rev (List.map_filter (effect k) evs))"

lemma foldl_follow:
  "foldl follow m (map (effect k) evs) = (\<lambda>key. case last_effect k evs key of None \<Rightarrow> m key | Some v \<Rightarrow> v)"
proof (induction evs arbitrary: m)
  case (Cons he evs)
  then show ?case
    by (cases "effect k he")
      (auto simp: fun_eq_iff last_effect_def follow_def map_filter_simps map_add_def split: option.split prod.split)
qed (simp add: last_effect_def map_filter_simps)

subsection \<open>Properties\<close>

text \<open>The accessors of \<open>Unstructured\<close> as documented, on the members of the body, and a hash
  that keeps its input.\<close>

fun body_string :: "object \<Rightarrow> string list \<Rightarrow> string" where
  "body_string u [] = []"
| "body_string u [x] = (case map_of u x of Some (JStr s) \<Rightarrow> s | _ \<Rightarrow> [])"
| "body_string u (x # y # ys) = (case map_of u x of Some (JObj v) \<Rightarrow> body_string v (y # ys) | _ \<Rightarrow> [])"

definition example_api :: k8s_api where
  "example_api =
     \<lparr>k_GetNamespace = (\<lambda>u. body_string u [''metadata'', ''namespace'']),
      k_GetName = (\<lambda>u. body_string u [''metadata'', ''name'']),
      k_GetUID = (\<lambda>u. body_string u [''metadata'', ''uid'']),
      k_GetResourceVersion = (\<lambda>u. body_string u [''metadata'', ''resourceVersion'']),
      k_GetLabels = (\<lambda>_. None), k_GetAnnotations = (\<lambda>_. None), k_OwnerReferencesJSON = (\<lambda>_. Inr ''null''),
      k_GetCreationTimestamp = (\<lambda>_. None), k_NewSHA1 = (\<lambda>_ x. x)\<rparr>"

definition example_handler :: EventHandler where
  "example_handler = \<lparr>eh_ClusterName = ''east'',
     eh_GVR = \<lparr>gvr_Group = [], gvr_Version = ''v1'', gvr_Resource = ''pods''\<rparr>, eh_Kind = ''Pod''\<rparr>"

definition pod :: "string \<Rightarrow> object" where
  "pod n = [(''metadata'', JObj [(''name'', JStr n), (''namespace'', JStr ''prod'')]),
     (''status'', JObj [(''conditions'', JArr [])])]"

lemma pod_model:
  "\<exists>m. toObjectModel example_api example_handler (pod n) = Inr m \<and> keyOf m = map CString [''east'', [], ''Pod'', ''prod'', n]"
  by (simp add: toObjectModel_def example_api_def example_handler_def pod_def Let_def Marshal_def keyOf_def)

text \<open>C12. The table follows the cluster: after any sequence of informer events of any
  number of resources, with a store that does not fail, the row at a key is the model of
  the object in the last event about that key, there is none if that event was a deletion
  (also one that arrives as a tombstone), and it is the old row if no event was about it.
  An event whose object cannot be read changes nothing.\<close>

theorem last_event_wins:
  assumes "gorm_db g tables"
    and "\<And>db obj. \<exists>db'. UpsertObject g db obj = Inr db'"
    and "\<And>db cl gr kd ns n. \<exists>db'. DeleteObject g db cl gr kd ns n = Inr db'"
    and "ids_hashed k (tables db objectsTable)"
  shows "object_at (tables (run_events k (gormStore g) db evs) objectsTable) key =
    (case last_effect k evs key of None \<Rightarrow> object_at (tables db objectsTable) key | Some v \<Rightarrow> v)"
proof -
  have "reliable_objects (gormStore g) tables"
    using gorm_db.contract [OF assms(1)] assms(2, 3)
    by (simp add: reliable_objects_def reliable_objects_axioms_def gormStore_def)
  then have "object_at (tables (run_events k (gormStore g) db evs) objectsTable) =
      foldl follow (object_at (tables db objectsTable)) (map (effect k) evs)"
    using reliable_objects.run_events_follow [of "gormStore g" tables k db evs] assms(4) by blast
  then show ?thesis by (simp add: foldl_follow)
qed

theorem last_event_wins_witness:
  "object_at (run_events example_api (gormStore mem_gorm) (\<lambda>_. [])
      [(example_handler, Added (Unstructured (pod ''a'')) True), (example_handler, Added (Unstructured (pod ''b'')) True),
       (example_handler, Deleted (DeletedFinalStateUnknown (Unstructured (pod ''a''))))] objectsTable)
    (map CString [''east'', [], ''Pod'', ''prod'', ''a'']) = None"
proof -
  have ok: "\<exists>db'. UpsertObject mem_gorm db obj = Inr db'" "\<exists>db'. DeleteObject mem_gorm db cl gr kd ns n = Inr db'"
    for db obj cl gr kd ns n
    using mem_objects_ok(1) [of db obj] mem_objects_ok(2) [of db cl gr kd ns n] by (simp_all add: gormStore_def)
  have keys: "k_GetNamespace example_api (pod ''a'') = ''prod''" "k_GetName example_api (pod ''a'') = ''a''"
    by (simp_all add: example_api_def pod_def)
  have "last_effect example_api [(example_handler, Added (Unstructured (pod ''a'')) True),
       (example_handler, Added (Unstructured (pod ''b'')) True),
       (example_handler, Deleted (DeletedFinalStateUnknown (Unstructured (pod ''a''))))]
      (map CString [''east'', [], ''Pod'', ''prod'', ''a'']) = Some None"
    by (auto simp: last_effect_def map_filter_simps toUnstructured_def keys example_handler_def split: option.split)
  with last_event_wins [OF mem.gorm_db_axioms ok] show ?thesis by (simp add: ids_hashed_def)
qed

text \<open>C28. The identifier is a function of the key and of nothing else: two objects hash the
  same text exactly when cluster, group, kind, namespace and name agree, provided the last
  four contain no slash; a cluster's name may contain slashes.\<close>

theorem idKey_injective:
  assumes "CHR ''/'' \<notin> set gr \<union> set kd \<union> set ns \<union> set n" and "CHR ''/'' \<notin> set gr' \<union> set kd' \<union> set ns' \<union> set n'"
  shows "idKey cl gr kd ns n = idKey cl' gr' kd' ns' n' \<longleftrightarrow> cl = cl' \<and> gr = gr' \<and> kd = kd' \<and> ns = ns' \<and> n = n'"
proof -
  have nest: "idKey c g k m x = (((c @ CHR ''/'' # g) @ CHR ''/'' # k) @ CHR ''/'' # m) @ CHR ''/'' # x" for c g k m x
    by (simp add: idKey_eq)
  have a: "CHR ''/'' \<notin> set gr" "CHR ''/'' \<notin> set kd" "CHR ''/'' \<notin> set ns" "CHR ''/'' \<notin> set n"
    and b: "CHR ''/'' \<notin> set gr'" "CHR ''/'' \<notin> set kd'" "CHR ''/'' \<notin> set ns'" "CHR ''/'' \<notin> set n'"
    using assms by simp_all
  show ?thesis
    unfolding nest append_sep_inj_right [OF a(4) b(4)] append_sep_inj_right [OF a(3) b(3)]
      append_sep_inj_right [OF a(2) b(2)] append_sep_inj_right [OF a(1) b(1)] by blast
qed

theorem idKey_injective_witness:
  "idKey ''root/org'' [] ''Pod'' ''prod'' ''a'' \<noteq> idKey ''root'' ''org'' ''Pod'' ''prod'' ''a''"
  by (subst idKey_injective) simp_all

text \<open>C24. What is stored is the object: the conversion succeeds exactly when every number of
  the body has a JSON text, the key columns are those of the handler and of the object, and
  the stored body and labels decode to the body, with the members in the order of their
  keys, and to the labels.\<close>

theorem stored_object_decodes:
  "(case toObjectModel k h u of
      Inl e \<Rightarrow> \<not> printable (JObj u)
    | Inr m \<Rightarrow> printable (JObj u) \<and>
        keyOf m = map CString [eh_ClusterName h, gvr_Group (eh_GVR h), eh_Kind h, k_GetNamespace k u, k_GetName k u] \<and>
        map_option Unmarshal (om_Object m) = Some (Some (canonical (JObj u))) \<and>
        map_option Unmarshal (om_Labels m) = Some (Some (case k_GetLabels k u of
            None \<Rightarrow> JNull | Some ls \<Rightarrow> JObj (map (\<lambda>p. (fst p, JStr (snd p))) (sort_key fst ls)))))"
proof (cases "printable (JObj u)")
  case True
  have null: "Unmarshal ''null'' = Some JNull" by code_simp
  from True show ?thesis
    by (simp add: toObjectModel_def Let_def Marshal_def keyOf_def Unmarshal_marshal marshal_nil_map_def null
        Unmarshal_marshal_map del: printable.simps marshal.simps canonical.simps split: option.split)
qed (simp add: toObjectModel_def Let_def Marshal_def del: printable.simps)

end
