(* ===== verification/Synced_Objects.thy ===== *)
theory Synced_Objects
  imports Relation_Semantics Sync_Handler
begin











subsection \<open>From events to relations\<close>








end
