(* ===== verification/Garbage_Collector.thy ===== *)
theory Garbage_Collector
  imports Object_Store
begin

text \<open>
  \<open>internal/gc\<close>: the collector of clusters that left. It works through the \<open>Store\<close>
  interface only, so its lemmas are proved in \<open>store_contract\<close>: a call may fail at any
  point, and one that succeeds changes its table and no other. The clock is an argument
  (nanoseconds); the gauge \<open>ClustersTotal\<close> is the number next to the database.
\<close>

record 'db GarbageCollector =
  gc_store :: "'db Store"
  gc_interval :: int64

definition NewGarbageCollector :: "'db Store \<Rightarrow> int64 \<Rightarrow> 'db GarbageCollector" where
  "NewGarbageCollector s interval = \<lparr>gc_store = s, gc_interval = interval\<rparr>"

text \<open>\<open>time.Duration(cluster.TTL) * time.Second\<close> is a product of 64-bit integers.\<close>

definition expiry :: "ClusterModel \<Rightarrow> gotime" where
  "expiry c = cm_LastSeen c + sint (cm_TTL c * 1000000000)"

definition collectCluster :: "'db Store \<Rightarrow> gotime \<Rightarrow> 'db \<times> int \<Rightarrow> ClusterModel \<Rightarrow> 'db \<times> int" where
  "collectCluster s now st c =
     (let (db, gauge) = st in
      if now < expiry c then st
      else (case s_DeleteObjectsForCluster s db (cm_Name c) of
              Inl _ \<Rightarrow> (db, gauge)
            | Inr db1 \<Rightarrow>
                (case s_DeleteResourceTypesForCluster s db1 (cm_Name c) of
                   Inl _ \<Rightarrow> (db1, gauge)
                 | Inr db2 \<Rightarrow>
                     (case s_DeleteCluster s db2 (cm_Name c) of
                        Inl _ \<Rightarrow> (db2, gauge)
                      | Inr db3 \<Rightarrow> (db3, gauge - 1)))))"

definition collect :: "'db GarbageCollector \<Rightarrow> gotime \<Rightarrow> 'db \<times> int \<Rightarrow> 'db \<times> int" where
  "collect gc now st =
     (case s_ListStaleClusters (gc_store gc) (fst st) now of
        Inl _ \<Rightarrow> st
      | Inr clusters \<Rightarrow> foldl (collectCluster (gc_store gc) now) st clusters)"

definition RunOnce :: "'db GarbageCollector \<Rightarrow> gotime \<Rightarrow> 'db \<times> int \<Rightarrow> 'db \<times> int" where
  "RunOnce gc now st = collect gc now st"

text \<open>The loop of \<open>Run\<close>: what its \<open>select\<close> receives, in order. A tick carries the time
  at which the pass reads the clock.\<close>

datatype gc_event = CtxDone | Tick gotime

fun RunGC :: "'db GarbageCollector \<Rightarrow> gc_event list \<Rightarrow> 'db \<times> int \<Rightarrow> 'db \<times> int" where
  "RunGC gc [] st = st"
| "RunGC gc (CtxDone # _) st = st"
| "RunGC gc (Tick now # evs) st = RunGC gc evs (collect gc now st)"

subsection \<open>What a pass may remove\<close>

definition expired_at :: "gotime \<Rightarrow> row \<Rightarrow> bool" where
  "expired_at now r \<longleftrightarrow> r ''status'' = CString ''stale'' \<and> older ''last_seen'' now r \<and>
     \<not> now < expiry (rowClusterModel r)"

definition expired_names :: "gotime \<Rightarrow> (string \<Rightarrow> row list) \<Rightarrow> colval set" where
  "expired_names now ts =
     (\<lambda>r. CString (cm_Name (rowClusterModel r))) ` {r \<in> set (ts clustersTable). expired_at now r}"

definition no_orphans :: "(string \<Rightarrow> row list) \<Rightarrow> bool" where
  "no_orphans ts \<longleftrightarrow>
     (\<forall>r \<in> set (ts objectsTable) \<union> set (ts resourceTypesTable).
        \<exists>c \<in> set (ts clustersTable). c ''name'' = r ''cluster'')"

text \<open>The tables of \<open>ts'\<close> are those of \<open>ts\<close> less some rows that belong to the clusters
  named in \<open>X\<close>.\<close>

definition only_removes :: "colval set \<Rightarrow> (string \<Rightarrow> row list) \<Rightarrow> (string \<Rightarrow> row list) \<Rightarrow> bool" where
  "only_removes X ts ts' \<longleftrightarrow>
     (\<forall>(t, c) \<in> {(objectsTable, ''cluster''), (resourceTypesTable, ''cluster''), (clustersTable, ''name'')}.
        set (ts' t) \<subseteq> set (ts t) \<and> filter (\<lambda>r. r c \<notin> X) (ts' t) = filter (\<lambda>r. r c \<notin> X) (ts t))"

lemma only_removes_refl [simp]: "only_removes X ts ts"
  by (auto simp: only_removes_def)

lemma only_removes_trans: "only_removes X ts ts' \<Longrightarrow> only_removes X ts' ts'' \<Longrightarrow> only_removes X ts ts''"
  unfolding only_removes_def by fastforce

lemma filter_absorb: "v \<in> X \<Longrightarrow> filter (\<lambda>r. r c \<notin> X) (filter (\<lambda>r. r c \<noteq> v) rs) = filter (\<lambda>r. r c \<notin> X) rs"
  by (induction rs) auto

lemma only_removes_filter:
  assumes "v \<in> X" "(t, c) \<in> {(objectsTable, ''cluster''), (resourceTypesTable, ''cluster''), (clustersTable, ''name'')}"
  shows "only_removes X ts (ts(t := filter (\<lambda>r. r c \<noteq> v) (ts t)))"
  unfolding only_removes_def
proof clarify
  fix t' c'
  assume "(t', c') \<in> {(objectsTable, ''cluster''), (resourceTypesTable, ''cluster''), (clustersTable, ''name'')}"
  with assms have "t' = t \<Longrightarrow> c' = c" by auto
  with assms(1) show "set ((ts(t := filter (\<lambda>r. r c \<noteq> v) (ts t))) t') \<subseteq> set (ts t') \<and>
      filter (\<lambda>r. r c' \<notin> X) ((ts(t := filter (\<lambda>r. r c \<noteq> v) (ts t))) t') = filter (\<lambda>r. r c' \<notin> X) (ts t')"
    by (cases "t' = t") (simp_all only: fun_upd_same fun_upd_other filter_absorb filter_is_subset simp_thms)
qed

context store_contract begin

lemma delete_removes:
  assumes "CString cl \<in> X"
  shows "s_DeleteObjectsForCluster s db cl = Inr db' \<Longrightarrow> only_removes X (tables db) (tables db')"
    and "s_DeleteResourceTypesForCluster s db cl = Inr db' \<Longrightarrow> only_removes X (tables db) (tables db')"
    and "s_DeleteCluster s db cl = Inr db' \<Longrightarrow> only_removes X (tables db) (tables db')"
  using only_removes_filter [OF assms, of objectsTable "''cluster''" "tables db"]
    only_removes_filter [OF assms, of resourceTypesTable "''cluster''" "tables db"]
    only_removes_filter [OF assms, of clustersTable "''name''" "tables db"]
  by (simp_all add: DeleteObjectsForCluster DeleteResourceTypesForCluster DeleteCluster)

text \<open>How far the body of the loop gets.\<close>

lemma collectCluster_cases:
  obtains "now < expiry c" "collectCluster s now st c = st"
  | "\<not> now < expiry c" "collectCluster s now st c = st"
  | db1 where "\<not> now < expiry c" "s_DeleteObjectsForCluster s (fst st) (cm_Name c) = Inr db1"
      "collectCluster s now st c = (db1, snd st)"
  | db1 db2 where "\<not> now < expiry c" "s_DeleteObjectsForCluster s (fst st) (cm_Name c) = Inr db1"
      "s_DeleteResourceTypesForCluster s db1 (cm_Name c) = Inr db2" "collectCluster s now st c = (db2, snd st)"
  | db1 db2 db3 where "\<not> now < expiry c" "s_DeleteObjectsForCluster s (fst st) (cm_Name c) = Inr db1"
      "s_DeleteResourceTypesForCluster s db1 (cm_Name c) = Inr db2" "s_DeleteCluster s db2 (cm_Name c) = Inr db3"
      "collectCluster s now st c = (db3, snd st - 1)"
proof (cases "now < expiry c")
  case late: False
  obtain db n where st: "st = (db, n)" by (cases st)
  show ?thesis
  proof (cases "s_DeleteObjectsForCluster s db (cm_Name c)")
    case Inl
    with late st show ?thesis by (intro that(2)) (simp_all add: collectCluster_def)
  next
    case 1: (Inr db1)
    show ?thesis
    proof (cases "s_DeleteResourceTypesForCluster s db1 (cm_Name c)")
      case Inl
      with late st 1 show ?thesis by (intro that(3)) (simp_all add: collectCluster_def)
    next
      case 2: (Inr db2)
      show ?thesis
      proof (cases "s_DeleteCluster s db2 (cm_Name c)")
        case Inl
        with late st 1 2 show ?thesis by (intro that(4)) (simp_all add: collectCluster_def)
      next
        case Inr
        with late st 1 2 show ?thesis by (intro that(5)) (simp_all add: collectCluster_def)
      qed
    qed
  qed
qed (rule that(1), simp_all add: collectCluster_def split: prod.split)

lemma collectCluster_removes:
  assumes "\<not> now < expiry c \<Longrightarrow> CString (cm_Name c) \<in> X"
  shows "only_removes X (tables (fst st)) (tables (fst (collectCluster s now st c)))"
  by (rule collectCluster_cases [of now c st])
    (auto dest!: assms intro: only_removes_trans [OF only_removes_trans] only_removes_trans
      delete_removes)

lemma collectClusters_removes:
  assumes "\<And>c. c \<in> set cs \<Longrightarrow> \<not> now < expiry c \<Longrightarrow> CString (cm_Name c) \<in> X"
  shows "only_removes X (tables (fst st)) (tables (fst (foldl (collectCluster s now) st cs)))"
  using assms
proof (induction cs arbitrary: st)
  case (Cons c cs)
  have "only_removes X (tables (fst st)) (tables (fst (collectCluster s now st c)))"
    using Cons.prems by (intro collectCluster_removes) auto
  from only_removes_trans [OF this Cons.IH] Cons.prems show ?case by simp
qed simp

lemma listed:
  assumes "s_ListStaleClusters s db now = Inr cs"
  shows "{CString (cm_Name c) |c. c \<in> set cs \<and> \<not> now < expiry c} = expired_names now (tables db)"
  unfolding ListStaleClusters [OF assms] expired_names_def expired_at_def by blast

lemma collect_removes:
  assumes "gc_store gc = s"
  shows "only_removes (expired_names now (tables (fst st))) (tables (fst st)) (tables (fst (collect gc now st)))"
proof (cases "s_ListStaleClusters s (fst st) now")
  case (Inr cs)
  with listed [OF Inr] show ?thesis
    by (auto simp: collect_def assms intro!: collectClusters_removes)
qed (simp add: collect_def assms)

lemma delete_no_orphans:
  "s_DeleteObjectsForCluster s db cl = Inr db' \<Longrightarrow> no_orphans (tables db) \<Longrightarrow> no_orphans (tables db')"
  "s_DeleteResourceTypesForCluster s db cl = Inr db' \<Longrightarrow> no_orphans (tables db) \<Longrightarrow> no_orphans (tables db')"
  by (auto simp: no_orphans_def dest!: DeleteObjectsForCluster DeleteResourceTypesForCluster)

lemma delete_cluster_no_orphans:
  assumes "s_DeleteObjectsForCluster s db cl = Inr db1" "s_DeleteResourceTypesForCluster s db1 cl = Inr db2"
    "s_DeleteCluster s db2 cl = Inr db3" "no_orphans (tables db)"
  shows "no_orphans (tables db3)"
  unfolding no_orphans_def
proof
  fix r
  assume "r \<in> set (tables db3 objectsTable) \<union> set (tables db3 resourceTypesTable)"
  then have "r \<in> set (tables db objectsTable) \<union> set (tables db resourceTypesTable)" and cl: "r ''cluster'' \<noteq> CString cl"
    by (auto simp: DeleteObjectsForCluster [OF assms(1)] DeleteResourceTypesForCluster [OF assms(2)]
        DeleteCluster [OF assms(3)])
  with assms(4) obtain c where "c \<in> set (tables db clustersTable)" "c ''name'' = r ''cluster''"
    unfolding no_orphans_def by blast
  with cl show "\<exists>c \<in> set (tables db3 clustersTable). c ''name'' = r ''cluster''"
    by (auto simp: DeleteObjectsForCluster [OF assms(1)] DeleteResourceTypesForCluster [OF assms(2)]
        DeleteCluster [OF assms(3)])
qed

lemma collectCluster_no_orphans:
  "no_orphans (tables (fst st)) \<Longrightarrow> no_orphans (tables (fst (collectCluster s now st c)))"
  by (rule collectCluster_cases [of now c st]) (auto dest: delete_no_orphans delete_cluster_no_orphans)

lemma RunGC_no_orphans:
  assumes "gc_store gc = s" "no_orphans (tables (fst st))"
  shows "no_orphans (tables (fst (RunGC gc evs st)))"
proof -
  have fold: "no_orphans (tables (fst (foldl (collectCluster s now) st cs)))"
    if "no_orphans (tables (fst st))" for now st cs
    using that by (induction cs arbitrary: st) (simp_all add: collectCluster_no_orphans)
  have "no_orphans (tables (fst (collect gc now st)))" if "no_orphans (tables (fst st))" for now st
    using that fold by (auto simp: collect_def assms(1) split: sum.split)
  with assms(2) show ?thesis by (induction gc evs st rule: RunGC.induct) auto
qed

end

subsection \<open>A pass on a store that does not fail\<close>

definition cleared :: "colval set \<Rightarrow> (string \<Rightarrow> row list) \<Rightarrow> bool" where
  "cleared X ts \<longleftrightarrow> (\<forall>r \<in> set (ts objectsTable) \<union> set (ts resourceTypesTable). r ''cluster'' \<notin> X) \<and>
     (\<forall>r \<in> set (ts clustersTable). r ''name'' \<notin> X)"

lemma only_removes_cleared: "only_removes X ts ts' \<Longrightarrow> cleared Y ts \<Longrightarrow> cleared Y ts'"
  by (auto simp: only_removes_def cleared_def)

lemma cleared_insert: "cleared {x} ts \<Longrightarrow> cleared X ts \<Longrightarrow> cleared (insert x X) ts"
  by (auto simp: cleared_def)

locale reliable_store = store_contract +
  assumes objects_ok: "\<exists>db'. s_DeleteObjectsForCluster s db cl = Inr db'"
    and types_ok: "\<exists>db'. s_DeleteResourceTypesForCluster s db cl = Inr db'"
    and cluster_ok: "\<exists>db'. s_DeleteCluster s db cl = Inr db'"
    and list_ok: "\<exists>cs. s_ListStaleClusters s db t = Inr cs"
begin

lemma collectCluster_clears:
  assumes "\<not> now < expiry c"
  shows "cleared {CString (cm_Name c)} (tables (fst (collectCluster s now st c)))"
proof -
  obtain db1 where 1: "s_DeleteObjectsForCluster s (fst st) (cm_Name c) = Inr db1" using objects_ok by blast
  obtain db2 where 2: "s_DeleteResourceTypesForCluster s db1 (cm_Name c) = Inr db2" using types_ok by blast
  obtain db3 where 3: "s_DeleteCluster s db2 (cm_Name c) = Inr db3" using cluster_ok by blast
  from assms 1 2 3 have "fst (collectCluster s now st c) = db3"
    by (cases st) (simp add: collectCluster_def)
  then show ?thesis
    by (simp add: cleared_def DeleteObjectsForCluster [OF 1] DeleteResourceTypesForCluster [OF 2] DeleteCluster [OF 3])
      auto
qed

lemma collectClusters_clears:
  "cleared {CString (cm_Name c) |c. c \<in> set cs \<and> \<not> now < expiry c}
     (tables (fst (foldl (collectCluster s now) st cs)))"
proof (induction cs rule: rev_induct)
  case (snoc c cs)
  let ?st = "foldl (collectCluster s now) st cs"
  have keep: "cleared {CString (cm_Name c) |c. c \<in> set cs \<and> \<not> now < expiry c}
      (tables (fst (collectCluster s now ?st c)))"
    using only_removes_cleared [OF collectCluster_removes [of now c UNIV ?st] snoc] by simp
  show ?case
  proof (cases "now < expiry c")
    case True
    then have "{CString (cm_Name d) |d. d \<in> set (cs @ [c]) \<and> \<not> now < expiry d} =
        {CString (cm_Name d) |d. d \<in> set cs \<and> \<not> now < expiry d}" by auto
    with keep show ?thesis by simp
  next
    case False
    then have "{CString (cm_Name d) |d. d \<in> set (cs @ [c]) \<and> \<not> now < expiry d} =
        insert (CString (cm_Name c)) {CString (cm_Name d) |d. d \<in> set cs \<and> \<not> now < expiry d}" by auto
    with cleared_insert [OF collectCluster_clears [OF False] keep] show ?thesis by simp
  qed
qed (simp add: cleared_def)

lemma collect_clears:
  assumes "gc_store gc = s"
  shows "cleared (expired_names now (tables (fst st))) (tables (fst (collect gc now st)))"
proof -
  obtain cs where cs: "s_ListStaleClusters s (fst st) now = Inr cs" using list_ok by blast
  from collectClusters_clears [of cs now st] listed [OF cs] show ?thesis
    by (simp add: collect_def assms cs)
qed

end

interpretation gcmem: reliable_store "gormStore mem_gorm" "\<lambda>db. db"
  by unfold_locales
    (simp_all add: gormStore_def mem_gorm_def DeleteObjectsForCluster_def DeleteResourceTypesForCluster_def
      DeleteCluster_def ListStaleClusters_def)

subsection \<open>Expiry\<close>

lemma expiry_wrap:
  "expiry c = cm_LastSeen c + ((sint (cm_TTL c) * 1000000000 + 2 ^ 63) mod 2 ^ 64 - 2 ^ 63)"
  by (simp add: expiry_def sint_word_ariths signed_take_bit_eq_take_bit_shift take_bit_eq_mod)

lemma expiry_exact:
  "0 \<le> sint (cm_TTL c) \<Longrightarrow> sint (cm_TTL c) \<le> 9223372036 \<Longrightarrow>
   expiry c = cm_LastSeen c + sint (cm_TTL c) * 1000000000"
  by (simp add: expiry_wrap)

lemma expiry_overflow:
  assumes "9223372036 < sint (cm_TTL c)" "sint (cm_TTL c) \<le> 18446744073"
  shows "expiry c < cm_LastSeen c"
proof -
  let ?p = "sint (cm_TTL c) * 1000000000"
  have "(?p + 2 ^ 63) mod 2 ^ 64 = ?p + 2 ^ 63 - 2 ^ 64"
    using assms minus_mod_self2 [of "?p + 2 ^ 63" "2 ^ 64"] mod_pos_pos_trivial [of "?p + 2 ^ 63 - 2 ^ 64" "2 ^ 64"]
    by simp
  with assms show ?thesis by (simp add: expiry_wrap)
qed

subsection \<open>An example\<close>

definition gone :: ClusterModel where
  "gone = \<lparr>cm_Name = ''east'', cm_Status = ''stale'', cm_LastSeen = 5, cm_EngagedAt = None, cm_Labels = None, cm_TTL = 10\<rparr>"

definition gc_tables :: "string \<Rightarrow> row list" where
  "gc_tables = (\<lambda>_. [])(clustersTable := [clusterRow gone], objectsTable := [objectRow example_object])"

abbreviation gc_example :: "(string \<Rightarrow> row list) GarbageCollector" where
  "gc_example \<equiv> NewGarbageCollector (gormStore mem_gorm) 60"

lemma gone_rows:
  "clusterRow gone ''name'' = CString ''east''" "clusterRow gone ''status'' = CString ''stale''"
  "clusterRow gone ''last_seen'' = CTime 5" "rowClusterModel (clusterRow gone) = gone"
  "objectRow example_object ''cluster'' = CString ''east''"
  by (simp_all add: clusterRow_def gone_def row_of_def rowClusterModel_def objectRow_def example_object_def
      col_string_def col_time_def col_json_def time_col_def json_col_def)

lemma gone_expiry: "expiry gone = 10000000005" "cm_Name gone = ''east''"
  by (simp_all add: expiry_exact gone_def)

lemma gone_expired:
  "expired_names 10000000005 gc_tables = {CString ''east''}" "expired_names 10000000004 gc_tables = {}"
  by (auto simp: expired_names_def expired_at_def gc_tables_def gone_rows gone_expiry older_def image_iff)

lemma gc_tables_rows:
  "gc_tables clustersTable = [clusterRow gone]" "gc_tables objectsTable = [objectRow example_object]"
  "gc_tables resourceTypesTable = []"
  by (simp_all add: gc_tables_def)

subsection \<open>Properties\<close>

text \<open>C15. A collection removes nothing but what belongs to an expired cluster: whichever
  calls fail, every table afterwards is the table before without some rows of clusters that
  were marked stale and whose time to live had run out; every other row is still there, in
  the same order.\<close>

theorem gc_only_expired:
  assumes "gorm_db g tables"
  shows "only_removes (expired_names now (tables db)) (tables db)
    (tables (fst (collect (NewGarbageCollector (gormStore g) i) now (db, n))))"
  using store_contract.collect_removes [OF gorm_db.contract [OF assms], of "NewGarbageCollector (gormStore g) i" now "(db, n)"]
  by (simp add: NewGarbageCollector_def)

theorem gc_only_expired_witness:
  "fst (collect gc_example 10000000004 (gc_tables, 3)) objectsTable = [objectRow example_object]"
  using gc_only_expired [OF mem.gorm_db_axioms, of 10000000004 gc_tables 60 3]
  by (simp add: gone_expired only_removes_def gc_tables_rows)

text \<open>C19. The collector never orphans a row: if every object and every resource type
  belongs to a recorded cluster, that is still so after any number of ticks, whichever of
  the store's calls fail, because a cluster's record goes only after its rows.\<close>

theorem gc_no_orphans:
  assumes "gorm_db g tables" and "no_orphans (tables db)"
  shows "no_orphans (tables (fst (RunGC (NewGarbageCollector (gormStore g) i) evs (db, n))))"
  using store_contract.RunGC_no_orphans [OF gorm_db.contract [OF assms(1)], of "NewGarbageCollector (gormStore g) i" "(db, n)" evs]
    assms(2)
  by (simp add: NewGarbageCollector_def)

theorem gc_no_orphans_witness:
  "no_orphans (fst (RunGC gc_example [Tick 10000000005, CtxDone, Tick 10000000006] (gc_tables, 3)))"
  by (rule gc_no_orphans [OF mem.gorm_db_axioms]) (simp add: no_orphans_def gc_tables_rows gone_rows)

text \<open>C20. The collector makes progress: when the store's deletions and its listing succeed,
  one pass leaves no object, no resource type and no record of a cluster that was stale and
  expired when the pass began.\<close>

theorem gc_collects_expired:
  assumes "reliable_store (gormStore g) tables"
  shows "cleared (expired_names now (tables db))
    (tables (fst (RunOnce (NewGarbageCollector (gormStore g) i) now (db, n))))"
  using reliable_store.collect_clears [OF assms, of "NewGarbageCollector (gormStore g) i" now "(db, n)"]
  by (simp add: NewGarbageCollector_def RunOnce_def)

theorem gc_collects_expired_witness:
  "objectRow example_object \<notin> set (fst (RunOnce gc_example 10000000005 (gc_tables, 3)) objectsTable) \<and>
   clusterRow gone \<notin> set (fst (RunOnce gc_example 10000000005 (gc_tables, 3)) clustersTable)"
  using gc_collects_expired [OF gcmem.reliable_store_axioms, of 10000000005 gc_tables 60 3]
    gone_rows(1, 5)
  unfolding gone_expired(1) cleared_def by blast

text \<open>C29. The range of a time to live, for a stale cluster that was last seen in the past: up to
  9223372036 seconds it expires when its last sighting is that long ago, and not before. The
  product with one second is taken modulo 2 to the 64: from 9223372037 to 18446744073 seconds it is
  negative and the cluster is expired at once; beyond, and in general, the cluster expires after the
  wrapped product, which is again positive for some values.\<close>

theorem gc_ttl_range:
  assumes "r ''status'' = CString ''stale''" and "r ''last_seen'' = CTime seen" and "seen < now"
    and "r ''ttl'' = CInt ttl"
  shows "(0 \<le> sint ttl \<and> sint ttl \<le> 9223372036 \<longrightarrow>
            (expired_at now r \<longleftrightarrow> seen + sint ttl * 1000000000 \<le> now))
       \<and> (9223372037 \<le> sint ttl \<and> sint ttl \<le> 18446744073 \<longrightarrow> expired_at now r)
       \<and> (expired_at now r \<longleftrightarrow> seen + ((sint ttl * 1000000000 + 2 ^ 63) mod 2 ^ 64 - 2 ^ 63) \<le> now)"
proof -
  have c: "cm_LastSeen (rowClusterModel r) = seen" "cm_TTL (rowClusterModel r) = ttl"
    using assms by (simp_all add: rowClusterModel_def col_time_def)
  have "expired_at now r \<longleftrightarrow> expiry (rowClusterModel r) \<le> now"
    using assms by (auto simp: expired_at_def older_def)
  then show ?thesis
    using assms expiry_exact [of "rowClusterModel r"] expiry_overflow [of "rowClusterModel r"] expiry_wrap [of "rowClusterModel r"]
    by (auto simp: c)
qed

theorem gc_ttl_range_witness:
  "expired_at 6 (clusterRow (gone\<lparr>cm_TTL := 10000000000\<rparr>)) \<and> \<not> expired_at 6 (clusterRow gone)
   \<and> \<not> expired_at 6 (clusterRow (gone\<lparr>cm_TTL := 20000000000\<rparr>))"
proof -
  have "expired_at 6 (clusterRow (gone\<lparr>cm_TTL := 10000000000\<rparr>))"
    by (rule gc_ttl_range [of _ 5 6 10000000000, THEN conjunct2, THEN conjunct1, rule_format])
      (simp_all add: clusterRow_def gone_def row_of_def)
  moreover have "expired_at 6 (clusterRow gone) \<longleftrightarrow> 5 + sint (10 :: int64) * 1000000000 \<le> (6 :: int)"
    by (rule gc_ttl_range [THEN conjunct1, rule_format]) (simp_all add: clusterRow_def gone_def row_of_def)
  moreover have "expired_at 6 (clusterRow (gone\<lparr>cm_TTL := 20000000000\<rparr>)) \<longleftrightarrow>
      5 + ((sint (20000000000 :: int64) * 1000000000 + 2 ^ 63) mod 2 ^ 64 - 2 ^ 63) \<le> (6 :: int)"
    by (rule gc_ttl_range [THEN conjunct2, THEN conjunct2]) (simp_all add: clusterRow_def gone_def row_of_def)
  ultimately show ?thesis by simp
qed

text \<open>The pass does not look at the record again before it deletes: whatever happened to
  the database between the listing and the deletions, the cluster's rows and its record go,
  also when it was engaged in the meantime.\<close>

theorem gc_races_engage:
  "ListStaleClusters mem_gorm gc_tables 10000000005 = Inr [gone]"
  "cleared {CString ''east''} (fst (collectCluster (gormStore mem_gorm) 10000000005 (db1, n) gone))"
  using gcmem.collectCluster_clears [of 10000000005 gone "(db1, n)"]
  by (simp_all add: ListStaleClusters_def mem_gorm_def gc_tables_rows gone_rows older_def gone_expiry)

end
