(* ===== verification/Sync_Kcp.thy ===== *)
theory Sync_Kcp
  imports Sync_Handler
begin

text \<open>
  \<open>internal/sync/kcp.go\<close>: identities of the resources that a kcp \<open>APIExport\<close> provides. The
  listing of the exports and the accessors \<open>NestedString\<close> and \<open>NestedSlice\<close> are
  parameters. \<open>updateResourceTypeIdentity\<close> takes an empty interface and asserts that it
  holds a store; \<open>any_value\<close> has the two dynamic types that occur. In the inner loop of
  \<open>RunKCPDiscovery\<close> the loop variable \<open>s\<close> shadows the parameter \<open>s\<close>, so the value that is
  passed on is the schema name.
\<close>

definition kcpAPIExportGVR :: GroupVersionResource where
  "kcpAPIExportGVR = \<lparr>gvr_Group = ''apis.kcp.io'', gvr_Version = ''v1alpha1'', gvr_Resource = ''apiexports''\<rparr>"

datatype any_value = IsStore | IsJson json

definition updateResourceTypeIdentity ::
  "'db gorm \<Rightarrow> 'db \<Rightarrow> any_value \<Rightarrow> string \<Rightarrow> string \<Rightarrow> string \<Rightarrow> string \<Rightarrow> 'db result" where
  "updateResourceTypeIdentity g db s clusterName apiGroup resource identity =
     (case s of
        IsStore \<Rightarrow>
          g_update g db resourceTypesTable ''cluster = ? AND api_group = ? AND resource = ?''
            [CString clusterName, CString apiGroup, CString resource] ''identity'' (CString identity)
      | IsJson _ \<Rightarrow> Inr db)"

text \<open>The library's accessors of nested fields: a value and whether it was found.\<close>

record nested_api =
  n_NestedString :: "object \<Rightarrow> string list \<Rightarrow> (string \<times> bool) result"
  n_NestedSlice :: "object \<Rightarrow> string list \<Rightarrow> (json list \<times> bool) result"

definition kcpSchema :: "'db gorm \<Rightarrow> string \<Rightarrow> string \<Rightarrow> 'db \<Rightarrow> json \<Rightarrow> 'db" where
  "kcpSchema g clusterName identity db s =
     (case s of
        JStr schemaName \<Rightarrow>
          (let parts = SplitN schemaName (CHR ''.'') 3
           in if length parts < 2 then db
              else let resource = parts ! 1; apiGroup = (if 3 \<le> length parts then parts ! 2 else [])
                   in (case updateResourceTypeIdentity g db (IsJson s) clusterName apiGroup resource identity of
                         Inl _ \<Rightarrow> db | Inr db' \<Rightarrow> db'))
      | _ \<Rightarrow> db)"

definition kcpExport :: "'db gorm \<Rightarrow> nested_api \<Rightarrow> string \<Rightarrow> 'db \<Rightarrow> object \<Rightarrow> 'db" where
  "kcpExport g n clusterName db export =
     (case n_NestedString n export [''status'', ''identityHash''] of
        Inl _ \<Rightarrow> db
      | Inr (identity, found) \<Rightarrow>
          if \<not> found \<or> identity = [] then db
          else (case n_NestedSlice n export [''spec'', ''latestResourceSchemas''] of
                  Inl _ \<Rightarrow> db
                | Inr (schemas, found) \<Rightarrow>
                    if \<not> found then db else foldl (kcpSchema g clusterName identity) db schemas))"

text \<open>\<open>RunKCPDiscovery\<close> never returns an error: a cluster without exports is skipped.\<close>

definition RunKCPDiscovery ::
  "'db gorm \<Rightarrow> nested_api \<Rightarrow> (GroupVersionResource \<Rightarrow> object list result) \<Rightarrow> string \<Rightarrow> 'db \<Rightarrow> 'db" where
  "RunKCPDiscovery g n list_exports clusterName db =
     (case list_exports kcpAPIExportGVR of
        Inl _ \<Rightarrow> db
      | Inr exports \<Rightarrow> foldl (kcpExport g n clusterName) db exports)"

record DiscoveredResourceWithIdentity =
  ri_Resource :: DiscoveredResource
  ri_Identity :: string

definition identityQuery :: string where
  "identityQuery = ''cluster = ? AND api_group = ? AND resource = ? AND identity != '' @ [sq, sq]"

definition GetIdentityForResource :: "'db gorm \<Rightarrow> 'db \<Rightarrow> string \<Rightarrow> string \<Rightarrow> string \<Rightarrow> string" where
  "GetIdentityForResource g db clusterName apiGroup resource =
     (case g_first g db resourceTypesTable identityQuery [CString clusterName, CString apiGroup, CString resource] of
        Inl _ \<Rightarrow> []
      | Inr r \<Rightarrow> col_string (r ''identity''))"

definition EnrichWithKCPIdentity ::
  "'db gorm \<Rightarrow> 'db \<Rightarrow> string \<Rightarrow> DiscoveredResource list \<Rightarrow> DiscoveredResourceWithIdentity list" where
  "EnrichWithKCPIdentity g db clusterName resources =
     map (\<lambda>res. \<lparr>ri_Resource = res,
        ri_Identity = (case g_first g db resourceTypesTable identityQuery
            [CString clusterName, CString (gvr_Group (dr_GVR res)), CString (gvr_Resource (dr_GVR res))] of
          Inl _ \<Rightarrow> [] | Inr r \<Rightarrow> col_string (r ''identity''))\<rparr>) resources"

text \<open>A \<open>RawMessage\<close> is the text of the value without the white space around it.\<close>

definition raw_value :: "string \<Rightarrow> string" where
  "raw_value s = rev (skip_ws (rev (skip_ws s)))"

definition ParseKCPRefsAnnotation :: "string gomap \<Rightarrow> string option" where
  "ParseKCPRefsAnnotation annotations =
     (case map_of annotations ''kuery.io/refs'' of
        None \<Rightarrow> None
      | Some val \<Rightarrow>
          if val = [] then None
          else (case Unmarshal val of None \<Rightarrow> None | Some _ \<Rightarrow> Some (raw_value val)))"

subsection \<open>The query for an identity\<close>

locale gorm_identity = gorm_db +
  assumes first_identity: "g_first g db t identityQuery vals = Inr r \<Longrightarrow>
    r \<in> set (tables db t) \<and> map r [''cluster'', ''api_group'', ''resource''] = vals \<and> r ''identity'' \<noteq> CString []"
begin

lemma identity_recorded:
  assumes "GetIdentityForResource g db cl gr res \<noteq> []"
  shows "\<exists>r \<in> set (tables db resourceTypesTable). map r [''cluster'', ''api_group'', ''resource''] =
    [CString cl, CString gr, CString res] \<and> r ''identity'' = CString (GetIdentityForResource g db cl gr res)"
proof -
  obtain r where r: "g_first g db resourceTypesTable identityQuery [CString cl, CString gr, CString res] = Inr r"
    using assms by (auto simp: GetIdentityForResource_def split: sum.splits)
  then have id: "GetIdentityForResource g db cl gr res = col_string (r ''identity'')"
    by (simp add: GetIdentityForResource_def)
  with assms have "r ''identity'' = CString (GetIdentityForResource g db cl gr res)"
    by (auto simp: col_string_def split: colval.splits)
  with first_identity [OF r] show ?thesis by (intro bexI [of _ r] conjI) simp_all
qed

end

text \<open>Tables in memory that answer this query too.\<close>

definition mem_kcp :: "(string \<Rightarrow> row list) gorm" where
  "mem_kcp = mem_gorm\<lparr>g_first := (\<lambda>db t wh vals.
     if wh = identityQuery then
       (case find (\<lambda>r. map r [''cluster'', ''api_group'', ''resource''] = vals \<and> r ''identity'' \<noteq> CString []) (db t) of
          None \<Rightarrow> Inl (ExternalError ''record not found'') | Some r \<Rightarrow> Inr r)
     else g_first mem_gorm db t wh vals)\<rparr>"

lemma eqs_last: "eqs cols = [] \<or> last (eqs cols) = CHR ''?''"
proof (induction cols)
  case (Cons c cols)
  show ?case
  proof (cases "cols = []")
    case False
    then have "eqs (c # cols) = (c @ '' = ?'') @ '' AND '' @ eqs cols" by (simp add: eqs_def Join_Cons)
    moreover have "eqs cols \<noteq> []" using False by (cases cols; cases "tl cols") (simp_all add: eqs_def)
    ultimately show ?thesis using Cons by simp
  qed (simp add: eqs_def)
qed (simp add: eqs_def)

lemma eqs_not_identity: "eqs cols \<noteq> identityQuery"
proof -
  have "identityQuery \<noteq> []" "last identityQuery \<noteq> CHR ''?''" by (simp_all add: identityQuery_def)
  with eqs_last [of cols] show ?thesis by metis
qed

interpretation kcp: gorm_identity mem_kcp "\<lambda>db. db"
proof unfold_locales
  fix db db' :: "string \<Rightarrow> row list" and t key upd r cols vals c v and s u rs
  show "g_create mem_kcp db t key upd r = Inr db' \<Longrightarrow> db' = db(t := upsert_rows key upd r (db t))"
    using mem.create [of db t key upd r db'] by (simp add: mem_kcp_def)
  show "g_delete mem_kcp db t (eqs cols) vals = Inr db' \<Longrightarrow> list_all plain_col cols \<Longrightarrow>
      db' = db(t := filter (\<lambda>r. map r cols \<noteq> vals) (db t))"
    using mem.delete [of db t cols vals db'] by (simp add: mem_kcp_def)
  show "g_update mem_kcp db t (eqs cols) vals c v = Inr db' \<Longrightarrow> list_all plain_col cols \<Longrightarrow>
      db' = db(t := map (\<lambda>r. if map r cols = vals then r(c := v) else r) (db t))"
    using mem.update [of db t cols vals c v db'] by (simp add: mem_kcp_def)
  show "g_first mem_kcp db t (eqs cols) vals = Inr r \<Longrightarrow> list_all plain_col cols \<Longrightarrow>
      r \<in> set (db t) \<and> map r cols = vals"
    using mem.first [of db t cols vals r] by (simp add: mem_kcp_def eqs_not_identity)
  show "g_find mem_kcp db t ''status = ? AND last_seen < ?'' [CString s, CTime u] = Inr rs \<Longrightarrow>
      set rs = {r \<in> set (db t). r ''status'' = CString s \<and> older ''last_seen'' u r}"
    using mem.stale [of db t s u rs] by (simp add: mem_kcp_def)
  show "g_first mem_kcp db t identityQuery vals = Inr r \<Longrightarrow>
      r \<in> set (db t) \<and> map r [''cluster'', ''api_group'', ''resource''] = vals \<and> r ''identity'' \<noteq> CString []"
    by (auto simp: mem_kcp_def find_Some_iff in_set_conv_nth split: option.splits)
qed

lemma RunKCPDiscovery_id: "RunKCPDiscovery g n list_exports cl db = db"
proof -
  have "foldl (kcpSchema g cl identity) db ss = db" for identity ss
    by (induction ss) (auto simp: kcpSchema_def updateResourceTypeIdentity_def Let_def split: json.split)
  then have "foldl (kcpExport g n cl) db es = db" for es
    by (induction es) (auto simp: kcpExport_def split: sum.split prod.split)
  then show ?thesis by (simp add: RunKCPDiscovery_def split: sum.split)
qed

subsection \<open>Properties\<close>

text \<open>The identity of an export never reaches the table: whatever the cluster exports,
  the kcp discovery leaves the database as it was, so after a discovery, which records every
  type with an empty identity, every lookup of an identity gives the empty one. The same
  update on the store itself would set the identity.\<close>

theorem kcp_identity_never_set:
  assumes "gorm_identity g tables" and "\<forall>r \<in> set (tables db resourceTypesTable). r ''identity'' = CString []"
  shows "RunKCPDiscovery g n list_exports cl db = db
    \<and> GetIdentityForResource g (RunKCPDiscovery g n list_exports cl db) cl gr res = []
    \<and> (updateResourceTypeIdentity g db IsStore cl gr res ident = Inr db' \<longrightarrow>
        tables db' resourceTypesTable = map (\<lambda>r. if map r [''cluster'', ''api_group'', ''resource''] =
          [CString cl, CString gr, CString res] then r(''identity'' := CString ident) else r) (tables db resourceTypesTable))"
proof -
  have "GetIdentityForResource g db cl gr res = []"
    using gorm_identity.identity_recorded [OF assms(1), of db cl gr res] assms(2)
    by (metis colval.inject(1))
  moreover have "tables db' = (tables db)(resourceTypesTable := map (\<lambda>r. if map r [''cluster'', ''api_group'', ''resource''] =
      [CString cl, CString gr, CString res] then r(''identity'' := CString ident) else r) (tables db resourceTypesTable))"
    if "updateResourceTypeIdentity g db IsStore cl gr res ident = Inr db'"
  proof (rule gorm_db.update [of g tables])
    show "gorm_db g tables" using assms(1) by (simp add: gorm_identity_def)
    have "eqs [''cluster'', ''api_group'', ''resource''] = ''cluster = ? AND api_group = ? AND resource = ?''" by code_simp
    with that show "g_update g db resourceTypesTable (eqs [''cluster'', ''api_group'', ''resource''])
        [CString cl, CString gr, CString res] ''identity'' (CString ident) = Inr db'"
      by (simp add: updateResourceTypeIdentity_def)
    show "list_all plain_col [''cluster'', ''api_group'', ''resource'']" by code_simp
  qed
  ultimately show ?thesis by (simp add: RunKCPDiscovery_id)
qed

theorem kcp_identity_never_set_witness:
  "GetIdentityForResource mem_kcp (RunKCPDiscovery mem_kcp
      \<lparr>n_NestedString = (\<lambda>_ _. Inr (''hash'', True)), n_NestedSlice = (\<lambda>_ _. Inr ([JStr ''v1.widgets.example.io''], True))\<rparr>
      (\<lambda>_. Inr [[]]) ''east'' (\<lambda>_. [])) ''east'' ''example.io'' ''widgets'' = []"
  by (rule kcp_identity_never_set [OF kcp.gorm_identity_axioms, THEN conjunct2, THEN conjunct1]) simp

end
