(* ===== verification/Sync_Controller.thy ===== *)
theory Sync_Controller
  imports Sync_Handler
begin

text \<open>
  \<open>internal/sync/controller.go\<close>: the controller that engages and disengages clusters. The
  mutex guards the map \<open>clusters\<close> in two short sections of \<open>Engage\<close> and one of
  \<open>Disengage\<close>; between them other calls may run. Each section, and the database and
  discovery work between two sections, is one definition, \<open>Engage\<close> and \<open>Disengage\<close> are
  their compositions, and \<open>sync_step\<close> interleaves them with each other, with informer events
  and with discovery refreshes. A context is a number; \<open>ss_started\<close> has the handlers of every
  context whose informers were started, \<open>ss_informers\<close> and \<open>ss_crdInformers\<close> the resources that the
  informers of its two factories watch, \<open>ss_cancelled\<close> the contexts that were cancelled.
  Events of a cancelled context that are still on their way are delivered too.
\<close>

definition second :: gotime where "second = 1000000000"

definition DefaultResyncPeriod :: int64 where
  "DefaultResyncPeriod = 10 * 60 * 1000000000"

record 'db SyncConfig =
  sy_Store :: "'db Store"
  sy_Blacklist :: "Blacklist option"
  sy_ResyncPeriod :: int64

record 'db SyncController =
  sc_Store :: "'db Store"
  sc_Blacklist :: Blacklist
  sc_ResyncPeriod :: int64

record 'db sync_state =
  ss_db :: 'db
  ss_clusters :: "string \<Rightarrow> nat option"
  ss_started :: "nat \<Rightarrow> (string \<times> EventHandler list) option"
  ss_informers :: "nat \<Rightarrow> GroupVersionResource list"
  ss_crdInformers :: "nat \<Rightarrow> GroupVersionResource list"
  ss_cancelled :: "nat set"
  ss_fresh :: nat

definition NewSyncController :: "'db SyncConfig \<Rightarrow> 'db SyncController" where
  "NewSyncController cfg =
     \<lparr>sc_Store = sy_Store cfg,
      sc_Blacklist = (case sy_Blacklist cfg of None \<Rightarrow> NewBlacklist DefaultBlacklist | Some b \<Rightarrow> b),
      sc_ResyncPeriod = (if sy_ResyncPeriod cfg = 0 then DefaultResyncPeriod else sy_ResyncPeriod cfg)\<rparr>"

definition initial_state :: "'db \<Rightarrow> 'db sync_state" where
  "initial_state db = \<lparr>ss_db = db, ss_clusters = (\<lambda>_. None), ss_started = (\<lambda>_. None),
     ss_informers = (\<lambda>_. []), ss_crdInformers = (\<lambda>_. []), ss_cancelled = {}, ss_fresh = 0\<rparr>"

text \<open>The outside world of one call of \<open>Engage\<close> and of the goroutines it starts: the clock, the
  outcome of creating the clients, the answer of discovery and of \<open>AddEventHandler\<close> in the two
  factories.\<close>

record engage_env =
  en_now :: gotime
  en_discoveryClient :: "kerror option"
  en_resources :: "APIResourceList option list \<times> kerror option"
  en_dynamicClient :: "kerror option"
  en_parseGV :: "string \<Rightarrow> (string \<times> string) result"
  en_addEventHandler :: "GroupVersionResource \<Rightarrow> kerror option"
  en_crdClient :: "kerror option"
  en_addCRDHandler :: "GroupVersionResource \<Rightarrow> kerror option"

text \<open>The locked section at the start of both operations.\<close>

definition dropCluster :: "string \<Rightarrow> 'db sync_state \<Rightarrow> 'db sync_state" where
  "dropCluster n st =
     (case ss_clusters st n of
        None \<Rightarrow> st
      | Some i \<Rightarrow> st\<lparr>ss_cancelled := insert i (ss_cancelled st), ss_clusters := (ss_clusters st)(n := None)\<rparr>)"

definition engageIO ::
  "'db SyncController \<Rightarrow> engage_env \<Rightarrow> string \<Rightarrow> 'db \<Rightarrow> 'db \<times> DiscoveredResource list result" where
  "engageIO sc env n db =
     (case s_UpsertCluster (sc_Store sc) db
             \<lparr>cm_Name = n, cm_Status = ''active'', cm_LastSeen = en_now env, cm_EngagedAt = Some (en_now env),
              cm_Labels = None, cm_TTL = 3600\<rparr> of
        Inl e \<Rightarrow> (db, Inl (Wrapped (''failed to upsert cluster '' @ n) e))
      | Inr db1 \<Rightarrow>
          (case en_discoveryClient env of
             Some e \<Rightarrow> (db1, Inl (Wrapped (''failed to create discovery client for '' @ n) e))
           | None \<Rightarrow>
               (case RunDiscovery (en_parseGV env) n (en_resources env) (sc_Store sc) (sc_Blacklist sc) db1 of
                  Inl e \<Rightarrow> (db1, Inl (Wrapped (''discovery failed for cluster '' @ n) e))
                | Inr (db2, watchable) \<Rightarrow>
                    (case en_dynamicClient env of
                       Some e \<Rightarrow> (db2, Inl (Wrapped (''failed to create dynamic client for '' @ n) e))
                     | None \<Rightarrow> (db2, Inr watchable)))))"

text \<open>\<open>runInformers\<close> asks the factory for an informer of each resource and registers one handler with
  it; a resource whose handler is refused has an informer all the same, and all are started.\<close>

definition runInformers ::
  "(GroupVersionResource \<Rightarrow> kerror option) \<Rightarrow> string \<Rightarrow> DiscoveredResource list \<Rightarrow> EventHandler list" where
  "runInformers addEventHandler n watchable =
     map (\<lambda>res. \<lparr>eh_ClusterName = n, eh_GVR = dr_GVR res, eh_Kind = dr_Kind res\<rparr>)
       (filter (\<lambda>res. addEventHandler (dr_GVR res) = None) watchable)"

text \<open>The informer that \<open>watchCRDs\<close> starts, for one resource whatever the blacklist says, unless its
  set-up fails.\<close>

definition crdGVR :: GroupVersionResource where
  "crdGVR = \<lparr>gvr_Group = ''apiextensions.k8s.io'', gvr_Version = ''v1'', gvr_Resource = ''customresourcedefinitions''\<rparr>"

definition crdInformers :: "engage_env \<Rightarrow> GroupVersionResource list" where
  "crdInformers env =
     (case en_crdClient env of
        Some _ \<Rightarrow> []
      | None \<Rightarrow> (case en_addCRDHandler env crdGVR of Some _ \<Rightarrow> [] | None \<Rightarrow> [crdGVR]))"

definition engageFinish ::
  "engage_env \<Rightarrow> string \<Rightarrow> DiscoveredResource list \<Rightarrow> 'db sync_state \<Rightarrow> 'db sync_state" where
  "engageFinish env n watchable st =
     (let clusterCtx = ss_fresh st
      in st\<lparr>ss_clusters := (ss_clusters st)(n \<mapsto> clusterCtx),
            ss_started := (ss_started st)(clusterCtx \<mapsto> (n, runInformers (en_addEventHandler env) n watchable)),
            ss_informers := (ss_informers st)(clusterCtx := map dr_GVR watchable),
            ss_crdInformers := (ss_crdInformers st)(clusterCtx := crdInformers env),
            ss_fresh := clusterCtx + 1\<rparr>)"

definition Engage ::
  "'db SyncController \<Rightarrow> engage_env \<Rightarrow> string \<Rightarrow> 'db sync_state \<Rightarrow> 'db sync_state \<times> kerror option" where
  "Engage sc env n st =
     (let st1 = dropCluster n st;
          (db, r) = engageIO sc env n (ss_db st1);
          st2 = st1\<lparr>ss_db := db\<rparr>
      in case r of Inl e \<Rightarrow> (st2, Some e) | Inr watchable \<Rightarrow> (engageFinish env n watchable st2, None))"

definition disengageMark :: "'db SyncController \<Rightarrow> gotime \<Rightarrow> string \<Rightarrow> 'db \<Rightarrow> 'db result" where
  "disengageMark sc now n db =
     s_UpsertCluster (sc_Store sc) db
       \<lparr>cm_Name = n, cm_Status = ''stale'', cm_LastSeen = now, cm_EngagedAt = None, cm_Labels = None, cm_TTL = 0\<rparr>"

definition Disengage ::
  "'db SyncController \<Rightarrow> gotime \<Rightarrow> string \<Rightarrow> 'db sync_state \<Rightarrow> 'db sync_state \<times> kerror option" where
  "Disengage sc now n st =
     (let st1 = dropCluster n st
      in case disengageMark sc now n (ss_db st1) of
           Inl e \<Rightarrow> (st1, Some e)
         | Inr db \<Rightarrow> (st1\<lparr>ss_db := db\<rparr>, None))"

subsection \<open>Refresh on changes of CRDs\<close>

text \<open>The closure \<open>refresh\<close> of \<open>watchCRDs\<close>: its variable \<open>lastRefresh\<close>, initially the zero
  time, and the database. The resources that the refresh discovers are dropped.\<close>

definition zeroTime :: gotime where "zeroTime = - 62135596800 * 1000000000"

definition crdRefresh ::
  "'db SyncController \<Rightarrow> engage_env \<Rightarrow> string \<Rightarrow> gotime \<times> 'db \<Rightarrow> gotime \<times> 'db" where
  "crdRefresh sc env n st =
     (let (lastRefresh, db) = st in
      if en_now env - lastRefresh < 30 * second then st
      else (en_now env,
        case RunDiscovery (en_parseGV env) n (en_resources env) (sc_Store sc) (sc_Blacklist sc) db of
          Inl _ \<Rightarrow> db | Inr (db', _) \<Rightarrow> db'))"

subsection \<open>Interleaving\<close>

datatype phase = Engaging string | Discovered string "DiscoveredResource list" | Disengaging string

primrec phase_cluster :: "phase \<Rightarrow> string" where
  "phase_cluster (Engaging n) = n"
| "phase_cluster (Discovered n ws) = n"
| "phase_cluster (Disengaging n) = n"

type_synonym procs = "nat \<Rightarrow> phase option"

definition quiet :: "procs \<Rightarrow> string \<Rightarrow> bool" where
  "quiet ps n \<longleftrightarrow> (\<forall>p a. ps p = Some a \<longrightarrow> phase_cluster a \<noteq> n)"

text \<open>With \<open>excl\<close> a call on a cluster starts only when no other call on that cluster is
  under way.\<close>

inductive sync_step ::
  "bool \<Rightarrow> k8s_api \<Rightarrow> 'db SyncController \<Rightarrow> 'db sync_state \<times> procs \<Rightarrow> 'db sync_state \<times> procs \<Rightarrow> bool"
  for excl k sc where
  engage_begin: "ps p = None \<Longrightarrow> excl \<longrightarrow> quiet ps n \<Longrightarrow>
    sync_step excl k sc (st, ps) (dropCluster n st, ps(p \<mapsto> Engaging n))"
| engage_fail: "ps p = Some (Engaging n) \<Longrightarrow> engageIO sc env n (ss_db st) = (db', Inl e) \<Longrightarrow>
    sync_step excl k sc (st, ps) (st\<lparr>ss_db := db'\<rparr>, ps(p := None))"
| engage_discover: "ps p = Some (Engaging n) \<Longrightarrow> engageIO sc env n (ss_db st) = (db', Inr ws) \<Longrightarrow>
    sync_step excl k sc (st, ps) (st\<lparr>ss_db := db'\<rparr>, ps(p \<mapsto> Discovered n ws))"
| engage_finish: "ps p = Some (Discovered n ws) \<Longrightarrow>
    sync_step excl k sc (st, ps) (engageFinish env n ws st, ps(p := None))"
| disengage_begin: "ps p = None \<Longrightarrow> excl \<longrightarrow> quiet ps n \<Longrightarrow>
    sync_step excl k sc (st, ps) (dropCluster n st, ps(p \<mapsto> Disengaging n))"
| disengage_mark: "ps p = Some (Disengaging n) \<Longrightarrow>
    sync_step excl k sc (st, ps) (st\<lparr>ss_db := attempt (ss_db st) (disengageMark sc now n (ss_db st))\<rparr>, ps(p := None))"
| deliver: "ss_started st i = Some (n, hs) \<Longrightarrow> h \<in> set hs \<Longrightarrow>
    sync_step excl k sc (st, ps) (st\<lparr>ss_db := handle k (sc_Store sc) (ss_db st) (h, ev)\<rparr>, ps)"
| refresh: "ss_started st i = Some (n, hs) \<Longrightarrow> ss_crdInformers st i \<noteq> [] \<Longrightarrow>
    sync_step excl k sc (st, ps) (st\<lparr>ss_db := snd (crdRefresh sc env n (lastRefresh, ss_db st))\<rparr>, ps)"

inductive sync_reachable ::
  "bool \<Rightarrow> k8s_api \<Rightarrow> 'db SyncController \<Rightarrow> 'db \<Rightarrow> 'db sync_state \<times> procs \<Rightarrow> bool"
  for excl k sc db where
  init: "sync_reachable excl k sc db (initial_state db, \<lambda>_. None)"
| step: "sync_reachable excl k sc db c \<Longrightarrow> sync_step excl k sc c c' \<Longrightarrow> sync_reachable excl k sc db c'"

definition running :: "'db sync_state \<Rightarrow> string \<Rightarrow> nat set" where
  "running st n = {i. (\<exists>hs. ss_started st i = Some (n, hs)) \<and> i \<notin> ss_cancelled st}"

subsection \<open>Every running context is registered\<close>

definition registered :: "'db sync_state \<Rightarrow> bool" where
  "registered st \<longleftrightarrow> (\<forall>n. running st n = set_option (ss_clusters st n)) \<and>
     (\<forall>i \<ge> ss_fresh st. ss_started st i = None \<and> i \<notin> ss_cancelled st)"

definition tracked :: "'db sync_state \<times> procs \<Rightarrow> bool" where
  "tracked c \<longleftrightarrow> registered (fst c) \<and>
     (\<forall>p a. snd c p = Some a \<longrightarrow> ss_clusters (fst c) (phase_cluster a) = None) \<and>
     (\<forall>p q a b. snd c p = Some a \<longrightarrow> snd c q = Some b \<longrightarrow> phase_cluster a = phase_cluster b \<longrightarrow> p = q)"

lemma running_db [simp]: "running (st\<lparr>ss_db := db\<rparr>) n = running st n"
  by (simp add: running_def)

lemma registered_db [simp]: "registered (st\<lparr>ss_db := db\<rparr>) = registered st"
  by (simp add: registered_def)

lemma dropCluster_clusters [simp]: "ss_clusters (dropCluster n st) = (ss_clusters st)(n := None)"
  by (auto simp: dropCluster_def fun_upd_idem split: option.split)

lemma running_disjoint: "i \<in> running st n \<Longrightarrow> i \<in> running st m \<Longrightarrow> n = m"
  by (auto simp: running_def)

lemma dropCluster_running:
  assumes "registered st"
  shows "running (dropCluster n st) m = (if m = n then {} else running st m)"
proof (cases "ss_clusters st n")
  case None
  then show ?thesis using assms by (auto simp: dropCluster_def registered_def)
next
  case (Some i)
  have n: "running st n = {i}" using assms Some by (simp add: registered_def)
  have "running (dropCluster n st) m = running st m - {i}"
    by (auto simp: running_def dropCluster_def Some)
  also have "\<dots> = (if m = n then {} else running st m)"
  proof (cases "m = n")
    case False
    with n running_disjoint [of i st n m] have "i \<notin> running st m" by auto
    with False show ?thesis by simp
  qed (simp add: n)
  finally show ?thesis .
qed

lemma dropCluster_registered: "registered st \<Longrightarrow> registered (dropCluster n st)"
proof -
  assume r: "registered st"
  have "ss_started (dropCluster n st) i = None \<and> i \<notin> ss_cancelled (dropCluster n st)" if i: "ss_fresh st \<le> i" for i
  proof (cases "ss_clusters st n")
    case (Some j)
    with r have "j \<in> running st n" by (simp add: registered_def)
    then have "ss_started st j \<noteq> None" by (auto simp: running_def)
    with r i have "j \<noteq> i" by (auto simp: registered_def)
    with r i Some show ?thesis by (simp add: registered_def dropCluster_def)
  qed (use r i in \<open>simp add: registered_def dropCluster_def\<close>)
  moreover have "ss_fresh (dropCluster n st) = ss_fresh st"
    by (simp add: dropCluster_def split: option.split)
  ultimately show "registered (dropCluster n st)"
    using r dropCluster_running [OF r] by (simp add: registered_def)
qed

lemma engageFinish_registered:
  assumes "registered st" "ss_clusters st n = None"
  shows "registered (engageFinish env n ws st)"
proof -
  let ?i = "ss_fresh st"
  have fresh: "ss_started st ?i = None" "?i \<notin> ss_cancelled st" using assms(1) by (simp_all add: registered_def)
  have "running (engageFinish env n ws st) m = (if m = n then insert ?i (running st n) else running st m)" for m
    using fresh by (auto simp: running_def engageFinish_def Let_def)
  with assms show ?thesis
    by (auto simp: registered_def engageFinish_def Let_def)
qed

lemma tracked_busy: "tracked (st, ps) \<Longrightarrow> ps p = Some a \<Longrightarrow> ss_clusters st (phase_cluster a) = None"
  by (simp add: tracked_def)

lemma tracked_step: "sync_step True k sc c c' \<Longrightarrow> tracked c \<Longrightarrow> tracked c'"
proof (induction rule: sync_step.induct)
  case (engage_begin ps p n st)
  then show ?case
    using dropCluster_registered [of st n] by (auto simp: tracked_def quiet_def)
next
  case (disengage_begin ps p n st)
  then show ?case
    using dropCluster_registered [of st n] by (auto simp: tracked_def quiet_def)
next
  case (engage_finish ps p n ws st env)
  then have "ss_clusters st n = None" using tracked_busy [of st ps p "Discovered n ws"] by simp
  moreover have "phase_cluster a \<noteq> n" if "ps q = Some a" "q \<noteq> p" for q a
    using that engage_finish unfolding tracked_def by (metis fst_conv phase_cluster.simps(2) snd_conv)
  ultimately show ?case
    using engage_finish engageFinish_registered [of st n env ws] by (auto simp: tracked_def engageFinish_def Let_def)
next
  case (engage_discover ps p n env st db' ws)
  then have "ss_clusters st n = None" using tracked_busy [of st ps p "Engaging n"] by simp
  moreover have "q = p" if "ps q = Some a" "phase_cluster a = n" for q a
    using that engage_discover unfolding tracked_def by (metis phase_cluster.simps(1) snd_conv)
  ultimately show ?case using engage_discover by (auto simp: tracked_def)
qed (auto simp: tracked_def)

lemma tracked_reachable: "sync_reachable True k sc db c \<Longrightarrow> tracked c"
proof (induction rule: sync_reachable.induct)
  case init
  show ?case by (simp add: tracked_def registered_def running_def initial_state_def)
next
  case (step c c')
  then show ?case by (blast intro: tracked_step)
qed

subsection \<open>The operations one after the other\<close>

lemma Engage_tracked: "registered st \<Longrightarrow> registered (fst (Engage sc env n st))"
  using dropCluster_registered [of st n]
  by (auto simp: Engage_def Let_def engageFinish_registered split: prod.split sum.split)

lemma Disengage_tracked: "registered st \<Longrightarrow> registered (fst (Disengage sc now n st))"
  using dropCluster_registered [of st n] by (auto simp: Disengage_def Let_def split: sum.split)

lemma Disengage_stops: "registered st \<Longrightarrow> running (fst (Disengage sc now n st)) n = {}"
  using dropCluster_running [of st n n] by (auto simp: Disengage_def Let_def split: sum.split)

subsection \<open>Nothing blacklisted is watched or stored\<close>

definition clean_handlers :: "Blacklist \<Rightarrow> EventHandler list \<Rightarrow> bool" where
  "clean_handlers bl hs \<longleftrightarrow> (\<forall>h \<in> set hs. \<not> IsBlacklisted bl (groupResource (eh_GVR h)))"

definition clean_resources :: "Blacklist \<Rightarrow> DiscoveredResource list \<Rightarrow> bool" where
  "clean_resources bl ws \<longleftrightarrow> (\<forall>w \<in> set ws. \<not> IsBlacklisted bl (groupResource (dr_GVR w)))"

definition clean_row :: "Blacklist \<Rightarrow> row \<Rightarrow> bool" where
  "clean_row bl r \<longleftrightarrow> (\<exists>gvr. r ''api_group'' = CString (gvr_Group gvr) \<and> r ''resource'' = CString (gvr_Resource gvr) \<and>
     \<not> IsBlacklisted bl (groupResource gvr))"

definition clean_state :: "Blacklist \<Rightarrow> (string \<Rightarrow> row list) \<Rightarrow> 'db sync_state \<times> procs \<Rightarrow> bool" where
  "clean_state bl ts c \<longleftrightarrow> (\<forall>r \<in> set (ts objectsTable). clean_row bl r) \<and>
     (\<forall>i n hs. ss_started (fst c) i = Some (n, hs) \<longrightarrow> clean_handlers bl hs) \<and>
     (\<forall>i. \<forall>gvr \<in> set (ss_informers (fst c) i). \<not> IsBlacklisted bl (groupResource gvr)) \<and>
     (\<forall>i. set (ss_crdInformers (fst c) i) \<subseteq> {crdGVR}) \<and>
     (\<forall>p n ws. snd c p = Some (Discovered n ws) \<longrightarrow> clean_resources bl ws)"

lemma crdInformers_only: "set (crdInformers env) \<subseteq> {crdGVR}"
  by (auto simp: crdInformers_def split: option.splits)

lemma runInformers_clean: "clean_resources bl ws \<Longrightarrow> clean_handlers bl (runInformers ae n ws)"
  by (auto simp: clean_resources_def clean_handlers_def runInformers_def)

lemma toObjectModel_row:
  assumes "toObjectModel k h u = Inr m"
  shows "objectRow m ''api_group'' = CString (gvr_Group (eh_GVR h))" "objectRow m ''resource'' = CString (gvr_Resource (eh_GVR h))"
  using assms by (auto simp: toObjectModel_def Let_def objectRow_def row_of_def split: sum.splits)

lemma upsert_rows_clean:
  assumes "toObjectModel k h u = Inr m" "\<not> IsBlacklisted bl (groupResource (eh_GVR h))"
    and "\<forall>r \<in> set rs. clean_row bl r" "x \<in> set (upsert_rows objectKey objectUpdates (objectRow m) rs)"
  shows "clean_row bl x"
proof -
  from assms(4) consider "x \<in> set rs" | "x = objectRow m"
    | y where "same_on objectKey (objectRow m) y" "x = assign objectUpdates (objectRow m) y"
    by (auto simp: upsert_rows_def split: if_splits)
  then show ?thesis
  proof cases
    case 3
    then have "x ''api_group'' = objectRow m ''api_group''" "x ''resource'' = objectRow m ''resource''"
      by (simp_all add: same_on_def objectKey_def assign_def objectUpdates_def)
    with assms(2) toObjectModel_row [OF assms(1)] show ?thesis unfolding clean_row_def by metis
  qed (use assms(2, 3) toObjectModel_row [OF assms(1)] in \<open>auto simp: clean_row_def\<close>)
qed

context store_contract begin

lemma handle_clean:
  assumes "\<not> IsBlacklisted bl (groupResource (eh_GVR h))" "\<forall>r \<in> set (tables db objectsTable). clean_row bl r"
  shows "\<forall>r \<in> set (tables (handle k s db (h, ev)) objectsTable). clean_row bl r"
proof -
  have up: "\<forall>r \<in> set (tables (upsert k s h db obj) objectsTable). clean_row bl r" for obj
  proof (cases "\<exists>u m db'. toUnstructured obj = Some u \<and> toObjectModel k h u = Inr m \<and> s_UpsertObject s db m = Inr db'")
    case True
    then obtain u m db' where um: "toUnstructured obj = Some u" "toObjectModel k h u = Inr m" "s_UpsertObject s db m = Inr db'"
      by blast
    then have "tables (upsert k s h db obj) objectsTable = upsert_rows objectKey objectUpdates (objectRow m) (tables db objectsTable)"
      by (simp add: upsert_def UpsertObject)
    with upsert_rows_clean [OF um(2) assms] show ?thesis by simp
  next
    case False
    then have "upsert k s h db obj = db" by (auto simp: upsert_def split: option.split sum.split)
    with assms(2) show ?thesis by simp
  qed
  have "set (tables (OnDelete k s h db obj) objectsTable) \<subseteq> set (tables db objectsTable)" for obj
    by (auto simp: OnDelete_def DeleteObject split: option.split sum.split)
  then have "\<forall>r \<in> set (tables (OnDelete k s h db obj) objectsTable). clean_row bl r" for obj
    using assms(2) by blast
  with up show ?thesis by (cases ev) (simp_all add: OnAdd_def OnUpdate_def)
qed

lemma discovery_clean:
  assumes "RunDiscovery parseGV n dc s bl db = Inr (db', ws)"
  shows "tables db' objectsTable = tables db objectsTable" "clean_resources bl ws"
proof -
  show "tables db' objectsTable = tables db objectsTable"
    using discovery_sound(1) [OF assms] by (auto simp: only_types_def)
  show "clean_resources bl ws"
    unfolding clean_resources_def
  proof
    fix w assume "w \<in> set ws"
    then obtain f where "f \<in> set (eligible parseGV bl (fst dc))" "w = found_resource f"
      using discovery_sound(3) [OF assms] by blast
    with eligible_plain(2) [of "fst f" "fst (snd f)" "snd (snd f)"] show "\<not> IsBlacklisted bl (groupResource (dr_GVR w))"
      by (simp add: discoveredOf_def groupResource_def)
  qed
qed

lemma engageIO_clean:
  assumes "sc_Store sc = s" "engageIO sc env n db = (db', r)"
  shows "tables db' objectsTable = tables db objectsTable" "r = Inr ws \<Longrightarrow> clean_resources (sc_Blacklist sc) ws"
  using assms(2) unfolding engageIO_def assms(1)
  by (auto simp: UpsertCluster discovery_clean(1) dest: discovery_clean(2) split: sum.splits option.splits)

lemma crdRefresh_clean:
  "sc_Store sc = s \<Longrightarrow> tables (snd (crdRefresh sc env n (l, db))) objectsTable = tables db objectsTable"
  by (auto simp: crdRefresh_def discovery_clean(1) split: sum.split)

lemma clean_step:
  assumes "sync_step excl k sc c c'" "sc_Store sc = s"
    and "clean_state (sc_Blacklist sc) (tables (ss_db (fst c))) c"
  shows "clean_state (sc_Blacklist sc) (tables (ss_db (fst c'))) c'"
  using assms
proof (induction rule: sync_step.induct)
  case (engage_fail ps p n env st db' e)
  then show ?case using engageIO_clean(1) [of sc env n "ss_db st"] by (auto simp: clean_state_def)
next
  case (engage_discover ps p n env st db' ws)
  then show ?case using engageIO_clean [of sc env n "ss_db st" db' "Inr ws"] by (auto simp: clean_state_def)
next
  case (engage_finish ps p n ws st env)
  then have "clean_resources (sc_Blacklist sc) ws" by (simp add: clean_state_def)
  with engage_finish crdInformers_only [of env] runInformers_clean show ?case
    by (auto simp: clean_state_def engageFinish_def Let_def clean_resources_def)
next
  case (disengage_mark ps p n st now)
  then show ?case
    by (auto simp: clean_state_def attempt_def disengageMark_def UpsertCluster split: sum.split)
next
  case (deliver st i n hs h ps ev)
  then have "\<not> IsBlacklisted (sc_Blacklist sc) (groupResource (eh_GVR h))"
    by (auto simp: clean_state_def clean_handlers_def)
  with deliver handle_clean [of "sc_Blacklist sc" h "ss_db st" k ev] show ?case by (auto simp: clean_state_def)
next
  case (refresh st i n hs ps env lastRefresh)
  then show ?case by (auto simp: clean_state_def crdRefresh_clean)
qed (auto simp: clean_state_def dropCluster_def split: option.split)

lemma clean_reachable:
  assumes "sync_reachable excl k sc db c" "sc_Store sc = s" "\<forall>r \<in> set (tables db objectsTable). clean_row (sc_Blacklist sc) r"
  shows "clean_state (sc_Blacklist sc) (tables (ss_db (fst c))) c"
  using assms
proof (induction rule: sync_reachable.induct)
  case init
  then show ?case by (simp add: clean_state_def initial_state_def)
next
  case (step c c')
  then show ?case using clean_step [OF step(2)] by simp
qed

end

subsection \<open>Properties\<close>

definition example_env :: engage_env where
  "example_env = \<lparr>en_now = 100, en_discoveryClient = None, en_resources = ([], None), en_dynamicClient = None,
     en_parseGV = example_parseGV, en_addEventHandler = (\<lambda>_. None), en_crdClient = None, en_addCRDHandler = (\<lambda>_. None)\<rparr>"

definition example_controller :: "(string \<Rightarrow> row list) SyncController" where
  "example_controller = NewSyncController \<lparr>sy_Store = gormStore mem_gorm, sy_Blacklist = None, sy_ResyncPeriod = 0\<rparr>"

lemma example_controller_simps [simp]:
  "sc_Store example_controller = gormStore mem_gorm"
  "sc_Blacklist example_controller = NewBlacklist DefaultBlacklist"
  by (simp_all add: example_controller_def NewSyncController_def)

abbreviation example_start :: "(string \<Rightarrow> row list) sync_state" where
  "example_start \<equiv> dropCluster ''east'' (initial_state (\<lambda>_. []))"

lemma example_engageIO: "\<exists>db'. engageIO example_controller example_env n db = (db', Inr [])"
  by (simp add: engageIO_def example_env_def RunDiscovery_def gormStore_def UpsertCluster_def
      DeleteResourceTypesForCluster_def mem_gorm_def)

text \<open>C11. Nothing blacklisted is ever stored: in every state that calls of \<open>Engage\<close> and
  \<open>Disengage\<close>, informer events and discovery refreshes can reach, in any interleaving and with any
  failures, no row of the object table is of a blacklisted group and resource, no event handler
  and no informer of the object factory is for a blacklisted resource. The only other informers are
  those of the CRD watcher, for custom resource definitions, whether these are blacklisted or not;
  their events refresh the discovery and store no object.\<close>

theorem blacklisted_never_stored:
  assumes "gorm_db g tables" and "sc_Store sc = gormStore g"
    and "\<forall>r \<in> set (tables db objectsTable). clean_row (sc_Blacklist sc) r"
    and "sync_reachable excl k sc db (st, ps)"
  shows "(\<forall>r \<in> set (tables (ss_db st) objectsTable). clean_row (sc_Blacklist sc) r)
    \<and> (\<forall>i n hs. ss_started st i = Some (n, hs) \<longrightarrow> clean_handlers (sc_Blacklist sc) hs)
    \<and> (\<forall>i. \<forall>gvr \<in> set (ss_informers st i). \<not> IsBlacklisted (sc_Blacklist sc) (groupResource gvr))
    \<and> (\<forall>i. set (ss_crdInformers st i) \<subseteq> {crdGVR})"
  using store_contract.clean_reachable [OF gorm_db.contract [OF assms(1)] assms(4, 2, 3)]
  by (simp add: clean_state_def)

theorem blacklisted_never_stored_witness:
  "\<exists>st ps. sync_reachable True example_api example_controller (\<lambda>_. []) (st, ps) \<and> ps 0 = Some (Engaging ''east'') \<and>
     (\<forall>r \<in> set (ss_db st objectsTable). clean_row (NewBlacklist DefaultBlacklist) r)"
proof -
  have r: "sync_reachable True example_api example_controller (\<lambda>_. [])
      (example_start, (\<lambda>_. None)(0 \<mapsto> Engaging ''east''))"
    by (rule sync_reachable.step [OF sync_reachable.init sync_step.engage_begin]) (simp_all add: quiet_def)
  from blacklisted_never_stored [OF mem.gorm_db_axioms example_controller_simps(1) _ r]
  have "\<forall>x \<in> set (ss_db example_start objectsTable). clean_row (NewBlacklist DefaultBlacklist) x"
    by simp
  with r show ?thesis by (intro exI [of _ example_start] exI [of _ "(\<lambda>_. None)(0 \<mapsto> Engaging ''east'')"]) simp
qed

text \<open>C21. No informer is leaked when calls on one cluster do not overlap: in every reachable
  state, also when calls on different clusters run at the same time, the contexts that run
  for a cluster are exactly the one registered for it, and while a \<open>Disengage\<close> of it is
  under way none is running.\<close>

theorem engaged_contexts_registered:
  assumes "sync_reachable True k sc db (st, ps)"
  shows "running st n = set_option (ss_clusters st n) \<and> (ps p = Some (Disengaging n) \<longrightarrow> running st n = {})"
proof -
  have t: "tracked (st, ps)" using assms by (rule tracked_reachable)
  then have "running st n = set_option (ss_clusters st n)" by (simp add: tracked_def registered_def)
  with tracked_busy [OF t, of p "Disengaging n"] show ?thesis by auto
qed

theorem engaged_contexts_registered_witness:
  "\<exists>st ps. sync_reachable True example_api example_controller (\<lambda>_. []) (st, ps) \<and>
     ps 0 = Some (Disengaging ''east'') \<and> running st ''east'' = {}"
proof -
  have r: "sync_reachable True example_api example_controller (\<lambda>_. [])
      (example_start, (\<lambda>_. None)(0 \<mapsto> Disengaging ''east''))"
    by (rule sync_reachable.step [OF sync_reachable.init sync_step.disengage_begin]) (simp_all add: quiet_def)
  from engaged_contexts_registered [OF r, of "''east''" 0]
  have "running example_start ''east'' = {}" by simp
  with r show ?thesis by (intro exI [of _ example_start] exI [of _ "(\<lambda>_. None)(0 \<mapsto> Disengaging ''east'')"]) simp
qed

text \<open>Two overlapping calls of \<open>Engage\<close> on one cluster leak an informer: there is a
  schedule after which every call has returned, the last one a \<open>Disengage\<close>, no context is
  registered for the cluster, and yet one is still running.\<close>

theorem engage_race_leaks:
  "\<exists>st. sync_reachable False example_api example_controller (\<lambda>_. []) (st, \<lambda>_. None) \<and>
     ss_clusters st ''east'' = None \<and> running st ''east'' = {0}"
proof -
  let ?R = "sync_reachable False example_api example_controller (\<lambda>_. [])"
  let ?e = "''east''" and ?s0 = "initial_state (\<lambda>_. [])"
  have 1: "?R (?s0, (\<lambda>_. None)(0 \<mapsto> Engaging ?e))"
    using sync_reachable.step [OF sync_reachable.init sync_step.engage_begin [of "\<lambda>_. None" 0 False ?e]]
    by (simp add: dropCluster_def initial_state_def)
  have 2: "?R (?s0, (\<lambda>_. None)(0 \<mapsto> Engaging ?e, 1 \<mapsto> Engaging ?e))"
    using sync_reachable.step [OF 1 sync_step.engage_begin [of _ 1 False ?e]]
    by (simp add: dropCluster_def initial_state_def)
  obtain d1 where "engageIO example_controller example_env ?e (ss_db ?s0) = (d1, Inr [])" using example_engageIO by blast
  from sync_reachable.step [OF 2 sync_step.engage_discover [OF _ this, of _ 0]]
  have 3: "?R (?s0\<lparr>ss_db := d1\<rparr>, (\<lambda>_. None)(0 \<mapsto> Discovered ?e [], 1 \<mapsto> Engaging ?e))" by (simp add: fun_upd_twist)
  obtain d2 where "engageIO example_controller example_env ?e (ss_db (?s0\<lparr>ss_db := d1\<rparr>)) = (d2, Inr [])"
    using example_engageIO by blast
  from sync_reachable.step [OF 3 sync_step.engage_discover [OF _ this, of _ 1]]
  have 4: "?R (?s0\<lparr>ss_db := d2\<rparr>, (\<lambda>_. None)(0 \<mapsto> Discovered ?e [], 1 \<mapsto> Discovered ?e []))" by simp
  let ?s5 = "engageFinish example_env ?e [] (?s0\<lparr>ss_db := d2\<rparr>)"
  have 5: "?R (?s5, (\<lambda>_. None)(1 \<mapsto> Discovered ?e []))"
    using sync_reachable.step [OF 4 sync_step.engage_finish [of _ 0 ?e "[]" False example_api example_controller _ example_env]]
    by (simp add: fun_upd_twist)
  let ?s6 = "engageFinish example_env ?e [] ?s5"
  have 6: "?R (?s6, \<lambda>_. None)"
    using sync_reachable.step [OF 5 sync_step.engage_finish [of _ 1 ?e "[]" False example_api example_controller _ example_env]]
    by simp
  have 7: "?R (dropCluster ?e ?s6, (\<lambda>_. None)(0 \<mapsto> Disengaging ?e))"
    using sync_reachable.step [OF 6 sync_step.disengage_begin [of _ 0 False ?e]] by simp
  let ?s8 = "(dropCluster ?e ?s6)\<lparr>ss_db := attempt (ss_db (dropCluster ?e ?s6))
      (disengageMark example_controller 200 ?e (ss_db (dropCluster ?e ?s6)))\<rparr>"
  have 8: "?R (?s8, \<lambda>_. None)"
    using sync_reachable.step [OF 7 sync_step.disengage_mark [of _ 0 ?e False example_api example_controller _ 200]] by simp
  have "ss_clusters ?s8 ?e = None" by simp
  moreover have "running ?s8 ?e = {0}"
    by (auto simp: running_def dropCluster_def engageFinish_def Let_def initial_state_def)
  ultimately show ?thesis using 8 by blast
qed

end
