(* ===== verification/Crd_Watch.thy ===== *)
theory Crd_Watch
  imports Sync_Controller "HOL-Library.Sublist"
begin

text \<open>
  The watcher of custom resource definitions in \<open>internal/sync/controller.go\<close>: \<open>watchCRDs\<close> and the
  handler that turns every notification into a debounced refresh of the discovery
  (\<open>crdRefresh\<close> of \<open>Sync_Controller\<close>).
\<close>

text \<open>The callback acts on its own state; every notification calls it once.\<close>

record 'st crdRefreshHandler =
  ch_refresh :: "'st \<Rightarrow> 'st"

datatype notification = NAdd interface bool | NUpdate interface interface | NDelete interface

definition crdOnAdd :: "'st crdRefreshHandler \<Rightarrow> interface \<Rightarrow> bool \<Rightarrow> 'st \<Rightarrow> 'st" where
  "crdOnAdd h obj isInInitialList st = ch_refresh h st"

definition crdOnUpdate :: "'st crdRefreshHandler \<Rightarrow> interface \<Rightarrow> interface \<Rightarrow> 'st \<Rightarrow> 'st" where
  "crdOnUpdate h oldObj newObj st = ch_refresh h st"

definition crdOnDelete :: "'st crdRefreshHandler \<Rightarrow> interface \<Rightarrow> 'st \<Rightarrow> 'st" where
  "crdOnDelete h obj st = ch_refresh h st"

primrec notify :: "'st crdRefreshHandler \<Rightarrow> notification \<Rightarrow> 'st \<Rightarrow> 'st" where
  "notify h (NAdd obj b) st = crdOnAdd h obj b st"
| "notify h (NUpdate old new) st = crdOnUpdate h old new st"
| "notify h (NDelete obj) st = crdOnDelete h obj st"

text \<open>The notifications that arrive before the context is done, each with the world at that time;
  \<open>env\<close> is the world in which the watcher is set up.\<close>

definition watchCRDs ::
  "'db SyncController \<Rightarrow> engage_env \<Rightarrow> string \<Rightarrow> (engage_env \<times> notification) list \<Rightarrow> 'db \<Rightarrow> 'db" where
  "watchCRDs sc env n evs db =
     (case en_crdClient env of
        Some _ \<Rightarrow> db
      | None \<Rightarrow>
          (case en_addCRDHandler env crdGVR of
             Some _ \<Rightarrow> db
           | None \<Rightarrow>
               snd (foldl (\<lambda>st (now, ev). notify \<lparr>ch_refresh = crdRefresh sc now n\<rparr> ev st) (zeroTime, db) evs)))"

subsection \<open>The runs of the discovery\<close>

text \<open>What one run of the discovery makes of the database; an error leaves it as it was.\<close>

definition rediscovered :: "'db SyncController \<Rightarrow> string \<Rightarrow> 'db \<Rightarrow> engage_env \<Rightarrow> 'db" where
  "rediscovered sc n db env =
     (case RunDiscovery (en_parseGV env) n (en_resources env) (sc_Store sc) (sc_Blacklist sc) db of
        Inl _ \<Rightarrow> db | Inr (db', _) \<Rightarrow> db')"

text \<open>Of a sequence of times, those that are thirty seconds after the last one taken.\<close>

fun spaced :: "gotime \<Rightarrow> engage_env list \<Rightarrow> engage_env list" where
  "spaced prev [] = []"
| "spaced prev (env # envs) =
     (if prev + 30 * second \<le> en_now env then env # spaced (en_now env) envs else spaced prev envs)"

lemma notify_refreshes: "notify h ev st = ch_refresh h st"
  by (cases ev) (simp_all add: crdOnAdd_def crdOnUpdate_def crdOnDelete_def)

lemma crdRefresh_eq:
  "crdRefresh sc env n (prev, db) =
     (if prev + 30 * second \<le> en_now env then (en_now env, rediscovered sc n db env) else (prev, db))"
  by (auto simp: crdRefresh_def rediscovered_def)

lemma refreshes_spaced:
  "snd (foldl (\<lambda>st (now, ev). notify \<lparr>ch_refresh = crdRefresh sc now n\<rparr> ev st) (prev, db) evs) =
     foldl (rediscovered sc n) db (spaced prev (map fst evs))"
  by (induction evs arbitrary: prev db) (auto simp: notify_refreshes crdRefresh_eq)

lemma watchCRDs_eq:
  "watchCRDs sc env n evs db =
     foldl (rediscovered sc n) db (if crdInformers env = [] then [] else spaced zeroTime (map fst evs))"
  by (simp add: watchCRDs_def crdInformers_def refreshes_spaced split: option.split)

lemma spaced_after: "env \<in> set (spaced prev envs) \<Longrightarrow> prev + 30 * second \<le> en_now env"
proof (induction envs arbitrary: prev)
  case (Cons e envs)
  show ?case using Cons.prems Cons.IH [of prev] Cons.IH [of "en_now e"] by (auto simp: second_def split: if_splits)
qed simp

lemma spaced_sorted: "sorted_wrt (\<lambda>a b. en_now a + 30 * second \<le> en_now b) (spaced prev envs)"
  by (induction envs arbitrary: prev) (auto dest: spaced_after)

lemma spaced_subseq: "subseq (spaced prev envs) envs"
  by (induction envs arbitrary: prev) auto

lemma spaced_cover:
  assumes "sorted_wrt (\<lambda>a b. en_now a \<le> en_now b) envs" "env \<in> set envs"
  shows "en_now env < prev + 30 * second \<or> (\<exists>t \<in> set (spaced prev envs). en_now t \<le> en_now env \<and> en_now env < en_now t + 30 * second)"
  using assms
proof (induction envs arbitrary: prev)
  case (Cons e envs)
  show ?case
  proof (cases "env = e")
    case True
    then show ?thesis by (simp add: second_def)
  next
    case False
    with Cons.prems have e: "env \<in> set envs" "sorted_wrt (\<lambda>a b. en_now a \<le> en_now b) envs" "en_now e \<le> en_now env" by auto
    show ?thesis using Cons.IH [OF e(2,1), of "en_now e"] Cons.IH [OF e(2,1), of prev] e(3) by auto
  qed
qed simp

context store_contract begin

lemma rediscovered_types: "sc_Store sc = s \<Longrightarrow> only_types n (tables db) (tables (foldl (rediscovered sc n) db envs))"
proof (induction envs arbitrary: db)
  case (Cons env envs)
  have "only_types n (tables db) (tables (rediscovered sc n db env))"
    using discovery_sound(1) Cons.prems by (auto simp: rediscovered_def split: sum.split)
  then show ?case unfolding foldl.simps by (rule only_types_trans [OF _ Cons.IH [OF Cons.prems]])
qed simp

end

subsection \<open>Properties\<close>

text \<open>C40. What the CRD watcher does: the database after it has run is the one that runs of the
  discovery make, one after the other, at some of the notifications in their order, of whatever kind
  they are. The runs are at least thirty seconds apart. When the set-up of the watcher succeeds, at
  every notification the last run is less than thirty seconds old; when it fails there is no
  run. Only the recorded types of the cluster change. The clock does not go back and is past the
  first half minute of the year one.\<close>

theorem crd_watch_refreshes:
  assumes "gorm_db g tables" and "sc_Store sc = gormStore g"
    and "sorted_wrt (\<lambda>a b. en_now a \<le> en_now b) (map fst evs)" and "\<forall>e \<in> fst ` set evs. zeroTime + 30 * second \<le> en_now e"
  shows "\<exists>runs. watchCRDs sc env n evs db = foldl (rediscovered sc n) db runs \<and> subseq runs (map fst evs) \<and>
    sorted_wrt (\<lambda>a b. en_now a + 30 * second \<le> en_now b) runs \<and>
    (if en_crdClient env = None \<and> en_addCRDHandler env crdGVR = None
     then \<forall>e \<in> fst ` set evs. \<exists>t \<in> set runs. en_now t \<le> en_now e \<and> en_now e < en_now t + 30 * second
     else runs = []) \<and>
    only_types n (tables db) (tables (watchCRDs sc env n evs db))"
proof -
  let ?runs = "if crdInformers env = [] then [] else spaced zeroTime (map fst evs)"
  have set_up: "crdInformers env = [] \<longleftrightarrow> \<not> (en_crdClient env = None \<and> en_addCRDHandler env crdGVR = None)"
    by (simp add: crdInformers_def split: option.split)
  have "\<exists>t \<in> set (spaced zeroTime (map fst evs)). en_now t \<le> en_now e \<and> en_now e < en_now t + 30 * second"
    if e: "e \<in> fst ` set evs" for e
    using spaced_cover [OF assms(3), of e zeroTime] assms(4) e by auto
  moreover have "only_types n (tables db) (tables (watchCRDs sc env n evs db))"
    unfolding watchCRDs_eq by (rule store_contract.rediscovered_types [OF gorm_db.contract [OF assms(1)] assms(2)])
  ultimately show ?thesis
    using watchCRDs_eq [of sc env n evs db] set_up spaced_sorted [of zeroTime "map fst evs"] spaced_subseq [of zeroTime "map fst evs"]
    by (intro exI [of _ ?runs]) auto
qed

theorem crd_watch_refreshes_witness:
  "watchCRDs example_controller example_env ''east'' [(example_env, NDelete OtherType)] (\<lambda>_. []) =
     rediscovered example_controller ''east'' (\<lambda>_. []) example_env"
proof -
  let ?evs = "[(example_env, NDelete OtherType)]"
  have past: "\<forall>e \<in> fst ` set ?evs. zeroTime + 30 * second \<le> en_now e"
    by (simp add: example_env_def zeroTime_def second_def)
  have set_up: "en_crdClient example_env = None" "en_addCRDHandler example_env crdGVR = None" by (simp_all add: example_env_def)
  have "\<exists>runs. watchCRDs example_controller example_env ''east'' ?evs (\<lambda>_. []) =
      foldl (rediscovered example_controller ''east'') (\<lambda>_. []) runs \<and> subseq runs (map fst ?evs) \<and> runs \<noteq> []"
    by (rule ex_forward [OF crd_watch_refreshes [OF mem.gorm_db_axioms example_controller_simps(1) _ past, of example_env "''east''" "\<lambda>_. []"]])
      (auto simp: set_up)
  then obtain runs where runs: "watchCRDs example_controller example_env ''east'' ?evs (\<lambda>_. []) =
      foldl (rediscovered example_controller ''east'') (\<lambda>_. []) runs" "subseq runs [example_env]" "runs \<noteq> []" by auto
  from this(2,3) have "runs = [example_env]" by (cases runs) (auto split: if_splits)
  with runs(1) show ?thesis by simp
qed

end
