(* ===== verification/Query_Metrics.thy ===== *)
theory Query_Metrics
  imports Complex_Main Query_Engine Garbage_Collector
begin

text \<open>
  \<open>internal/metrics/metrics.go\<close> and what the engine and the collector report through it. The
  Prometheus client is a parameter: its calls take and return the state of the registry and may
  panic. What the code relies on is the locale \<open>prometheus_client\<close>: collectors with new names can
  be registered, and a call with one value for each label changes one series.
\<close>

subsection \<open>The collectors\<close>

datatype collector_kind = HistogramVec rat rat nat | CounterVec | GaugeVec

record Collector =
  co_kind :: collector_kind
  co_Namespace :: string
  co_Name :: string
  co_Help :: string
  co_labels :: "string list"

text \<open>The arguments of a histogram are those of \<open>ExponentialBuckets\<close>.\<close>

definition QueryDuration :: Collector where
  "QueryDuration = \<lparr>co_kind = HistogramVec (1 / 1000) 2 15, co_Namespace = ''kuery'', co_Name = ''query_duration_seconds'',
     co_Help = ''Histogram of query execution duration in seconds.'', co_labels = [''has_relations'', ''incomplete'']\<rparr>"

definition QueryErrors :: Collector where
  "QueryErrors = \<lparr>co_kind = CounterVec, co_Namespace = ''kuery'', co_Name = ''query_errors_total'',
     co_Help = ''Total number of query errors by type.'', co_labels = [''error_type'']\<rparr>"

definition ObjectsTotal :: Collector where
  "ObjectsTotal = \<lparr>co_kind = GaugeVec, co_Namespace = ''kuery'', co_Name = ''objects_total'',
     co_Help = ''Total number of synced objects per cluster.'', co_labels = [''cluster'']\<rparr>"

definition ClustersTotal :: Collector where
  "ClustersTotal = \<lparr>co_kind = GaugeVec, co_Namespace = ''kuery'', co_Name = ''clusters_total'',
     co_Help = ''Total number of clusters by status.'', co_labels = [''status'']\<rparr>"

definition SyncLag :: Collector where
  "SyncLag = \<lparr>co_kind = GaugeVec, co_Namespace = ''kuery'', co_Name = ''sync_lag_seconds'',
     co_Help = ''Seconds since last sync event per cluster.'', co_labels = [''cluster'']\<rparr>"

record 'r prometheus =
  pm_MustRegister :: "'r \<Rightarrow> Collector list \<Rightarrow> 'r result"
  pm_Inc :: "'r \<Rightarrow> Collector \<Rightarrow> string list \<Rightarrow> 'r result"
  pm_Dec :: "'r \<Rightarrow> Collector \<Rightarrow> string list \<Rightarrow> 'r result"
  pm_Observe :: "'r \<Rightarrow> Collector \<Rightarrow> string list \<Rightarrow> gotime \<Rightarrow> 'r result"

definition initMetrics :: "'r prometheus \<Rightarrow> 'r \<Rightarrow> 'r result" where
  "initMetrics pm r = pm_MustRegister pm r [QueryDuration, QueryErrors, ObjectsTotal, ClustersTotal, SyncLag]"

subsection \<open>The instrumented engine\<close>

definition FormatBool :: "bool \<Rightarrow> string" where
  "FormatBool b = (if b then ''true'' else ''false'')"

text \<open>\<open>metrics.QueryErrors.WithLabelValues(label).Inc()\<close> and the return of the error. A panic of
  the client leaves the registry as it was.\<close>

definition failQuery :: "'r prometheus \<Rightarrow> string \<Rightarrow> kerror \<Rightarrow> 'r \<Rightarrow> 'r \<times> 'a result" where
  "failQuery pm label err r =
     (case pm_Inc pm r QueryErrors [label] of Inl p \<Rightarrow> (r, Inl p) | Inr r' \<Rightarrow> (r', Inl err))"

text \<open>\<open>Execute\<close> with its metrics: \<open>start\<close> and \<open>end\<close> are the readings of the clock.\<close>

definition ExecuteMetered ::
  "'r prometheus \<Rightarrow> Engine \<Rightarrow> gotime \<times> gotime \<Rightarrow> QuerySpec \<Rightarrow> 'r \<Rightarrow> 'r \<times> (QuerySpec \<times> QueryStatus) result" where
  "ExecuteMetered pm e clock spec r =
     (case Validate spec of
        Inl err \<Rightarrow> failQuery pm ''validation'' (Wrapped ''validation'' err) r
      | Inr spec \<Rightarrow>
          (case Generate (eng_generator e) spec of
             Inl err \<Rightarrow> failQuery pm ''generation'' (Wrapped ''sql generation'' err) r
           | Inr gen \<Rightarrow>
               (case db_rows (eng_store e) (gq_SQL gen) (gq_Args gen) of
                  Inl err \<Rightarrow> failQuery pm ''execution'' (Wrapped ''query execution'' err) r
                | Inr rows \<Rightarrow>
                    (case (if gq_HasRelations gen then executeWithRelations e rows spec gen
                           else executeFlat e rows spec gen) of
                       Inl err \<Rightarrow> failQuery pm ''assembly'' err r
                     | Inr status \<Rightarrow>
                         (case pm_Observe pm r QueryDuration [FormatBool (gq_HasRelations gen), FormatBool (st_Incomplete status)]
                                 (snd clock - fst clock) of
                            Inl p \<Rightarrow> (r, Inl p)
                          | Inr r' \<Rightarrow> (r', Inr (spec, status)))))))"

text \<open>A server answers one query after the other.\<close>

fun serve :: "'r prometheus \<Rightarrow> Engine \<Rightarrow> ((gotime \<times> gotime) \<times> QuerySpec) list \<Rightarrow> 'r \<Rightarrow> 'r" where
  "serve pm e [] r = r"
| "serve pm e ((clock, spec) # qs) r = serve pm e qs (fst (ExecuteMetered pm e clock spec r))"

subsection \<open>The client\<close>

type_synonym samples = "Collector \<Rightarrow> string list \<Rightarrow> int"

definition bump :: "int \<Rightarrow> Collector \<Rightarrow> string list \<Rightarrow> samples \<Rightarrow> samples" where
  "bump d c vs s = s(c := (s c)(vs := s c vs + d))"

abbreviation fqName :: "Collector \<Rightarrow> string" where
  "fqName c \<equiv> co_Namespace c @ CHR ''_'' # co_Name c"

text \<open>\<open>sample\<close> is the value of a counter or gauge, and the number of observations of a histogram.\<close>

locale prometheus_client =
  fixes pm :: "'r prometheus" and registered :: "'r \<Rightarrow> Collector list" and sample :: "'r \<Rightarrow> samples"
  assumes MustRegister: "distinct (map fqName (registered r @ cs)) \<Longrightarrow>
      \<exists>r'. pm_MustRegister pm r cs = Inr r' \<and> registered r' = registered r @ cs \<and> sample r' = sample r"
    and Inc: "length vs = length (co_labels c) \<Longrightarrow>
      \<exists>r'. pm_Inc pm r c vs = Inr r' \<and> registered r' = registered r \<and> sample r' = bump 1 c vs (sample r)"
    and Dec: "length vs = length (co_labels c) \<Longrightarrow>
      \<exists>r'. pm_Dec pm r c vs = Inr r' \<and> registered r' = registered r \<and> sample r' = bump (-1) c vs (sample r)"
    and Observe: "length vs = length (co_labels c) \<Longrightarrow>
      \<exists>r'. pm_Observe pm r c vs d = Inr r' \<and> registered r' = registered r \<and> sample r' = bump 1 c vs (sample r)"

text \<open>The series that a call of \<open>Execute\<close> should change, from its answer alone.\<close>

definition stage_label :: "kerror \<Rightarrow> string" where
  "stage_label err = (case err of
     Wrapped stage _ \<Rightarrow>
       if stage = ''validation'' then ''validation'' else if stage = ''sql generation'' then ''generation''
       else if stage = ''query execution'' then ''execution'' else ''assembly''
   | _ \<Rightarrow> ''assembly'')"

definition query_series :: "(QuerySpec \<times> QueryStatus) result \<Rightarrow> Collector \<times> string list" where
  "query_series res = (case res of
     Inl err \<Rightarrow> (QueryErrors, [stage_label err])
   | Inr (spec, status) \<Rightarrow>
       (QueryDuration, [FormatBool (relationsOf (qs_Objects spec) \<noteq> []), FormatBool (st_Incomplete status)]))"

context prometheus_client begin

lemma failQuery_counts:
  assumes "stage_label err = label"
  shows "\<exists>r'. failQuery pm label err r = (r', Inl err) \<and>
    sample r' = bump 1 (fst (query_series (Inl err))) (snd (query_series (Inl err))) (sample r)"
  using Inc [of "[label]" QueryErrors r] assms
  by (auto simp: failQuery_def query_series_def QueryErrors_def)

lemma ExecuteMetered_counts:
  "\<exists>r'. ExecuteMetered pm e clock spec r = (r', Execute e spec) \<and>
     sample r' = bump 1 (fst (query_series (Execute e spec))) (snd (query_series (Execute e spec))) (sample r)"
proof (cases "Validate spec")
  case (Inl err)
  with failQuery_counts [of "Wrapped ''validation'' err" "''validation''" r] show ?thesis
    by (simp add: ExecuteMetered_def Execute_def wrap_def stage_label_def)
next
  case v: (Inr spec')
  show ?thesis
  proof (cases "Generate (eng_generator e) spec'")
    case (Inl err)
    with v failQuery_counts [of "Wrapped ''sql generation'' err" "''generation''" r] show ?thesis
      by (simp add: ExecuteMetered_def Execute_def wrap_def stage_label_def)
  next
    case g: (Inr gen)
    show ?thesis
    proof (cases "db_rows (eng_store e) (gq_SQL gen) (gq_Args gen)")
      case (Inl err)
      with v g failQuery_counts [of "Wrapped ''query execution'' err" "''execution''" r] show ?thesis
        by (simp add: ExecuteMetered_def Execute_def wrap_def stage_label_def)
    next
      case d: (Inr rows)
      let ?run = "if gq_HasRelations gen then executeWithRelations e rows spec' gen else executeFlat e rows spec' gen"
      have x: "Execute e spec = andthen ?run (\<lambda>status. Inr (spec', status))" using v g d by (simp add: Execute_def wrap_def)
      show ?thesis
      proof (cases ?run)
        case (Inl err)
        have "qs_Limit spec' \<noteq> 0" using v valid_limit_nonzero Validate_valid by blast
        from execute_errors [OF this, of e rows gen err] Inl have "\<exists>e'. err = Wrapped ''scanning results'' e' \<or> err = Wrapped ''count query'' e'"
          by (auto split: if_splits)
        then have "stage_label err = ''assembly''" by (auto simp: stage_label_def)
        from failQuery_counts [OF this] Inl v g d show ?thesis by (simp add: ExecuteMetered_def x)
      next
        case (Inr status)
        have "gq_HasRelations gen = (relationsOf (qs_Objects spec') \<noteq> [])" using g by (rule Generate_flag)
        with Inr v g d Observe [of "[FormatBool (gq_HasRelations gen), FormatBool (st_Incomplete status)]" QueryDuration r "snd clock - fst clock"]
        show ?thesis by (auto simp: ExecuteMetered_def x query_series_def QueryDuration_def)
      qed
    qed
  qed
qed

end

subsection \<open>A client in memory\<close>

record mem_registry =
  mr_registered :: "Collector list"
  mr_samples :: samples

definition mem_change :: "int \<Rightarrow> mem_registry \<Rightarrow> Collector \<Rightarrow> string list \<Rightarrow> mem_registry result" where
  "mem_change d r c vs =
     (if length vs = length (co_labels c) then Inr (r\<lparr>mr_samples := bump d c vs (mr_samples r)\<rparr>)
      else Inl (Panic ''inconsistent label cardinality''))"

definition mem_prometheus :: "mem_registry prometheus" where
  "mem_prometheus = \<lparr>
     pm_MustRegister = (\<lambda>r cs. if distinct (map fqName (mr_registered r @ cs))
       then Inr (r\<lparr>mr_registered := mr_registered r @ cs\<rparr>) else Inl (Panic ''duplicate metrics collector registration'')),
     pm_Inc = mem_change 1, pm_Dec = mem_change (-1), pm_Observe = (\<lambda>r c vs d. mem_change 1 r c vs)\<rparr>"

interpretation mem_client: prometheus_client mem_prometheus mr_registered mr_samples
  by unfold_locales (simp_all add: mem_prometheus_def mem_change_def)

definition no_metrics :: mem_registry where
  "no_metrics = \<lparr>mr_registered = [], mr_samples = (\<lambda>_ _. 0)\<rparr>"

subsection \<open>Properties\<close>

text \<open>C18. The metrics observe and do not interfere: with its metrics \<open>Execute\<close> returns what it
  returns without them, no call of the client panics, and exactly one series changes, by one:
  for an error the counter of the stage that failed, for an answer the histogram with the labels
  that say whether the query had relations and whether the answer is incomplete. The stages are
  validation, generation, execution and, for a failed scan or count query, assembly; the README
  lists the first three only.\<close>

theorem metered_query_counted:
  assumes "prometheus_client pm registered sample"
  shows "snd (ExecuteMetered pm e clock spec r) = Execute e spec \<and>
    sample (fst (ExecuteMetered pm e clock spec r)) = (case query_series (Execute e spec) of (c, vs) \<Rightarrow> bump 1 c vs (sample r))"
proof -
  from prometheus_client.ExecuteMetered_counts [OF assms, of e clock spec r] obtain r' where
    "ExecuteMetered pm e clock spec r = (r', Execute e spec)"
    "sample r' = bump 1 (fst (query_series (Execute e spec))) (snd (query_series (Execute e spec))) (sample r)" by blast
  then show ?thesis by (simp add: split_beta)
qed

theorem metered_query_counted_witness:
  "mr_samples (fst (ExecuteMetered mem_prometheus (example_engine []) (3, 5) (zero_QuerySpec\<lparr>qs_Limit := 20000\<rparr>) no_metrics))
     QueryErrors [''validation''] = 1"
proof -
  have "Execute (example_engine []) (zero_QuerySpec\<lparr>qs_Limit := 20000\<rparr>) = Inl (Wrapped ''validation'' (LimitExceeds 20000))"
    by (simp add: Execute_def Validate_eq zero_QuerySpec_def wrap_def)
  with metered_query_counted [OF mem_client.prometheus_client_axioms, of "example_engine []" "(3, 5)"
      "zero_QuerySpec\<lparr>qs_Limit := 20000\<rparr>" no_metrics]
  show ?thesis by (simp add: query_series_def stage_label_def bump_def no_metrics_def)
qed

text \<open>The number of queries that the series account for.\<close>

definition query_total :: "samples \<Rightarrow> int" where
  "query_total s =
     (\<Sum>l \<leftarrow> [''validation'', ''generation'', ''execution'', ''assembly'']. s QueryErrors [l]) +
     (\<Sum>p \<leftarrow> [(False, False), (False, True), (True, False), (True, True)]. s QueryDuration [FormatBool (fst p), FormatBool (snd p)])"

lemma collectors_distinct: "QueryErrors \<noteq> QueryDuration" "c \<in> {ObjectsTotal, ClustersTotal, SyncLag} \<Longrightarrow> c \<notin> {QueryErrors, QueryDuration}"
  by (auto simp: QueryErrors_def QueryDuration_def ObjectsTotal_def ClustersTotal_def SyncLag_def)

lemma stage_label_cases: "stage_label err \<in> {''validation'', ''generation'', ''execution'', ''assembly''}"
  by (auto simp: stage_label_def split: kerror.split)

lemma query_total_bump: "query_total (bump 1 (fst (query_series res)) (snd (query_series res)) s) = query_total s + 1"
proof (cases res)
  case (Inl err)
  with stage_label_cases [of err] show ?thesis
    by (elim insertE emptyE) (simp_all add: query_series_def query_total_def bump_def collectors_distinct(1) [symmetric])
next
  case (Inr p)
  then show ?thesis
    by (cases p) (auto simp: query_series_def query_total_def bump_def collectors_distinct(1) FormatBool_def)
qed

text \<open>C39. The books balance: over any sequence of queries the four error counters and the four
  series of the histogram grow together by the number of queries, so no query is lost and none
  is counted twice, and the gauges do not move.\<close>

theorem serve_counts_all:
  assumes "prometheus_client pm registered sample"
  shows "query_total (sample (serve pm e qs r)) = query_total (sample r) + int (length qs) \<and>
    (\<forall>c \<in> {ObjectsTotal, ClustersTotal, SyncLag}. sample (serve pm e qs r) c = sample r c)"
proof (induction qs arbitrary: r)
  case Nil
  then show ?case by simp
next
  case (Cons q qs)
  obtain clock spec where q: "q = (clock, spec)" by (cases q)
  obtain r' where r': "fst (ExecuteMetered pm e clock spec r) = r'"
    "sample r' = bump 1 (fst (query_series (Execute e spec))) (snd (query_series (Execute e spec))) (sample r)"
    using prometheus_client.ExecuteMetered_counts [OF assms, of e clock spec r] by force
  have "fst (query_series (Execute e spec)) \<in> {QueryErrors, QueryDuration}"
    by (auto simp: query_series_def split: sum.split prod.split)
  then have "sample r' c = sample r c" if "c \<in> {ObjectsTotal, ClustersTotal, SyncLag}" for c
    using collectors_distinct(2) [OF that] by (auto simp: r'(2) bump_def)
  with Cons.IH [of r'] query_total_bump [of "Execute e spec" "sample r"] show ?case
    by (auto simp: q r')
qed

theorem serve_counts_all_witness:
  "query_total (mr_samples (serve mem_prometheus (example_engine [])
     [((0, 1), zero_QuerySpec), ((1, 2), zero_QuerySpec\<lparr>qs_Limit := 20000\<rparr>)] no_metrics)) = 2"
  using serve_counts_all [OF mem_client.prometheus_client_axioms, of "example_engine []"
      "[((0, 1), zero_QuerySpec), ((1, 2), zero_QuerySpec\<lparr>qs_Limit := 20000\<rparr>)]" no_metrics]
  by (simp add: query_total_def no_metrics_def)

text \<open>The registration at start-up does not panic: the names are new and distinct.\<close>

lemma initMetrics_registers:
  assumes "prometheus_client pm registered sample" "registered r = []"
  shows "\<exists>r'. initMetrics pm r = Inr r' \<and>
    registered r' = [QueryDuration, QueryErrors, ObjectsTotal, ClustersTotal, SyncLag]"
  using prometheus_client.MustRegister [OF assms(1), of r "[QueryDuration, QueryErrors, ObjectsTotal, ClustersTotal, SyncLag]"] assms(2)
  by (auto simp: initMetrics_def QueryDuration_def QueryErrors_def ObjectsTotal_def ClustersTotal_def SyncLag_def)

text \<open>The gauge of stale clusters is only ever decremented, so it never shows how many there are:
  after the passes of a collector it is the negative of the number of clusters removed.\<close>

lemma collectCluster_gauge: "snd (collectCluster s now st c) \<le> snd st"
  by (auto simp: collectCluster_def split: prod.split sum.split)

lemma collect_gauge: "snd (collect gc now st) \<le> snd st"
proof -
  have "snd (foldl (collectCluster (gc_store gc) now) st cs) \<le> snd st" for cs
  proof (induction cs arbitrary: st)
    case (Cons c cs)
    then show ?case by (simp only: foldl.simps) (rule order_trans [OF Cons.IH collectCluster_gauge])
  qed simp
  then show ?thesis by (simp add: collect_def split: sum.split)
qed

lemma stale_gauge_never_positive: "snd (RunGC gc evs (db, 0)) \<le> 0"
proof -
  have "snd (RunGC gc evs st) \<le> snd st" for st
  proof (induction gc evs st rule: RunGC.induct)
    case (3 gc now evs st)
    then show ?case by (simp only: RunGC.simps) (rule order_trans [OF 3 collect_gauge])
  qed simp_all
  from this [of "(db, 0)"] show ?thesis by simp
qed

end
