(* ===== verification/Cli_Options.thy ===== *)
theory Cli_Options
  imports Sync_Controller
begin

text \<open>
  \<open>cmd/kuery/main.go\<close>: the flags and the start of the server. The flag values are the
  record \<open>Options\<close>; \<open>RunOptions\<close> (the method \<open>Run\<close>) is the sequence of effects of the start, with the outcome of
  every library call in \<open>run_env\<close>. A Go map is a list of pairs with distinct keys, in the
  order the run-time happens to iterate; the goroutine that engages a cluster is the effect
  that starts it.
\<close>

record Options =
  op_StoreDriver :: string
  op_StoreDSN :: string
  op_SyncEnabled :: bool
  op_Kubeconfigs :: string
  op_SyncBlacklist :: string

definition NewOptions :: Options where
  "NewOptions = \<lparr>op_StoreDriver = ''sqlite'', op_StoreDSN = ''kuery.db'', op_SyncEnabled = False,
     op_Kubeconfigs = '''', op_SyncBlacklist = ''secrets,events,events.events.k8s.io''\<rparr>"

definition CompleteOptions :: "Options \<Rightarrow> unit result" where
  "CompleteOptions opts = Inr ()"

definition ValidateOptions :: "Options \<Rightarrow> unit result" where
  "ValidateOptions opts =
     (if op_StoreDriver opts = ''sqlite'' \<or> op_StoreDriver opts = ''postgres'' then Inr ()
      else Inl (UnsupportedDriver (op_StoreDriver opts)))"

fun kubeconfigEntries :: "string list \<Rightarrow> string gomap \<Rightarrow> string gomap result" where
  "kubeconfigEntries [] acc = Inr acc"
| "kubeconfigEntries (e # es) acc =
     (let entry = TrimSpace e in
      if entry = [] then kubeconfigEntries es acc
      else let parts = SplitN entry (CHR ''='') 2 in
        if length parts \<noteq> 2 then Inl (InvalidKubeconfigEntry entry)
        else let name = TrimSpace (parts ! 0); path = TrimSpace (parts ! 1) in
          if name = [] \<or> path = [] then Inl (EmptyKubeconfigField entry)
          else kubeconfigEntries es (AList.update name path acc))"

definition parseKubeconfigs :: "Options \<Rightarrow> string gomap result" where
  "parseKubeconfigs opts =
     (if op_Kubeconfigs opts = [] then Inr []
      else kubeconfigEntries (Split (op_Kubeconfigs opts) (CHR '','')) [])"

definition blacklistEntry :: "string \<Rightarrow> GroupVersionResource list" where
  "blacklistEntry e =
     (let entry = TrimSpace e in
      if entry = [] then []
      else let parts = SplitN entry (CHR ''.'') 2
           in [\<lparr>gvr_Group = (if length parts = 2 then parts ! 1 else []), gvr_Version = [], gvr_Resource = parts ! 0\<rparr>])"

definition buildBlacklist :: "Options \<Rightarrow> Blacklist" where
  "buildBlacklist opts =
     (if op_SyncBlacklist opts = [] then NewBlacklist []
      else NewBlacklist (concat (map blacklistEntry (Split (op_SyncBlacklist opts) (CHR '','')))))"

subsection \<open>Engaging a cluster\<close>

record kubeconfig_env =
  ke_buildConfig :: "string \<Rightarrow> kerror option"
  ke_newCluster :: "kerror option"
  ke_cacheSynced :: bool

definition engageClusterFromKubeconfig ::
  "'db SyncController \<Rightarrow> kubeconfig_env \<Rightarrow> engage_env \<Rightarrow> string \<Rightarrow> string \<Rightarrow> 'db sync_state \<Rightarrow> 'db sync_state \<times> kerror option" where
  "engageClusterFromKubeconfig sc ke env name kubeconfigPath st =
     (case ke_buildConfig ke kubeconfigPath of
        Some e \<Rightarrow> (st, Some (Wrapped (''loading kubeconfig '' @ kubeconfigPath) e))
      | None \<Rightarrow>
          (case ke_newCluster ke of
             Some e \<Rightarrow> (st, Some (Wrapped (''creating cluster client for '' @ name) e))
           | None \<Rightarrow>
               if \<not> ke_cacheSynced ke then (st, Some (ExternalError (''cache sync failed for cluster '' @ name)))
               else Engage sc env name st))"

subsection \<open>The start of the server\<close>

datatype run_effect =
    OpenedStore Config
  | Migrated
  | NewController Blacklist
  | StartedEngage string string
  | Served
  | ClosedStore

record run_env =
  re_newStore :: "kerror option"
  re_autoMigrate :: "kerror option"
  re_versionRegistered :: bool
  re_register :: "kerror option"
  re_secureServing :: "kerror option"
  re_newServer :: "kerror option"
  re_serve :: "kerror option"

text \<open>Everything between the deferred \<open>Close\<close> and the return.\<close>

definition runServer :: "run_env \<Rightarrow> Options \<Rightarrow> run_effect list \<times> kerror option" where
  "runServer re opts =
     (case re_autoMigrate re of
        Some e \<Rightarrow> ([], Some (Wrapped ''failed to auto-migrate'' e))
      | None \<Rightarrow>
          (case if re_versionRegistered re then None else re_register re of
             Some e \<Rightarrow> ([Migrated], Some (Wrapped ''failed to register effective version'' e))
           | None \<Rightarrow>
               (case re_secureServing re of
                  Some e \<Rightarrow> ([Migrated], Some (Wrapped ''failed to apply secure serving'' e))
                | None \<Rightarrow>
                    let pre = [Migrated, NewController (buildBlacklist opts)] in
                    (case parseKubeconfigs opts of
                       Inl e \<Rightarrow> (pre, Some (Wrapped ''failed to parse kubeconfigs'' e))
                     | Inr kubeconfigs \<Rightarrow>
                         let started = pre @ map (\<lambda>(name, path). StartedEngage name path) kubeconfigs in
                         (case re_newServer re of
                            Some e \<Rightarrow> (started, Some (Wrapped ''failed to create server'' e))
                          | None \<Rightarrow> (started @ [Served], re_serve re))))))"

definition RunOptions :: "run_env \<Rightarrow> Options \<Rightarrow> run_effect list \<times> kerror option" where
  "RunOptions re opts =
     (case re_newStore re of
        Some e \<Rightarrow> ([], Some (Wrapped ''failed to create store'' e))
      | None \<Rightarrow>
          let (effects, err) = runServer re opts
          in (OpenedStore \<lparr>cfg_Driver = op_StoreDriver opts, cfg_DSN = op_StoreDSN opts\<rparr> # effects @ [ClosedStore], err))"

text \<open>The command.\<close>

definition RunE :: "run_env \<Rightarrow> Options \<Rightarrow> run_effect list \<times> kerror option" where
  "RunE re opts =
     (case CompleteOptions opts of
        Inl e \<Rightarrow> ([], Some e)
      | Inr _ \<Rightarrow> (case ValidateOptions opts of Inl e \<Rightarrow> ([], Some e) | Inr _ \<Rightarrow> RunOptions re opts))"

subsection \<open>White space\<close>

lemma dropWhile_id_iff: "dropWhile P s = s \<longleftrightarrow> s = [] \<or> \<not> P (hd s)"
proof (cases s)
  case (Cons x xs)
  have "dropWhile P xs \<noteq> x # xs" using length_dropWhile_le [of P xs] by (metis Suc_n_not_le_n length_Cons)
  with Cons show ?thesis by simp
qed simp

lemma TrimSpace_id_iff: "TrimSpace s = s \<longleftrightarrow> s = [] \<or> \<not> is_space (hd s) \<and> \<not> is_space (last s)"
proof
  assume eq: "TrimSpace s = s"
  have "length (TrimSpace s) \<le> length (dropWhile is_space s)"
    unfolding TrimSpace_def using length_dropWhile_le [of is_space "rev (dropWhile is_space s)"] by simp
  then have "length (dropWhile is_space s) = length s"
    using eq length_dropWhile_le [of is_space s] by simp
  then have d: "dropWhile is_space s = s"
    by (metis append_eq_append_conv append_self_conv2 takeWhile_dropWhile_id)
  with eq have "dropWhile is_space (rev s) = rev s" by (simp add: TrimSpace_def rev_swap)
  with d show "s = [] \<or> \<not> is_space (hd s) \<and> \<not> is_space (last s)" by (auto simp: dropWhile_id_iff hd_rev)
next
  assume "s = [] \<or> \<not> is_space (hd s) \<and> \<not> is_space (last s)"
  then have "dropWhile is_space s = s" "dropWhile is_space (rev s) = rev s" by (auto simp: dropWhile_id_iff hd_rev)
  then show "TrimSpace s = s" by (simp add: TrimSpace_def)
qed

lemma TrimSpace_join:
  assumes "TrimSpace a = a" "TrimSpace b = b" "a \<noteq> []" "b \<noteq> []"
  shows "TrimSpace (a @ c @ b) = a @ c @ b"
  using assms by (simp add: TrimSpace_id_iff)

subsection \<open>Kubeconfigs\<close>

lemma SplitN_pair: "c \<notin> set a \<Longrightarrow> SplitN (a @ c # b) c 2 = [a, b]"
proof -
  assume "c \<notin> set a"
  then have "takeWhile (\<lambda>x. x \<noteq> c) (a @ c # b) = a" "dropWhile (\<lambda>x. x \<noteq> c) (a @ c # b) = c # b"
    by (auto simp: takeWhile_append dropWhile_append)
  then show ?thesis by (simp add: numeral_2_eq_2)
qed

definition plain_pair :: "string \<times> string \<Rightarrow> bool" where
  "plain_pair p \<longleftrightarrow> fst p \<noteq> [] \<and> snd p \<noteq> [] \<and> TrimSpace (fst p) = fst p \<and> TrimSpace (snd p) = snd p \<and>
     CHR ''='' \<notin> set (fst p) \<and> CHR '','' \<notin> set (fst p) \<union> set (snd p)"

definition flag_entry :: "string \<times> string \<Rightarrow> string" where
  "flag_entry p = fst p @ ''='' @ snd p"

lemma kubeconfigEntries_plain:
  "list_all plain_pair kvs \<Longrightarrow>
   kubeconfigEntries (map flag_entry kvs) acc = Inr (fold (\<lambda>p. AList.update (fst p) (snd p)) kvs acc)"
proof (induction kvs arbitrary: acc)
  case (Cons p kvs)
  then have p: "plain_pair p" by simp
  then have "TrimSpace (flag_entry p) = flag_entry p" unfolding flag_entry_def
    by (intro TrimSpace_join) (simp_all add: plain_pair_def)
  moreover have "SplitN (flag_entry p) (CHR ''='') 2 = [fst p, snd p]"
    using p by (simp add: flag_entry_def plain_pair_def SplitN_pair)
  moreover have "flag_entry p \<noteq> []" by (simp add: flag_entry_def)
  ultimately show ?case using Cons p by (simp add: plain_pair_def Let_def)
qed simp

lemma map_of_fold_update:
  "map_of (fold (\<lambda>p. AList.update (fst p) (snd p)) kvs acc) = map_of acc ++ map_of (rev kvs)"
  by (induction kvs arbitrary: acc) (auto simp: update_conv' fun_eq_iff map_add_def split: option.split)

lemma kubeconfigEntries_distinct:
  "kubeconfigEntries es acc = Inr m \<Longrightarrow> distinct (map fst acc) \<Longrightarrow> distinct (map fst m)"
  by (induction es arbitrary: acc) (auto simp: Let_def distinct_update split: if_splits)

lemma parseKubeconfigs_distinct: "parseKubeconfigs opts = Inr m \<Longrightarrow> distinct (map fst m)"
  using kubeconfigEntries_distinct by (fastforce simp: parseKubeconfigs_def split: if_splits)

subsection \<open>The effects of the start\<close>

primrec engaged :: "run_effect \<Rightarrow> string option" where
  "engaged (OpenedStore c) = None"
| "engaged Migrated = None"
| "engaged (NewController b) = None"
| "engaged (StartedEngage n p) = Some n"
| "engaged Served = None"
| "engaged ClosedStore = None"

lemma engaged_started:
  "List.map_filter engaged (map (\<lambda>(n, p). StartedEngage n p) kvs) = map fst kvs"
  by (induction kvs) (auto simp: map_filter_simps)

lemma map_filter_append: "List.map_filter f (xs @ ys) = List.map_filter f xs @ List.map_filter f ys"
  by (induction xs) (auto simp: map_filter_simps split: option.split)

lemma runServer_engages:
  assumes "runServer re opts = (effs, err)"
  shows "distinct (List.map_filter engaged effs)"
    and "StartedEngage n p \<in> set effs \<Longrightarrow> hd effs = Migrated \<and> (\<exists>m. parseKubeconfigs opts = Inr m \<and> (n, p) \<in> set m)"
    and "ClosedStore \<notin> set effs"
  using assms parseKubeconfigs_distinct [of opts]
  by (auto simp: runServer_def Let_def engaged_started map_filter_append map_filter_simps
      split: option.splits sum.splits if_splits)

subsection \<open>Properties\<close>

text \<open>C27. The flag of kubeconfigs is read back: the text that joins pairs of a name and a
  path parses to the map of these pairs, in which the last path of a name that occurs twice
  counts and every name occurs once.\<close>

theorem parseKubeconfigs_roundtrip:
  assumes "kvs \<noteq> []" and "list_all plain_pair kvs"
  shows "\<exists>m. parseKubeconfigs (opts\<lparr>op_Kubeconfigs := Join (map flag_entry kvs) '',''\<rparr>) = Inr m \<and>
     map_of m = map_of (rev kvs) \<and> distinct (map fst m)"
proof -
  let ?t = "Join (map flag_entry kvs) '',''"
  have "?t \<noteq> []" using assms(1) by (cases kvs; cases "tl kvs") (auto simp: flag_entry_def)
  moreover have "Split ?t (CHR '','') = map flag_entry kvs"
    using assms by (intro Split_Join) (auto simp: list_all_iff plain_pair_def flag_entry_def)
  ultimately have p: "parseKubeconfigs (opts\<lparr>op_Kubeconfigs := ?t\<rparr>) = Inr (fold (\<lambda>p. AList.update (fst p) (snd p)) kvs [])"
    using assms(2) by (simp add: parseKubeconfigs_def kubeconfigEntries_plain)
  then show ?thesis
    using parseKubeconfigs_distinct [OF p] by (intro exI conjI) (simp_all add: map_of_fold_update)
qed

theorem parseKubeconfigs_roundtrip_witness:
  "\<exists>m. parseKubeconfigs (NewOptions\<lparr>op_Kubeconfigs := ''a=/x,b=/y,a=/z''\<rparr>) = Inr m \<and> map_of m ''a'' = Some ''/z''"
proof -
  have plain: "list_all plain_pair [(''a'', ''/x''), (''b'', ''/y''), (''a'', ''/z'')]" by code_simp
  have t: "Join (map flag_entry [(''a'', ''/x''), (''b'', ''/y''), (''a'', ''/z'')]) '','' = ''a=/x,b=/y,a=/z''" by code_simp
  obtain m where "parseKubeconfigs (NewOptions\<lparr>op_Kubeconfigs := ''a=/x,b=/y,a=/z''\<rparr>) = Inr m"
    "map_of m = map_of (rev [(''a'', ''/x''), (''b'', ''/y''), (''a'', ''/z'')])"
    using parseKubeconfigs_roundtrip [OF _ plain, of NewOptions] unfolding t by auto
  then show ?thesis by simp
qed

text \<open>C26. The start of the server: the store is opened only with a known driver and is
  closed on every path after that; a cluster is engaged only after the migration and only
  when all of the flag was readable, and no two goroutines engage the same cluster.\<close>

theorem RunE_effects:
  assumes "RunE re opts = (effs, err)" and "effs \<noteq> []"
  shows "op_StoreDriver opts \<in> {''sqlite'', ''postgres''} \<and>
    (\<exists>mid. effs = OpenedStore \<lparr>cfg_Driver = op_StoreDriver opts, cfg_DSN = op_StoreDSN opts\<rparr> # mid @ [ClosedStore] \<and>
       ClosedStore \<notin> set mid \<and> distinct (List.map_filter engaged mid) \<and>
       (\<forall>n p. StartedEngage n p \<in> set mid \<longrightarrow>
          hd mid = Migrated \<and> (\<exists>m. parseKubeconfigs opts = Inr m \<and> (n, p) \<in> set m)))"
proof -
  obtain mid e where mid: "runServer re opts = (mid, e)" by (cases "runServer re opts")
  have driver: "op_StoreDriver opts \<in> {''sqlite'', ''postgres''}"
    using assms by (auto simp: RunE_def CompleteOptions_def ValidateOptions_def split: if_splits)
  moreover have "effs = OpenedStore \<lparr>cfg_Driver = op_StoreDriver opts, cfg_DSN = op_StoreDSN opts\<rparr> # mid @ [ClosedStore]"
    using assms mid by (auto simp: RunE_def CompleteOptions_def ValidateOptions_def RunOptions_def
        split: if_splits option.splits)
  ultimately show ?thesis using runServer_engages [OF mid] by blast
qed

theorem RunE_effects_witness:
  "\<exists>effs err. RunE \<lparr>re_newStore = None, re_autoMigrate = None, re_versionRegistered = True, re_register = None,
       re_secureServing = None, re_newServer = None, re_serve = None\<rparr>
     (NewOptions\<lparr>op_Kubeconfigs := ''a=/x,b=/y,a=/z''\<rparr>) = (effs, err) \<and> last effs = ClosedStore"
proof -
  let ?re = "\<lparr>re_newStore = None, re_autoMigrate = None, re_versionRegistered = True, re_register = None,
       re_secureServing = None, re_newServer = None, re_serve = None\<rparr>"
  let ?opts = "NewOptions\<lparr>op_Kubeconfigs := ''a=/x,b=/y,a=/z''\<rparr>"
  obtain effs err where r: "RunE ?re ?opts = (effs, err)" by (cases "RunE ?re ?opts")
  moreover have "effs \<noteq> []"
    using r by (auto simp: RunE_def CompleteOptions_def ValidateOptions_def RunOptions_def NewOptions_def split: prod.splits)
  ultimately show ?thesis using RunE_effects [OF r] by auto
qed

text \<open>The default of the blacklist flag is the built-in blacklist: the two exclude the
  same groups and resources.\<close>

theorem default_flag_is_default_blacklist:
  "IsBlacklisted (buildBlacklist NewOptions) gr = IsBlacklisted (NewBlacklist DefaultBlacklist) gr"
proof -
  have "groupResource ` set (concat (map blacklistEntry (Split (op_SyncBlacklist NewOptions) (CHR '','')))) =
      groupResource ` set DefaultBlacklist"
    by code_simp
  moreover have "op_SyncBlacklist NewOptions \<noteq> []" by (simp add: NewOptions_def)
  ultimately show ?thesis by (simp add: buildBlacklist_def IsBlacklisted_NewBlacklist)
qed

text \<open>The flag that enables the sync controller is read by nothing.\<close>

theorem sync_flag_ignored: "RunE re (opts\<lparr>op_SyncEnabled := b\<rparr>) = RunE re opts"
proof -
  have "parseKubeconfigs (opts\<lparr>op_SyncEnabled := b\<rparr>) = parseKubeconfigs opts"
    "buildBlacklist (opts\<lparr>op_SyncEnabled := b\<rparr>) = buildBlacklist opts"
    "ValidateOptions (opts\<lparr>op_SyncEnabled := b\<rparr>) = ValidateOptions opts"
    "op_StoreDriver (opts\<lparr>op_SyncEnabled := b\<rparr>) = op_StoreDriver opts"
    "op_StoreDSN (opts\<lparr>op_SyncEnabled := b\<rparr>) = op_StoreDSN opts"
    by (simp_all add: parseKubeconfigs_def buildBlacklist_def ValidateOptions_def)
  then show ?thesis unfolding RunE_def CompleteOptions_def RunOptions_def runServer_def by (simp only:)
qed

end
