(* ===== verification/Api_Server.thy ===== *)
theory Api_Server
  imports Query_Engine Cli_Options
begin

text \<open>
  \<open>internal/server\<close>, \<open>groupversion_info.go\<close>, \<open>openapi.go\<close>, and the flags, the configuration of the
  server and the \<open>main\<close> of \<open>cmd/kuery/main.go\<close>: how the query handler becomes a resource of an API
  server. The scheme, the generic API server, the flag parser and the command runner of the
  Kubernetes libraries are parameters; what the scheme and the server do with what the code
  registers is the assumption of the locale \<open>generic_server\<close>.
\<close>

subsection \<open>The group and version\<close>

record GroupVersion =
  gv_Group :: string
  gv_Version :: string

record SchemaGroupKind =
  sgk_Group :: string
  sgk_Kind :: string

record SchemaGroupResource =
  sgr_Group :: string
  sgr_Resource :: string

definition SchemeGroupVersion :: GroupVersion where
  "SchemeGroupVersion = \<lparr>gv_Group = ''kuery.io'', gv_Version = ''v1alpha1''\<rparr>"

definition Kind :: "string \<Rightarrow> SchemaGroupKind" where
  "Kind kind = \<lparr>sgk_Group = gv_Group SchemeGroupVersion, sgk_Kind = kind\<rparr>"

definition Resource :: "string \<Rightarrow> SchemaGroupResource" where
  "Resource resource = \<lparr>sgr_Group = gv_Group SchemeGroupVersion, sgr_Resource = resource\<rparr>"

text \<open>The scheme is changed in place; a call may also return an error. The codecs point to it.\<close>

record ('s, 'cd, 'pc) scheme_lib =
  sl_NewScheme :: 's
  sl_NewCodecFactory :: "'s \<Rightarrow> 'cd"
  sl_NewParameterCodec :: "'s \<Rightarrow> 'pc"
  sl_AddKnownTypes :: "'s \<Rightarrow> GroupVersion \<Rightarrow> string list \<Rightarrow> 's"
  sl_AddToGroupVersion :: "'s \<Rightarrow> GroupVersion \<Rightarrow> 's"
  sl_AddMetaToScheme :: "'s \<Rightarrow> 's \<times> kerror option"

definition addKnownTypes :: "('s, 'cd, 'pc) scheme_lib \<Rightarrow> 's \<Rightarrow> 's \<times> kerror option" where
  "addKnownTypes sl scheme =
     (let scheme = sl_AddKnownTypes sl scheme SchemeGroupVersion [''Query'']
      in (sl_AddToGroupVersion sl scheme SchemeGroupVersion, None))"

definition SchemeBuilder :: "('s, 'cd, 'pc) scheme_lib \<Rightarrow> ('s \<Rightarrow> 's \<times> kerror option) list" where
  "SchemeBuilder sl = [addKnownTypes sl]"

fun applyBuilder :: "('s \<Rightarrow> 's \<times> kerror option) list \<Rightarrow> 's \<Rightarrow> 's \<times> kerror option" where
  "applyBuilder [] scheme = (scheme, None)"
| "applyBuilder (f # fs) scheme =
     (case f scheme of (scheme', Some e) \<Rightarrow> (scheme', Some e) | (scheme', None) \<Rightarrow> applyBuilder fs scheme')"

definition AddToScheme :: "('s, 'cd, 'pc) scheme_lib \<Rightarrow> 's \<Rightarrow> 's \<times> kerror option" where
  "AddToScheme sl = applyBuilder (SchemeBuilder sl)"

text \<open>The \<open>init\<close> of the server package ignores the errors.\<close>

definition initScheme :: "('s, 'cd, 'pc) scheme_lib \<Rightarrow> 's \<Rightarrow> 's" where
  "initScheme sl scheme =
     (let scheme = fst (AddToScheme sl scheme);
          scheme = fst (sl_AddMetaToScheme sl scheme)
      in sl_AddToGroupVersion sl scheme \<lparr>gv_Group = [], gv_Version = ''v1''\<rparr>)"

definition Scheme :: "('s, 'cd, 'pc) scheme_lib \<Rightarrow> 's" where
  "Scheme sl = initScheme sl (sl_NewScheme sl)"

definition Codecs :: "('s, 'cd, 'pc) scheme_lib \<Rightarrow> 'cd" where
  "Codecs sl = sl_NewCodecFactory sl (Scheme sl)"

definition ParameterCodec :: "('s, 'cd, 'pc) scheme_lib \<Rightarrow> 'pc" where
  "ParameterCodec sl = sl_NewParameterCodec sl (Scheme sl)"

subsection \<open>The storage of queries\<close>

record rest_store =
  rs_database :: database
  rs_driver :: string

record QueryREST =
  qr_store :: rest_store
  qr_engine :: Engine

definition NewQueryREST :: "rest_store \<Rightarrow> QueryREST" where
  "NewQueryREST s = \<lparr>qr_store = s, qr_engine = NewEngine (rs_database s) (rs_driver s)\<rparr>"

datatype rest_interface = Storage | Creater | Scoper | SingularNameProvider

definition implemented :: "rest_interface list" where
  "implemented = [Storage, Creater, Scoper, SingularNameProvider]"

definition QueryREST_New :: Query where
  "QueryREST_New = \<lparr>q_Spec = zero_QuerySpec,
     q_Status = \<lparr>st_Objects = [], st_Cursor = None, st_Count = None, st_Incomplete = False, st_Warnings = []\<rparr>\<rparr>"

definition Destroy :: "QueryREST \<Rightarrow> QueryREST" where
  "Destroy r = r"

definition NamespaceScoped :: bool where "NamespaceScoped = False"

definition GetSingularName :: string where "GetSingularName = ''query''"

subsection \<open>The server\<close>

text \<open>The information on a group: its versions, for each version the resources and their storages, and
  the scheme and codecs of its objects.\<close>

record ('s, 'cd, 'pc) APIGroupInfo =
  ag_PrioritizedVersions :: "GroupVersion list"
  ag_VersionedResourcesStorageMap :: "(string \<times> (string \<times> QueryREST) list) list"
  ag_Scheme :: 's
  ag_ParameterCodec :: 'pc
  ag_NegotiatedSerializer :: 'cd

record ('cfg, 'cc, 'g, 's, 'cd, 'pc) generic_lib =
  gl_Complete :: "'cfg \<Rightarrow> 'cc"
  gl_New :: "'cc \<Rightarrow> string \<Rightarrow> 'g result"
  gl_NewDefaultAPIGroupInfo :: "string \<Rightarrow> 's \<Rightarrow> 'pc \<Rightarrow> 'cd \<Rightarrow> ('s, 'cd, 'pc) APIGroupInfo"
  gl_InstallAPIGroup :: "'g \<Rightarrow> ('s, 'cd, 'pc) APIGroupInfo \<Rightarrow> 'g result"

record ('cfg, 'db) KueryServerConfig =
  kc_GenericConfig :: 'cfg
  kc_Store :: rest_store
  kc_SyncController :: "'db SyncController"

record ('cc, 'db) CompletedConfig =
  cc_GenericConfig :: 'cc
  cc_Store :: rest_store
  cc_SyncController :: "'db SyncController"

record 'g KueryServer =
  ks_GenericAPIServer :: 'g

definition CompleteConfig :: "('cfg, 'cc, 'g, 's, 'cd, 'pc) generic_lib \<Rightarrow> ('cfg, 'db) KueryServerConfig \<Rightarrow> ('cc, 'db) CompletedConfig" where
  "CompleteConfig gl c = \<lparr>cc_GenericConfig = gl_Complete gl (kc_GenericConfig c), cc_Store = kc_Store c,
     cc_SyncController = kc_SyncController c\<rparr>"

definition apiGroupInfo ::
  "('s, 'cd, 'pc) scheme_lib \<Rightarrow> ('cfg, 'cc, 'g, 's, 'cd, 'pc) generic_lib \<Rightarrow> rest_store \<Rightarrow> ('s, 'cd, 'pc) APIGroupInfo" where
  "apiGroupInfo sl gl s =
     (let info = gl_NewDefaultAPIGroupInfo gl ''kuery.io'' (Scheme sl) (ParameterCodec sl) (Codecs sl)
      in info\<lparr>ag_VersionedResourcesStorageMap :=
           AList.update ''v1alpha1'' [(''queries'', NewQueryREST s)] (ag_VersionedResourcesStorageMap info)\<rparr>)"

definition NewServer ::
  "('s, 'cd, 'pc) scheme_lib \<Rightarrow> ('cfg, 'cc, 'g, 's, 'cd, 'pc) generic_lib \<Rightarrow> ('cc, 'db) CompletedConfig \<Rightarrow> 'g KueryServer result" where
  "NewServer sl gl c =
     andthen (gl_New gl (cc_GenericConfig c) ''kuery-apiserver'') (\<lambda>genericServer.
     andthen (gl_InstallAPIGroup gl genericServer (apiGroupInfo sl gl (cc_Store c))) (\<lambda>genericServer.
     Inr \<lparr>ks_GenericAPIServer = genericServer\<rparr>))"

subsection \<open>OpenAPI\<close>

record openapi_schema =
  oa_Description :: string
  oa_Type :: "string list"
  oa_Properties :: "(string \<times> string list) list"

definition GetOpenAPIDefinitions :: "(string \<times> openapi_schema) list" where
  "GetOpenAPIDefinitions =
     [(''github.com/faroshq/kuery/apis/query/v1alpha1.Query'',
       \<lparr>oa_Description = ''Query is a POST-only virtual resource for executing queries.'', oa_Type = [''object''],
        oa_Properties = [(''apiVersion'', [''string'']), (''kind'', [''string'']), (''metadata'', [''object'']),
          (''spec'', [''object'']), (''status'', [''object''])]\<rparr>)]"

subsection \<open>The configuration\<close>

text \<open>The configuration that \<open>Run\<close> builds: the effective version and the serving options come from
  the libraries; every request is authenticated as one user, and whatever it asks for is allowed.\<close>

record ('cd, 'ev, 'ss, 'req, 'attr) RecommendedConfig =
  rg_Codecs :: 'cd
  rg_EffectiveVersion :: 'ev
  rg_SkipOpenAPIInstallation :: bool
  rg_GetDefinitions :: "(string \<times> openapi_schema) list"
  rg_SecureServing :: 'ss
  rg_Authenticator :: "'req \<Rightarrow> (string \<times> string list) \<times> bool \<times> kerror option"
  rg_Authorizer :: "'attr \<Rightarrow> bool \<times> string \<times> kerror option"

definition recommendedConfig :: "'cd \<Rightarrow> 'ev \<Rightarrow> 'ss \<Rightarrow> ('cd, 'ev, 'ss, 'req, 'attr) RecommendedConfig" where
  "recommendedConfig codecs effectiveVersion serving =
     \<lparr>rg_Codecs = codecs, rg_EffectiveVersion = effectiveVersion, rg_SkipOpenAPIInstallation = True,
      rg_GetDefinitions = GetOpenAPIDefinitions, rg_SecureServing = serving,
      rg_Authenticator = (\<lambda>req. ((''kuery-user'', [''system:masters'']), True, None)),
      rg_Authorizer = (\<lambda>a. (True, [], None))\<rparr>"

definition serverConfig :: "'cfg \<Rightarrow> rest_store \<Rightarrow> 'db SyncController \<Rightarrow> ('cfg, 'db) KueryServerConfig" where
  "serverConfig config s sc = \<lparr>kc_GenericConfig = config, kc_Store = s, kc_SyncController = sc\<rparr>"

subsection \<open>Flags\<close>

record flag =
  fl_name :: string
  fl_usage :: string
  fl_value :: "Options \<Rightarrow> string"
  fl_set :: "string \<Rightarrow> Options \<Rightarrow> Options option"

definition StringVar :: "string \<Rightarrow> string \<Rightarrow> (Options \<Rightarrow> string) \<Rightarrow> ((string \<Rightarrow> string) \<Rightarrow> Options \<Rightarrow> Options) \<Rightarrow> flag" where
  "StringVar name usage get upd = \<lparr>fl_name = name, fl_usage = usage, fl_value = get, fl_set = (\<lambda>v opts. Some (upd (\<lambda>_. v) opts))\<rparr>"

text \<open>\<open>strconv.ParseBool\<close>\<close>

definition ParseBool :: "string \<Rightarrow> bool option" where
  "ParseBool s =
     (if s \<in> {''1'', ''t'', ''T'', ''true'', ''TRUE'', ''True''} then Some True
      else if s \<in> {''0'', ''f'', ''F'', ''false'', ''FALSE'', ''False''} then Some False else None)"

definition BoolVar :: "string \<Rightarrow> string \<Rightarrow> (Options \<Rightarrow> bool) \<Rightarrow> ((bool \<Rightarrow> bool) \<Rightarrow> Options \<Rightarrow> Options) \<Rightarrow> flag" where
  "BoolVar name usage get upd = \<lparr>fl_name = name, fl_usage = usage,
     fl_value = (\<lambda>opts. if get opts then ''true'' else ''false''),
     fl_set = (\<lambda>v opts. map_option (\<lambda>b. upd (\<lambda>_. b) opts) (ParseBool v))\<rparr>"

text \<open>The flags of the secure serving options are those of the library.\<close>

definition AddFlags :: "flag list \<Rightarrow> flag list" where
  "AddFlags servingFlags = servingFlags @
     [StringVar ''store-driver'' ''Database driver: sqlite or postgres'' op_StoreDriver op_StoreDriver_update,
      StringVar ''store-dsn'' ''Database connection string'' op_StoreDSN op_StoreDSN_update,
      BoolVar ''sync-enabled'' ''Enable sync controller to watch clusters'' op_SyncEnabled op_SyncEnabled_update,
      StringVar ''kubeconfigs'' ''Comma-separated list of name=path pairs for clusters to sync (e.g. cluster-a=/path/a.kubeconfig,cluster-b=/path/b.kubeconfig)''
        op_Kubeconfigs op_Kubeconfigs_update,
      StringVar ''sync-blacklist'' ''Comma-separated resources to skip syncing (default: secrets,events,events.events.k8s.io). Empty string syncs everything.''
        op_SyncBlacklist op_SyncBlacklist_update]"

text \<open>The command runner parses the flags into the options, runs the command, and turns its error
  into an exit code.\<close>

record cli_lib =
  cl_servingFlags :: "flag list"
  cl_parse :: "flag list \<Rightarrow> Options \<Rightarrow> Options result"
  cl_code :: "kerror option \<Rightarrow> int"

definition mainProgram :: "cli_lib \<Rightarrow> run_env \<Rightarrow> run_effect list \<times> int" where
  "mainProgram cl re =
     (case cl_parse cl (AddFlags (cl_servingFlags cl)) NewOptions of
        Inl e \<Rightarrow> ([], cl_code cl (Some e))
      | Inr opts \<Rightarrow> (let (effects, err) = RunE re opts in (effects, cl_code cl err)))"

subsection \<open>The generic API server\<close>

text \<open>What the libraries document, over two observations: the kinds that a scheme knows in a version,
  none in the internal version, which is never served, and the storage that a server routes a resource
  to. Adding a group and version registers its meta types in that version and in the version \<open>v1\<close> of
  the group without a name. The versions of a group are those in which the scheme knows a kind; the
  resources of a group are installed for these versions only.\<close>

locale generic_server =
  fixes sl :: "('s, 'cd, 'pc) scheme_lib"
    and gl :: "('cfg, 'cc, 'g, 's, 'cd, 'pc) generic_lib"
    and kinds :: "'s \<Rightarrow> GroupVersion \<Rightarrow> string set"
    and routes :: "'g \<Rightarrow> GroupVersion \<Rightarrow> string \<Rightarrow> QueryREST option"
  assumes NewScheme: "kinds (sl_NewScheme sl) gv = {}"
    and AddKnownTypes: "gv_Version gv \<noteq> ''__internal'' \<Longrightarrow>
      kinds (sl_AddKnownTypes sl s gv ks) gv' = (if gv' = gv then set ks \<union> kinds s gv else kinds s gv')"
    and AddToGroupVersion: "gv' \<noteq> gv \<Longrightarrow> gv_Group gv' \<noteq> [] \<Longrightarrow> kinds (sl_AddToGroupVersion sl s gv) gv' = kinds s gv'"
      "kinds s gv \<subseteq> kinds (sl_AddToGroupVersion sl s gv) gv"
    and AddMetaToScheme: "gv_Group gv \<noteq> ''meta.k8s.io'' \<Longrightarrow> kinds (fst (sl_AddMetaToScheme sl s)) gv = kinds s gv"
    and NewDefaultAPIGroupInfo:
      "set (ag_PrioritizedVersions (gl_NewDefaultAPIGroupInfo gl gr s pc cd)) = {gv. gv_Group gv = gr \<and> kinds s gv \<noteq> {}}"
      "ag_VersionedResourcesStorageMap (gl_NewDefaultAPIGroupInfo gl gr s pc cd) = []"
    and New: "gl_New gl cc name = Inr g \<Longrightarrow> routes g gv r = None"
    and InstallAPIGroup: "gl_InstallAPIGroup gl g info = Inr g' \<Longrightarrow>
      routes g' gv r = (case if gv \<in> set (ag_PrioritizedVersions info)
          then Option.bind (map_of (ag_VersionedResourcesStorageMap info) (gv_Version gv)) (\<lambda>m. map_of m r) else None of
        None \<Rightarrow> routes g gv r | Some st \<Rightarrow> Some st)"
begin

lemma scheme_kinds:
  "''Query'' \<in> kinds (Scheme sl) SchemeGroupVersion"
  "gv_Group gv = ''kuery.io'' \<Longrightarrow> kinds (Scheme sl) gv \<noteq> {} \<Longrightarrow> gv = SchemeGroupVersion"
proof -
  let ?s1 = "sl_AddKnownTypes sl (sl_NewScheme sl) SchemeGroupVersion [''Query'']"
  let ?s2 = "sl_AddToGroupVersion sl ?s1 SchemeGroupVersion"
  have s: "Scheme sl = sl_AddToGroupVersion sl (fst (sl_AddMetaToScheme sl ?s2)) \<lparr>gv_Group = [], gv_Version = ''v1''\<rparr>"
    by (simp add: Scheme_def initScheme_def AddToScheme_def SchemeBuilder_def addKnownTypes_def Let_def)
  have k: "kinds (Scheme sl) gv = kinds ?s2 gv" if "gv_Group gv = ''kuery.io''" for gv
  proof -
    have "gv \<noteq> \<lparr>gv_Group = [], gv_Version = ''v1''\<rparr>" using that by auto
    from AddToGroupVersion(1) [OF this] show ?thesis using that AddMetaToScheme [of gv] by (simp add: s)
  qed
  have "gv_Version SchemeGroupVersion \<noteq> ''__internal''" by (simp add: SchemeGroupVersion_def)
  note known = AddKnownTypes [OF this]
  have "gv_Group SchemeGroupVersion = ''kuery.io''" by (simp add: SchemeGroupVersion_def)
  from k [OF this] show "''Query'' \<in> kinds (Scheme sl) SchemeGroupVersion"
    using AddToGroupVersion(2) [of ?s1 SchemeGroupVersion] by (auto simp: known)
  show "gv = SchemeGroupVersion" if "gv_Group gv = ''kuery.io''" "kinds (Scheme sl) gv \<noteq> {}"
    using that k [OF that(1)] AddToGroupVersion(1) [of gv SchemeGroupVersion ?s1] by (auto simp: known NewScheme)
qed

lemma server_routes:
  assumes "NewServer sl gl c = Inr ks"
  shows "routes (ks_GenericAPIServer ks) gv r =
    (if gv = SchemeGroupVersion \<and> r = ''queries'' then Some (NewQueryREST (cc_Store c)) else None)"
proof -
  from assms obtain g where g: "gl_New gl (cc_GenericConfig c) ''kuery-apiserver'' = Inr g"
    "gl_InstallAPIGroup gl g (apiGroupInfo sl gl (cc_Store c)) = Inr (ks_GenericAPIServer ks)"
    by (auto simp: NewServer_def andthen_Inr_iff)
  have "gv \<in> set (ag_PrioritizedVersions (apiGroupInfo sl gl (cc_Store c))) \<longleftrightarrow> gv = SchemeGroupVersion"
    using scheme_kinds(1) scheme_kinds(2) [of gv] by (auto simp: apiGroupInfo_def Let_def NewDefaultAPIGroupInfo(1) SchemeGroupVersion_def)
  moreover have "ag_VersionedResourcesStorageMap (apiGroupInfo sl gl (cc_Store c)) = [(''v1alpha1'', [(''queries'', NewQueryREST (cc_Store c))])]"
    by (simp add: apiGroupInfo_def Let_def NewDefaultAPIGroupInfo(2))
  ultimately show ?thesis
    using InstallAPIGroup [OF g(2), of gv r] New [OF g(1)] by (simp add: SchemeGroupVersion_def split: if_splits)
qed

end

text \<open>Libraries in memory: a scheme is the list of what was registered.\<close>

definition mem_scheme :: "((GroupVersion \<times> string list) list, unit, unit) scheme_lib" where
  "mem_scheme = \<lparr>sl_NewScheme = [], sl_NewCodecFactory = (\<lambda>_. ()), sl_NewParameterCodec = (\<lambda>_. ()),
     sl_AddKnownTypes = (\<lambda>s gv ks. (gv, ks) # s), sl_AddToGroupVersion = (\<lambda>s gv. (gv, [''WatchEvent'']) # s),
     sl_AddMetaToScheme = (\<lambda>s. ((\<lparr>gv_Group = ''meta.k8s.io'', gv_Version = ''v1''\<rparr>, [''Table'']) # s, None))\<rparr>"

definition mem_kinds :: "(GroupVersion \<times> string list) list \<Rightarrow> GroupVersion \<Rightarrow> string set" where
  "mem_kinds s gv = \<Union> ((set \<circ> snd) ` {p \<in> set s. fst p = gv})"

definition mem_generic ::
  "(unit, unit, GroupVersion \<Rightarrow> string \<Rightarrow> QueryREST option, (GroupVersion \<times> string list) list, unit, unit) generic_lib" where
  "mem_generic = \<lparr>gl_Complete = (\<lambda>c. c), gl_New = (\<lambda>c name. Inr (\<lambda>_ _. None)),
     gl_NewDefaultAPIGroupInfo = (\<lambda>gr s pc cd. \<lparr>ag_PrioritizedVersions = map fst (filter (\<lambda>p. gv_Group (fst p) = gr \<and> snd p \<noteq> []) s),
       ag_VersionedResourcesStorageMap = [], ag_Scheme = s, ag_ParameterCodec = pc, ag_NegotiatedSerializer = cd\<rparr>),
     gl_InstallAPIGroup = (\<lambda>g info. Inr (\<lambda>gv r.
       case if gv \<in> set (ag_PrioritizedVersions info)
          then Option.bind (map_of (ag_VersionedResourcesStorageMap info) (gv_Version gv)) (\<lambda>m. map_of m r) else None of
        None \<Rightarrow> g gv r | Some st \<Rightarrow> Some st))\<rparr>"

lemma mem_kinds_Cons: "mem_kinds (p # s) gv = (if fst p = gv then set (snd p) else {}) \<union> mem_kinds s gv"
  by (auto simp: mem_kinds_def)

lemma mem_kinds_Nil: "mem_kinds [] gv = {}"
  by (simp add: mem_kinds_def)

interpretation mem_server: generic_server mem_scheme mem_generic mem_kinds "\<lambda>g. g"
proof unfold_locales
  fix gr :: string and s :: "(GroupVersion \<times> string list) list" and pc cd :: unit
  show "set (ag_PrioritizedVersions (gl_NewDefaultAPIGroupInfo mem_generic gr s pc cd)) = {gv. gv_Group gv = gr \<and> mem_kinds s gv \<noteq> {}}"
    by (force simp: mem_generic_def mem_kinds_def)
qed (auto simp: mem_scheme_def mem_generic_def mem_kinds_Cons mem_kinds_Nil)

subsection \<open>Properties\<close>

text \<open>C17. What the server serves: because the set-up of the scheme registers the kind of queries in
  \<open>kuery.io/v1alpha1\<close> and no other version of the group, a server that was built from a configuration
  routes exactly one resource of the API, the queries of that version, to the handler whose engine
  works on the store of the configuration with the dialect of its driver, and its scheme knows
  the kind that the handler creates.\<close>

theorem server_serves_queries:
  assumes "generic_server sl gl kinds routes" and "NewServer sl gl (CompleteConfig gl config) = Inr ks"
  shows "routes (ks_GenericAPIServer ks) gv resource =
    (if gv = \<lparr>gv_Group = ''kuery.io'', gv_Version = ''v1alpha1''\<rparr> \<and> resource = ''queries''
     then Some \<lparr>qr_store = kc_Store config, qr_engine = \<lparr>eng_store = rs_database (kc_Store config),
       eng_generator = NewGenerator (rs_driver (kc_Store config))\<rparr>\<rparr>
     else None) \<and>
    ''Query'' \<in> kinds (Scheme sl) \<lparr>gv_Group = ''kuery.io'', gv_Version = ''v1alpha1''\<rparr>"
  using generic_server.server_routes [OF assms, of gv resource] generic_server.scheme_kinds(1) [OF assms(1)]
  by (simp add: CompleteConfig_def SchemeGroupVersion_def NewQueryREST_def NewEngine_def)

definition sample_config :: "(unit, string \<Rightarrow> row list) KueryServerConfig" where
  "sample_config = serverConfig () \<lparr>rs_database = eng_store (example_engine []), rs_driver = ''sqlite''\<rparr> example_controller"

theorem server_serves_queries_witness:
  "\<exists>ks. NewServer mem_scheme mem_generic (CompleteConfig mem_generic sample_config) = Inr ks \<and>
     map_option qr_engine (ks_GenericAPIServer ks \<lparr>gv_Group = ''kuery.io'', gv_Version = ''v1alpha1''\<rparr> ''queries'') =
       Some (example_engine []) \<and>
     ks_GenericAPIServer ks \<lparr>gv_Group = ''kuery.io'', gv_Version = ''v1''\<rparr> ''queries'' = None"
proof -
  obtain ks where ks: "NewServer mem_scheme mem_generic (CompleteConfig mem_generic sample_config) = Inr ks"
    by (simp add: NewServer_def mem_generic_def)
  with server_serves_queries [OF mem_server.generic_server_axioms ks] show ?thesis
    by (simp add: sample_config_def serverConfig_def example_engine_def NewEngine_def)
qed

text \<open>The flags have distinct names; a flag that is set shows its new value, and the others keep theirs.\<close>

lemma flags_independent:
  "distinct (map fl_name (AddFlags []))"
  "\<forall>f \<in> set (AddFlags []). \<forall>g \<in> set (AddFlags []). fl_name g \<noteq> fl_name f \<longrightarrow>
     (\<forall>v opts opts'. fl_set f v opts = Some opts' \<longrightarrow> fl_value g opts' = fl_value g opts)"
  "\<forall>f \<in> set (AddFlags []). fl_name f \<noteq> ''sync-enabled'' \<longrightarrow> (\<forall>v opts. map_option (fl_value f) (fl_set f v opts) = Some v)"
proof -
  show "distinct (map fl_name (AddFlags []))" by (simp add: AddFlags_def StringVar_def BoolVar_def)
  show "\<forall>f \<in> set (AddFlags []). \<forall>g \<in> set (AddFlags []). fl_name g \<noteq> fl_name f \<longrightarrow>
     (\<forall>v opts opts'. fl_set f v opts = Some opts' \<longrightarrow> fl_value g opts' = fl_value g opts)"
    by (simp add: AddFlags_def StringVar_def BoolVar_def) auto
  show "\<forall>f \<in> set (AddFlags []). fl_name f \<noteq> ''sync-enabled'' \<longrightarrow> (\<forall>v opts. map_option (fl_value f) (fl_set f v opts) = Some v)"
    by (simp add: AddFlags_def StringVar_def BoolVar_def)
qed

text \<open>A run with the default flags opens the SQLite database and engages no cluster.\<close>

lemma default_run:
  assumes "cl_parse cl (AddFlags (cl_servingFlags cl)) NewOptions = Inr NewOptions" "mainProgram cl re = (effs, code)"
  shows "StartedEngage n p \<notin> set effs" "OpenedStore c \<in> set effs \<Longrightarrow> c = \<lparr>cfg_Driver = ''sqlite'', cfg_DSN = ''kuery.db''\<rparr>"
  using assms
  by (auto simp: mainProgram_def RunE_def CompleteOptions_def ValidateOptions_def RunOptions_def runServer_def NewOptions_def
      parseKubeconfigs_def Let_def split: option.splits if_splits prod.splits)

text \<open>The schema describes the JSON members of a query, each once.\<close>

lemma openapi_members:
  "map fst (oa_Properties (snd (hd GetOpenAPIDefinitions))) = [''apiVersion'', ''kind'', ''metadata'', ''spec'', ''status'']"
  by (simp add: GetOpenAPIDefinitions_def)

end
