(* ===== verification/Deep_Copy.thy ===== *)
theory Deep_Copy
  imports Query_Types
begin

text \<open>
  \<open>apis/query/v1alpha1/zz_generated.deepcopy.go\<close>: the deep copies of the API types. They matter
  because Go values share memory, so this theory has an explicit store: pointers, slices and
  maps are addresses, a struct is its fields. A value represents a tree (\<open>denotes\<close>), and the
  contract of a copier (locale \<open>copier\<close>) is that its result represents the same tree in memory
  that did not exist before, while no old cell changes. Each idiom of the generator is a
  combinator with a lemma that it keeps the contract, and each generated function is written
  with them. The copiers of library types (\<open>RawExtension\<close>, \<open>metav1.Time\<close>, \<open>ObjectMeta\<close>) are
  parameters that are assumed to keep the contract. The recursive types take fuel, for a
  cyclic value would be copied forever; fuel above the height of the value is enough.
\<close>

subsection \<open>Values and memory\<close>

datatype atom = ABool bool | AInt int | AStr string

datatype gval =
    GAtom atom
  | GPtr "nat option"
  | GSlice "(nat \<times> nat) option"
  | GMap "nat option"
  | GStruct "(string \<times> gval) list"

datatype cell = CVar gval | CArr "gval list" | CMapping "(string \<times> gval) list"

type_synonym cells = "nat \<Rightarrow> cell option"

record memory =
  m_cells :: cells
  m_next :: nat

text \<open>A slice is the address of its array and its length. \<open>new\<close> and \<open>make\<close> take the next address;
  the generated code reads a new cell only after it has written it, so the cell is filled when
  its content is complete.\<close>

definition wf_memory :: "memory \<Rightarrow> bool" where
  "wf_memory h \<longleftrightarrow> (\<forall>a \<ge> m_next h. m_cells h a = None)"

definition reserve :: "memory \<Rightarrow> nat \<times> memory" where
  "reserve h = (m_next h, h\<lparr>m_next := Suc (m_next h)\<rparr>)"

definition store_cell :: "nat \<Rightarrow> cell \<Rightarrow> memory \<Rightarrow> memory" where
  "store_cell a c h = h\<lparr>m_cells := (m_cells h)(a := Some c)\<rparr>"

datatype tree =
    TAtom atom
  | TPtr "tree option"
  | TSlice "tree list option"
  | TMap "(string \<times> tree) list option"
  | TStruct "(string \<times> tree) list"

text \<open>The value represents the tree, and its cells are among the addresses \<open>A\<close>.\<close>

fun denotes :: "cells \<Rightarrow> nat set \<Rightarrow> gval \<Rightarrow> tree \<Rightarrow> bool" where
  "denotes h A v (TAtom a) \<longleftrightarrow> v = GAtom a"
| "denotes h A v (TPtr None) \<longleftrightarrow> v = GPtr None"
| "denotes h A v (TPtr (Some t)) \<longleftrightarrow>
     (case v of GPtr (Some p) \<Rightarrow> p \<in> A \<and> (case h p of Some (CVar w) \<Rightarrow> denotes h A w t | _ \<Rightarrow> False) | _ \<Rightarrow> False)"
| "denotes h A v (TSlice None) \<longleftrightarrow> v = GSlice None"
| "denotes h A v (TSlice (Some ts)) \<longleftrightarrow>
     (case v of GSlice (Some (p, n)) \<Rightarrow> p \<in> A \<and>
        (case h p of Some (CArr ws) \<Rightarrow> n \<le> length ws \<and> list_all2 (denotes h A) (take n ws) ts | _ \<Rightarrow> False) | _ \<Rightarrow> False)"
| "denotes h A v (TMap None) \<longleftrightarrow> v = GMap None"
| "denotes h A v (TMap (Some ts)) \<longleftrightarrow>
     (case v of GMap (Some p) \<Rightarrow> p \<in> A \<and>
        (case h p of Some (CMapping kvs) \<Rightarrow> map fst kvs = map fst ts \<and> list_all2 (\<lambda>kw lt. denotes h A (snd kw) (snd lt)) kvs ts | _ \<Rightarrow> False) | _ \<Rightarrow> False)"
| "denotes h A v (TStruct ts) \<longleftrightarrow>
     (case v of GStruct fs \<Rightarrow> map fst fs = map fst ts \<and> list_all2 (\<lambda>kw lt. denotes h A (snd kw) (snd lt)) fs ts | _ \<Rightarrow> False)"

lemma denotes_iff:
  "denotes h A v (TPtr (Some t)) \<longleftrightarrow> (\<exists>p w. v = GPtr (Some p) \<and> p \<in> A \<and> h p = Some (CVar w) \<and> denotes h A w t)"
  "denotes h A v (TSlice (Some ts)) \<longleftrightarrow>
     (\<exists>p n ws. v = GSlice (Some (p, n)) \<and> p \<in> A \<and> h p = Some (CArr ws) \<and> n \<le> length ws \<and> list_all2 (denotes h A) (take n ws) ts)"
  "denotes h A v (TMap (Some kts)) \<longleftrightarrow>
     (\<exists>p kvs. v = GMap (Some p) \<and> p \<in> A \<and> h p = Some (CMapping kvs) \<and> map fst kvs = map fst kts \<and>
        list_all2 (\<lambda>kw lt. denotes h A (snd kw) (snd lt)) kvs kts)"
  "denotes h A v (TStruct kts) \<longleftrightarrow>
     (\<exists>fs. v = GStruct fs \<and> map fst fs = map fst kts \<and> list_all2 (\<lambda>kw lt. denotes h A (snd kw) (snd lt)) fs kts)"
  by (auto split: gval.splits option.splits cell.splits)

declare denotes.simps(3,5,7,8) [simp del]

text \<open>Only the cells in \<open>A\<close> matter.\<close>

lemma denotes_local:
  assumes "\<And>a. a \<in> A \<Longrightarrow> h a = g a" and "A \<subseteq> B"
  shows "denotes h A v t \<Longrightarrow> denotes g B v t"
proof (induction t arbitrary: v)
  case (TPtr to)
  then show ?case using assms by (cases to) (auto simp: denotes_iff)
next
  case (TSlice ts)
  then show ?case using assms by (cases ts) (auto simp: denotes_iff elim!: list.rel_mono_strong)
next
  case (TMap ts)
  then show ?case using assms
    by (cases ts) (auto simp: denotes_iff elim!: list.rel_mono_strong)
next
  case (TStruct ts)
  then show ?case using assms
    by (auto simp: denotes_iff elim!: list.rel_mono_strong)
qed simp

primrec flat :: "tree \<Rightarrow> bool" where
  "flat (TAtom a) = True"
| "flat (TPtr t) = False"
| "flat (TSlice ts) = False"
| "flat (TMap ts) = False"
| "flat (TStruct ts) = list_all snd (map (map_prod id flat) ts)"

lemma flat_denotes: "flat t \<Longrightarrow> denotes h A v t \<Longrightarrow> denotes g B v t"
proof (induction t arbitrary: v)
  case (TStruct ts)
  then show ?case by (fastforce simp: list_all_iff denotes_iff elim!: list.rel_mono_strong)
qed simp_all

subsection \<open>The contract of a copier\<close>

type_synonym copy_fun = "gval \<Rightarrow> memory \<Rightarrow> (gval \<times> memory) option"

definition grows :: "memory \<Rightarrow> memory \<Rightarrow> bool" where
  "grows h h' \<longleftrightarrow> wf_memory h' \<and> m_next h \<le> m_next h' \<and> (\<forall>a < m_next h. m_cells h' a = m_cells h a)"

abbreviation old :: "memory \<Rightarrow> gval \<Rightarrow> tree \<Rightarrow> bool" where
  "old h v t \<equiv> denotes (m_cells h) {..<m_next h} v t"

abbreviation fresh :: "memory \<Rightarrow> memory \<Rightarrow> gval \<Rightarrow> tree \<Rightarrow> bool" where
  "fresh h h' v t \<equiv> denotes (m_cells h') {m_next h..<m_next h'} v t"

locale copier =
  fixes P :: "tree \<Rightarrow> bool" and f :: copy_fun
  assumes copy: "wf_memory h \<Longrightarrow> old h v t \<Longrightarrow> P t \<Longrightarrow> \<exists>v' h'. f v h = Some (v', h') \<and> grows h h' \<and> fresh h h' v' t"
begin

text \<open>Copy and original do not share memory: whatever happens to the cells of one, the other
  represents the same tree as before.\<close>

lemma independent:
  assumes "wf_memory h" "old h v t" "P t"
  shows "\<exists>v' h'. f v h = Some (v', h') \<and>
    (\<forall>g. (\<forall>a < m_next h. g a = m_cells h' a) \<longrightarrow> denotes g {..<m_next h} v t) \<and>
    (\<forall>g. (\<forall>a \<ge> m_next h. g a = m_cells h' a) \<longrightarrow> denotes g {m_next h..<m_next h'} v' t)"
proof -
  from copy [OF assms] obtain v' h' where c: "f v h = Some (v', h')" "grows h h'" "fresh h h' v' t" by blast
  have "denotes g {..<m_next h} v t" if "\<forall>a < m_next h. g a = m_cells h' a" for g
    using denotes_local [OF _ subset_refl assms(2), of g] that c(2) by (simp add: grows_def)
  moreover have "denotes g {m_next h..<m_next h'} v' t" if "\<forall>a \<ge> m_next h. g a = m_cells h' a" for g
    using denotes_local [OF _ subset_refl c(3), of g] that by simp
  ultimately show ?thesis using c(1) by blast
qed

end

lemma grows_refl: "wf_memory h \<Longrightarrow> grows h h" by (simp add: grows_def)

lemma grows_trans: "grows h h' \<Longrightarrow> grows h' h'' \<Longrightarrow> grows h h''"
  by (auto simp: grows_def)

lemma grows_old: "grows h h' \<Longrightarrow> old h v t \<Longrightarrow> old h' v t"
  by (rule denotes_local) (auto simp: grows_def)

lemma fresh_mono: "grows h h1 \<Longrightarrow> grows h2 h3 \<Longrightarrow> fresh h1 h2 v t \<Longrightarrow> fresh h h3 v t"
  by (rule denotes_local) (auto simp: grows_def)

lemma reserve_grows:
  assumes "wf_memory h"
  shows "wf_memory (snd (reserve h))" "fst (reserve h) = m_next h" "m_next (snd (reserve h)) = Suc (m_next h)"
    "grows h (snd (reserve h))"
  using assms by (simp_all add: reserve_def wf_memory_def grows_def)

lemma store_grows:
  assumes "wf_memory h" "grows (snd (reserve h)) h'"
  shows "grows h (store_cell (m_next h) c h')" "m_cells (store_cell (m_next h) c h') (m_next h) = Some c"
    "m_next (store_cell (m_next h) c h') = m_next h'" "m_next h < m_next h'"
    "fresh (snd (reserve h)) h' v t \<Longrightarrow> fresh h (store_cell (m_next h) c h') v t"
proof -
  show "grows h (store_cell (m_next h) c h')" "m_cells (store_cell (m_next h) c h') (m_next h) = Some c"
    "m_next (store_cell (m_next h) c h') = m_next h'" "m_next h < m_next h'"
    using assms by (auto simp: reserve_def wf_memory_def grows_def store_cell_def)
  show "fresh (snd (reserve h)) h' v t \<Longrightarrow> fresh h (store_cell (m_next h) c h') v t"
    by (rule denotes_local) (auto simp: store_cell_def reserve_def)
qed

lemma copier_mono: "copier P f \<Longrightarrow> (\<And>t. Q t \<Longrightarrow> P t) \<Longrightarrow> copier Q f"
  by (auto simp: copier_def)

subsection \<open>The idioms of the generated code\<close>

text \<open>An assignment: \<open>*out = *in\<close>, \<open>**out = **in\<close>, and one element of \<open>copy\<close>.\<close>

definition assign_val :: copy_fun where
  "assign_val v h = Some (v, h)"

text \<open>\<open>*out = new(T)\<close> and the copy of what the pointer leads to.\<close>

definition copyPtr :: "copy_fun \<Rightarrow> copy_fun" where
  "copyPtr f v h =
     (case v of
        GPtr None \<Rightarrow> Some (v, h)
      | GPtr (Some p) \<Rightarrow>
          (case m_cells h p of
             Some (CVar w) \<Rightarrow>
               Option.bind (f w (snd (reserve h))) (\<lambda>(w', h').
                 Some (GPtr (Some (fst (reserve h))), store_cell (fst (reserve h)) (CVar w') h'))
           | _ \<Rightarrow> None)
      | _ \<Rightarrow> None)"

primrec copyElems :: "copy_fun \<Rightarrow> gval list \<Rightarrow> memory \<Rightarrow> (gval list \<times> memory) option" where
  "copyElems f [] h = Some ([], h)"
| "copyElems f (v # vs) h =
     Option.bind (f v h) (\<lambda>(v', h1). Option.bind (copyElems f vs h1) (\<lambda>(vs', h2). Some (v' # vs', h2)))"

text \<open>\<open>*out = make([]T, len( *in))\<close> and the loop over the elements.\<close>

definition copySlice :: "copy_fun \<Rightarrow> copy_fun" where
  "copySlice f v h =
     (case v of
        GSlice None \<Rightarrow> Some (v, h)
      | GSlice (Some (p, n)) \<Rightarrow>
          (case m_cells h p of
             Some (CArr ws) \<Rightarrow>
               Option.bind (copyElems f (take n ws) (snd (reserve h))) (\<lambda>(ws', h').
                 Some (GSlice (Some (fst (reserve h), n)), store_cell (fst (reserve h)) (CArr ws') h'))
           | _ \<Rightarrow> None)
      | _ \<Rightarrow> None)"

text \<open>\<open>*out = make(map[string]T, len( *in))\<close> and the loop over the entries.\<close>

definition copyMap :: "copy_fun \<Rightarrow> copy_fun" where
  "copyMap f v h =
     (case v of
        GMap None \<Rightarrow> Some (v, h)
      | GMap (Some p) \<Rightarrow>
          (case m_cells h p of
             Some (CMapping kvs) \<Rightarrow>
               Option.bind (copyElems f (map snd kvs) (snd (reserve h))) (\<lambda>(ws', h').
                 Some (GMap (Some (fst (reserve h))), store_cell (fst (reserve h)) (CMapping (zip (map fst kvs) ws')) h'))
           | _ \<Rightarrow> None)
      | _ \<Rightarrow> None)"

text \<open>\<open>*val.DeepCopy()\<close>: the copy is made in a new variable and then read from it.\<close>

definition copyVal :: "copy_fun \<Rightarrow> copy_fun" where
  "copyVal f v h = Option.bind (f v (snd (reserve h))) (\<lambda>(v', h'). Some (v', store_cell (fst (reserve h)) (CVar v') h'))"

text \<open>\<open>*out = *in\<close>, and then some fields of \<open>out\<close> are replaced by copies, in this order.\<close>

definition set_field :: "string \<Rightarrow> gval \<Rightarrow> (string \<times> gval) list \<Rightarrow> (string \<times> gval) list" where
  "set_field k v fs = map (\<lambda>p. if fst p = k then (k, v) else p) fs"

primrec copyFields :: "(string \<times> copy_fun) list \<Rightarrow> (string \<times> gval) list \<Rightarrow> (string \<times> gval) list \<Rightarrow> memory \<Rightarrow> (gval \<times> memory) option" where
  "copyFields [] ins outs h = Some (GStruct outs, h)"
| "copyFields (c # cs) ins outs h =
     (case map_of ins (fst c) of
        None \<Rightarrow> None
      | Some v \<Rightarrow> Option.bind (snd c v h) (\<lambda>(v', h'). copyFields cs ins (set_field (fst c) v' outs) h'))"

definition copyStruct :: "(string \<times> copy_fun) list \<Rightarrow> copy_fun" where
  "copyStruct cs v h = (case v of GStruct fs \<Rightarrow> copyFields cs fs fs h | _ \<Rightarrow> None)"

subsubsection \<open>They keep the contract\<close>

lemma assign_copies: "(\<And>t. P t \<Longrightarrow> flat t) \<Longrightarrow> copier P assign_val"
  by unfold_locales (auto simp: assign_val_def grows_refl intro: flat_denotes)

context copier begin

lemma elems:
  assumes "wf_memory h" "list_all2 (old h) vs ts" "list_all P ts"
  shows "\<exists>vs' h'. copyElems f vs h = Some (vs', h') \<and> grows h h' \<and> list_all2 (fresh h h') vs' ts"
  using assms
proof (induction vs arbitrary: ts h)
  case Nil
  then show ?case by (simp add: grows_refl)
next
  case (Cons v vs)
  then obtain t us where ts: "ts = t # us" and v: "old h v t" "list_all2 (old h) vs us" by (auto simp: list_all2_Cons1)
  have P: "P t" "list_all P us" using Cons.prems(3) ts by simp_all
  obtain v' h1 where 1: "f v h = Some (v', h1)" "grows h h1" "fresh h h1 v' t"
    using copy [OF Cons.prems(1) v(1) P(1)] by blast
  have "list_all2 (old h1) vs us" using v(2) by (rule list_all2_mono) (rule grows_old [OF 1(2)])
  moreover have "wf_memory h1" using 1(2) by (simp add: grows_def)
  ultimately obtain vs' h2 where 2: "copyElems f vs h1 = Some (vs', h2)" "grows h1 h2" "list_all2 (fresh h1 h2) vs' us"
    using Cons.IH [of h1 us] P(2) by blast
  have "list_all2 (fresh h h2) vs' us"
    using 2(3) by (rule list_all2_mono) (rule fresh_mono [OF 1(2) grows_refl], use 2(2) in \<open>simp_all add: grows_def\<close>)
  moreover have "fresh h h2 v' t" using fresh_mono [OF grows_refl 2(2) 1(3)] Cons.prems(1) by simp
  ultimately show ?case using 1 2 grows_trans [OF 1(2) 2(2)] by (auto simp: ts)
qed

end

lemma reserved:
  assumes "wf_memory h"
  shows "wf_memory (snd (reserve h))" "old h v t \<Longrightarrow> old (snd (reserve h)) v t"
  using reserve_grows(1,4) [OF assms] by (auto intro: grows_old)

fun ptr_tree :: "(tree \<Rightarrow> bool) \<Rightarrow> tree \<Rightarrow> bool" where
  "ptr_tree P (TPtr to) \<longleftrightarrow> pred_option P to"
| "ptr_tree P _ \<longleftrightarrow> False"

fun slice_tree :: "(tree \<Rightarrow> bool) \<Rightarrow> tree \<Rightarrow> bool" where
  "slice_tree P (TSlice ts) \<longleftrightarrow> pred_option (list_all P) ts"
| "slice_tree P _ \<longleftrightarrow> False"

fun map_tree :: "(tree \<Rightarrow> bool) \<Rightarrow> tree \<Rightarrow> bool" where
  "map_tree P (TMap ts) \<longleftrightarrow> pred_option (list_all (\<lambda>p. P (snd p))) ts"
| "map_tree P _ \<longleftrightarrow> False"

lemma list_all2_zip_snd:
  assumes "list_all2 R ws (map snd ts)" "length ks = length ts"
  shows "list_all2 (\<lambda>kw lt. R (snd kw) (snd lt)) (zip ks ws) ts"
  using assms list_all2_lengthD [OF assms(1)] by (auto simp: list_all2_conv_all_nth)

context copier begin

lemma copyPtr_copies: "copier (ptr_tree P) (copyPtr f)"
proof
  fix h v t
  assume h: "wf_memory h" and v: "old h v t" and "ptr_tree P t"
  then obtain to where t: "t = TPtr to" "pred_option P to" by (cases t) simp_all
  show "\<exists>v' h'. copyPtr f v h = Some (v', h') \<and> grows h h' \<and> fresh h h' v' t"
  proof (cases to)
    case None
    with v t h show ?thesis by (simp add: copyPtr_def grows_refl)
  next
    case (Some u)
    then obtain p w where p: "v = GPtr (Some p)" "m_cells h p = Some (CVar w)" "old h w u"
      using v t by (auto simp: denotes_iff)
    from copy [OF reserved(1) [OF h] reserved(2) [OF h p(3)]] t Some
    obtain w' h' where c: "f w (snd (reserve h)) = Some (w', h')" "grows (snd (reserve h)) h'" "fresh (snd (reserve h)) h' w' u"
      by auto
    show ?thesis
      using p c(1) store_grows(1-3,5) [OF h c(2), where c = "CVar w'"] store_grows(4) [OF h c(2)] c(3) reserve_grows(2) [OF h]
      by (auto simp: copyPtr_def denotes_iff t(1) Some)
  qed
qed

lemma copySlice_copies: "copier (slice_tree P) (copySlice f)"
proof
  fix h v t
  assume h: "wf_memory h" and v: "old h v t" and "slice_tree P t"
  then obtain tso where t: "t = TSlice tso" "pred_option (list_all P) tso" by (cases t) simp_all
  show "\<exists>v' h'. copySlice f v h = Some (v', h') \<and> grows h h' \<and> fresh h h' v' t"
  proof (cases tso)
    case None
    with v t h show ?thesis by (simp add: copySlice_def grows_refl)
  next
    case (Some ts)
    then obtain p n ws where p: "v = GSlice (Some (p, n))" "m_cells h p = Some (CArr ws)" "n \<le> length ws" "list_all2 (old h) (take n ws) ts"
      using v t by (auto simp: denotes_iff)
    have "list_all2 (old (snd (reserve h))) (take n ws) ts" using p(4) by (rule list_all2_mono) (rule reserved(2) [OF h])
    from elems [OF reserved(1) [OF h] this] t Some
    obtain ws' h' where c: "copyElems f (take n ws) (snd (reserve h)) = Some (ws', h')" "grows (snd (reserve h)) h'"
      "list_all2 (fresh (snd (reserve h)) h') ws' ts" by auto
    have "length ws' = n" using list_all2_lengthD [OF c(3)] list_all2_lengthD [OF p(4)] p(3) by simp
    moreover have "list_all2 (fresh h (store_cell (m_next h) (CArr ws') h')) ws' ts"
      using c(3) by (rule list_all2_mono) (rule store_grows(5) [OF h c(2)])
    ultimately show ?thesis
      using p c(1) store_grows(1-3,5) [OF h c(2), where c = "CArr ws'"] store_grows(4) [OF h c(2)] reserve_grows(2) [OF h]
      by (auto simp: copySlice_def denotes_iff t(1) Some)
  qed
qed

lemma copyMap_copies: "copier (map_tree P) (copyMap f)"
proof
  fix h v t
  assume h: "wf_memory h" and v: "old h v t" and "map_tree P t"
  then obtain tso where t: "t = TMap tso" "pred_option (list_all (\<lambda>p. P (snd p))) tso" by (cases t) simp_all
  show "\<exists>v' h'. copyMap f v h = Some (v', h') \<and> grows h h' \<and> fresh h h' v' t"
  proof (cases tso)
    case None
    with v t h show ?thesis by (simp add: copyMap_def grows_refl)
  next
    case (Some ts)
    then obtain p kvs where p: "v = GMap (Some p)" "m_cells h p = Some (CMapping kvs)" "map fst kvs = map fst ts"
        "list_all2 (old h) (map snd kvs) (map snd ts)"
      using v t by (auto simp: denotes_iff list_all2_map1 list_all2_map2)
    have "list_all2 (old (snd (reserve h))) (map snd kvs) (map snd ts)"
      using p(4) by (rule list_all2_mono) (rule reserved(2) [OF h])
    from elems [OF reserved(1) [OF h] this] t Some
    obtain ws' h' where c: "copyElems f (map snd kvs) (snd (reserve h)) = Some (ws', h')" "grows (snd (reserve h)) h'"
      "list_all2 (fresh (snd (reserve h)) h') ws' (map snd ts)" by (auto simp: list_all_iff)
    let ?kvs = "zip (map fst kvs) ws'"
    have len: "length ws' = length ts" "length kvs = length ts"
      using list_all2_lengthD [OF c(3)] arg_cong [OF p(3), of length] by simp_all
    have "list_all2 (fresh h (store_cell (m_next h) (CMapping ?kvs) h')) ws' (map snd ts)"
      using c(3) by (rule list_all2_mono) (rule store_grows(5) [OF h c(2)])
    from list_all2_zip_snd [OF this, of "map fst kvs"] len p(3)
    have "fresh h (store_cell (m_next h) (CMapping ?kvs) h') (GMap (Some (m_next h))) t"
      using store_grows(2,3) [OF h c(2), of "CMapping ?kvs"] store_grows(4) [OF h c(2)] by (simp add: denotes_iff t(1) Some)
    then show ?thesis
      using p c(1) store_grows(1) [OF h c(2)] reserve_grows(2) [OF h] by (auto simp: copyMap_def)
  qed
qed

lemma copyVal_copies: "copier P (copyVal f)"
proof
  fix h v t
  assume h: "wf_memory h" and v: "old h v t" and "P t"
  from copy [OF reserved(1) [OF h] reserved(2) [OF h v] this(3)]
  obtain v' h' where c: "f v (snd (reserve h)) = Some (v', h')" "grows (snd (reserve h)) h'" "fresh (snd (reserve h)) h' v' t"
    by auto
  with store_grows(1-3,5) [OF h c(2), where c = "CVar v'"] store_grows(4) [OF h c(2)] reserve_grows(2) [OF h]
  show "\<exists>v' h'. copyVal f v h = Some (v', h') \<and> grows h h' \<and> fresh h h' v' t"
    by (auto simp: copyVal_def)
qed

end

subsubsection \<open>Structs\<close>

text \<open>A struct field by field. The parts of a struct value are looked up by their names.\<close>

lemma denotes_struct:
  assumes "distinct (map fst ts)"
  shows "denotes h A (GStruct fs) (TStruct ts) \<longleftrightarrow> map fst fs = map fst ts \<and>
    (\<forall>k t. map_of ts k = Some t \<longrightarrow> (\<exists>w. map_of fs k = Some w \<and> denotes h A w t))"
proof (cases "map fst fs = map fst ts")
  case True
  then have len: "length fs = length ts" by (metis length_map)
  have d: "distinct (map fst fs)" using True assms by simp
  have at: "map_of ts (fst (ts ! i)) = Some (snd (ts ! i))" "map_of fs (fst (ts ! i)) = Some (snd (fs ! i))" if "i < length ts" for i
  proof -
    have "fst (fs ! i) = fst (ts ! i)" using True that len by (metis nth_map)
    then show "map_of ts (fst (ts ! i)) = Some (snd (ts ! i))" "map_of fs (fst (ts ! i)) = Some (snd (fs ! i))"
      using that len assms d map_of_eq_Some_iff nth_mem by (metis prod.collapse)+
  qed
  show ?thesis
  proof
    assume "denotes h A (GStruct fs) (TStruct ts)"
    then have "\<And>i. i < length ts \<Longrightarrow> denotes h A (snd (fs ! i)) (snd (ts ! i))"
      by (auto simp: denotes_iff list_all2_conv_all_nth)
    moreover have "\<exists>i < length ts. k = fst (ts ! i) \<and> t = snd (ts ! i)" if "map_of ts k = Some t" for k t
      using map_of_SomeD [OF that] by (metis fst_conv in_set_conv_nth snd_conv)
    ultimately show "map fst fs = map fst ts \<and>
        (\<forall>k t. map_of ts k = Some t \<longrightarrow> (\<exists>w. map_of fs k = Some w \<and> denotes h A w t))"
      using True at by metis
  next
    assume "map fst fs = map fst ts \<and> (\<forall>k t. map_of ts k = Some t \<longrightarrow> (\<exists>w. map_of fs k = Some w \<and> denotes h A w t))"
    then show "denotes h A (GStruct fs) (TStruct ts)"
      using at len by (fastforce simp: denotes_iff list_all2_conv_all_nth)
  qed
qed (auto simp: denotes_iff)

lemma set_field_simps [simp]:
  "map fst (set_field k v fs) = map fst fs"
  "map_of (set_field k v fs) l = (if l = k then map_option (\<lambda>_. v) (map_of fs l) else map_of fs l)"
  by (induction fs) (auto simp: set_field_def)

lemma copyFields_copies:
  assumes "distinct (map fst ts)" "wf_memory h" "grows base h" "old base (GStruct ins) (TStruct ts)"
    and "distinct (map fst cs)" "fst ` set cs \<subseteq> dom (map_of ts)"
    and "\<And>k c t. (k, c) \<in> set cs \<Longrightarrow> map_of ts k = Some t \<Longrightarrow> copier (\<lambda>u. u = t) c"
    and "map fst outs = map fst ts"
    and "\<And>k t. map_of ts k = Some t \<Longrightarrow> k \<notin> fst ` set cs \<Longrightarrow> \<exists>w. map_of outs k = Some w \<and> fresh base h w t"
  shows "\<exists>v' h'. copyFields cs ins outs h = Some (v', h') \<and> grows h h' \<and> fresh base h' v' (TStruct ts)"
  using assms(2,3,5-)
proof (induction cs arbitrary: outs h)
  case Nil
  have "fresh base h (GStruct outs) (TStruct ts)"
    unfolding denotes_struct [OF assms(1)] using Nil.prems(6,7) by simp
  with Nil.prems(1) show ?case by (simp add: grows_refl)
next
  case (Cons c cs)
  obtain k f where c: "c = (k, f)" by (cases c)
  with Cons.prems(4) obtain t where t: "map_of ts k = Some t" by auto
  then obtain v where v: "map_of ins k = Some v" "old base v t"
    using assms(4) unfolding denotes_struct [OF assms(1)] by blast
  have "copier (\<lambda>u. u = t) f" by (rule Cons.prems(5)) (use c t in simp_all)
  from copier.copy [OF this Cons.prems(1) grows_old [OF Cons.prems(2) v(2)] refl]
  obtain v' h1 where 1: "f v h = Some (v', h1)" "grows h h1" "fresh h h1 v' t" by blast
  have h1: "wf_memory h1" "grows base h1" using 1(2) Cons.prems(2) grows_trans by (auto simp: grows_def)
  have in_outs: "map_of outs k \<noteq> None"
    using Cons.prems(6) t by (metis map_of_eq_None_iff list.set_map option.distinct(1))
  have rest: "\<exists>w. map_of (set_field k v' outs) l = Some w \<and> fresh base h1 w u"
    if "map_of ts l = Some u" "l \<notin> fst ` set cs" for l u
  proof (cases "l = k")
    case True
    with that t in_outs 1(3) fresh_mono [OF Cons.prems(2) grows_refl [OF h1(1)]] show ?thesis by auto
  next
    case False
    with that(2) have "l \<notin> fst ` set (c # cs)" by (simp add: c)
    from Cons.prems(7) [OF that(1) this] obtain w where "map_of outs l = Some w" "fresh base h w u" by blast
    with False show ?thesis
      using denotes_local [of "{m_next base..<m_next h}" "m_cells h" "m_cells h1" "{m_next base..<m_next h1}" w u] 1(2)
      by (auto simp: grows_def)
  qed
  have "\<exists>v'' h'. copyFields cs ins (set_field k v' outs) h1 = Some (v'', h') \<and> grows h1 h' \<and> fresh base h' v'' (TStruct ts)"
    by (rule Cons.IH [OF h1]) (use Cons.prems rest in \<open>auto simp: c\<close>)
  with v(1) 1 grows_trans [OF 1(2)] show ?case by (auto simp: c)
qed

subsection \<open>The types of the API\<close>

datatype gotype =
    TyBool | TyInt32 | TyInt64 | TyString | TyLib string
  | TyPtr gotype | TySlice gotype | TyMap gotype | TyStruct string

text \<open>The fields of the structs of \<^verbatim>\<open>types.go\<close>, in the order of the declarations. Types of
  libraries are opaque.\<close>

definition structFields :: "string \<Rightarrow> (string \<times> gotype) list" where
  "structFields s =
     (if s = ''Query'' then
        [(''TypeMeta'', TyLib ''TypeMeta''), (''ObjectMeta'', TyLib ''ObjectMeta''), (''Spec'', TyStruct ''QuerySpec''),
         (''Status'', TyStruct ''QueryStatus'')]
      else if s = ''QuerySpec'' then
        [(''Cluster'', TyPtr (TyStruct ''ClusterFilter'')), (''Filter'', TyPtr (TyStruct ''QueryFilter'')), (''Limit'', TyInt32),
         (''Page'', TyPtr (TyStruct ''PageSpec'')), (''Order'', TySlice (TyStruct ''OrderSpec'')), (''Count'', TyBool),
         (''Cursor'', TyBool), (''MaxDepth'', TyInt32), (''Objects'', TyPtr (TyStruct ''ObjectsSpec''))]
      else if s = ''ClusterFilter'' then [(''Name'', TyString), (''Labels'', TyMap TyString)]
      else if s = ''QueryFilter'' then [(''Objects'', TySlice (TyStruct ''ObjectFilter''))]
      else if s = ''ObjectFilter'' then
        [(''GroupKind'', TyPtr (TyStruct ''GroupKindFilter'')), (''Name'', TyString), (''Namespace'', TyString),
         (''Labels'', TyMap TyString), (''LabelExpressions'', TySlice (TyStruct ''LabelExpression'')),
         (''Conditions'', TySlice (TyStruct ''ConditionFilter'')), (''CreationTimestamp'', TyPtr (TyStruct ''TimestampFilter'')),
         (''ID'', TyString), (''JSONPath'', TyString), (''Categories'', TySlice TyString)]
      else if s = ''GroupKindFilter'' then [(''APIGroup'', TyString), (''Kind'', TyString)]
      else if s = ''LabelExpression'' then [(''Key'', TyString), (''Operator'', TyString), (''Values'', TySlice TyString)]
      else if s = ''ConditionFilter'' then [(''Type'', TyString), (''Status'', TyString), (''Reason'', TyString)]
      else if s = ''TimestampFilter'' then [(''After'', TyPtr (TyLib ''Time'')), (''Before'', TyPtr (TyLib ''Time''))]
      else if s = ''PageSpec'' then [(''First'', TyInt32), (''Cursor'', TyString)]
      else if s = ''OrderSpec'' then [(''Field'', TyString), (''Direction'', TyString)]
      else if s = ''ObjectsSpec'' then
        [(''ID'', TyBool), (''Cluster'', TyBool), (''MutablePath'', TyBool), (''Object'', TyPtr (TyLib ''RawExtension'')),
         (''Relations'', TyMap (TyStruct ''RelationSpec''))]
      else if s = ''RelationSpec'' then
        [(''Limit'', TyInt32), (''Filters'', TySlice (TyStruct ''ObjectFilter'')), (''Objects'', TyPtr (TyStruct ''ObjectsSpec''))]
      else if s = ''QueryStatus'' then
        [(''Objects'', TySlice (TyStruct ''ObjectResult'')), (''Cursor'', TyPtr (TyStruct ''CursorResult'')), (''Count'', TyPtr TyInt64),
         (''Incomplete'', TyBool), (''Warnings'', TySlice TyString)]
      else if s = ''ObjectResult'' then
        [(''ID'', TyString), (''Cluster'', TyString), (''MutablePath'', TyString), (''Object'', TyPtr (TyLib ''RawExtension'')),
         (''Relations'', TyMap (TySlice (TyStruct ''ObjectResult'')))]
      else if s = ''CursorResult'' then [(''Next'', TyString), (''Page'', TyInt32), (''PageSize'', TyInt32)]
      else [])"

text \<open>The trees of a type; \<open>L\<close> says which trees the values of a library type are.\<close>

fun atom_typed :: "gotype \<Rightarrow> atom \<Rightarrow> bool" where
  "atom_typed TyBool (ABool b) = True"
| "atom_typed TyString (AStr s) = True"
| "atom_typed TyInt32 (AInt i) \<longleftrightarrow> - (2 ^ 31) \<le> i \<and> i < 2 ^ 31"
| "atom_typed TyInt64 (AInt i) \<longleftrightarrow> - (2 ^ 63) \<le> i \<and> i < 2 ^ 63"
| "atom_typed _ _ = False"

fun typed :: "(string \<Rightarrow> tree \<Rightarrow> bool) \<Rightarrow> gotype \<Rightarrow> tree \<Rightarrow> bool" where
  "typed L ty (TAtom a) \<longleftrightarrow> (case ty of TyLib n \<Rightarrow> L n (TAtom a) | _ \<Rightarrow> atom_typed ty a)"
| "typed L ty (TPtr t) \<longleftrightarrow> (case ty of TyLib n \<Rightarrow> L n (TPtr t) | TyPtr e \<Rightarrow> pred_option (typed L e) t | _ \<Rightarrow> False)"
| "typed L ty (TSlice ts) \<longleftrightarrow>
     (case ty of TyLib n \<Rightarrow> L n (TSlice ts) | TySlice e \<Rightarrow> pred_option (list_all (typed L e)) ts | _ \<Rightarrow> False)"
| "typed L ty (TMap ts) \<longleftrightarrow>
     (case ty of TyLib n \<Rightarrow> L n (TMap ts) | TyMap e \<Rightarrow> pred_option (list_all (\<lambda>p. typed L e (snd p))) ts | _ \<Rightarrow> False)"
| "typed L ty (TStruct ts) \<longleftrightarrow>
     (case ty of TyLib n \<Rightarrow> L n (TStruct ts)
      | TyStruct s \<Rightarrow> map fst ts = map fst (structFields s) \<and> list_all2 (\<lambda>p q. typed L (snd q) (snd p)) ts (structFields s)
      | _ \<Rightarrow> False)"

text \<open>The contract for the values of a type with less than \<open>n\<close> nodes.\<close>

definition copies_type :: "(string \<Rightarrow> tree \<Rightarrow> bool) \<Rightarrow> nat \<Rightarrow> gotype \<Rightarrow> copy_fun \<Rightarrow> bool" where
  "copies_type L n ty f \<longleftrightarrow> copier (\<lambda>t. typed L ty t \<and> size t < n) f"

definition flat_type :: "(string \<Rightarrow> tree \<Rightarrow> bool) \<Rightarrow> gotype \<Rightarrow> bool" where
  "flat_type L ty \<longleftrightarrow> (\<forall>t. typed L ty t \<longrightarrow> flat t)"

lemma part_size:
  "t \<in> set ts \<Longrightarrow> size t < size (TSlice (Some ts))"
  "(k, t) \<in> set kts \<Longrightarrow> size t < size (TMap (Some kts))"
  "(k, t) \<in> set kts \<Longrightarrow> size t < size (TStruct kts)"
  by (induction ts, auto) (induction kts, auto)+

lemma typed_parts:
  "typed L (TyPtr e) t \<and> size t < n \<Longrightarrow> ptr_tree (\<lambda>u. typed L e u \<and> size u < n) t"
  "typed L (TySlice e) t \<and> size t < n \<Longrightarrow> slice_tree (\<lambda>u. typed L e u \<and> size u < n) t"
  "typed L (TyMap e) t \<and> size t < n \<Longrightarrow> map_tree (\<lambda>u. typed L e u \<and> size u < n) t"
proof -
  show "typed L (TyPtr e) t \<and> size t < n \<Longrightarrow> ptr_tree (\<lambda>u. typed L e u \<and> size u < n) t"
    by (cases t) (auto simp: option.pred_set)
  show "typed L (TySlice e) t \<and> size t < n \<Longrightarrow> slice_tree (\<lambda>u. typed L e u \<and> size u < n) t"
    using part_size(1) by (cases t) (fastforce simp: option.pred_set list_all_iff)+
  show "typed L (TyMap e) t \<and> size t < n \<Longrightarrow> map_tree (\<lambda>u. typed L e u \<and> size u < n) t"
    using part_size(2) by (cases t) (fastforce simp: option.pred_set list_all_iff)+
qed

lemma copyPtr_type: "copies_type L n e f \<Longrightarrow> copies_type L n (TyPtr e) (copyPtr f)"
  unfolding copies_type_def by (rule copier_mono [OF copier.copyPtr_copies typed_parts(1)])

lemma copySlice_type: "copies_type L n e f \<Longrightarrow> copies_type L n (TySlice e) (copySlice f)"
  unfolding copies_type_def by (rule copier_mono [OF copier.copySlice_copies typed_parts(2)])

lemma copyMap_type: "copies_type L n e f \<Longrightarrow> copies_type L n (TyMap e) (copyMap f)"
  unfolding copies_type_def by (rule copier_mono [OF copier.copyMap_copies typed_parts(3)])

lemma assign_type: "flat_type L ty \<Longrightarrow> copies_type L n ty assign_val"
  unfolding copies_type_def flat_type_def by (rule assign_copies) simp

lemma copyVal_type: "copies_type L n ty f \<Longrightarrow> copies_type L n ty (copyVal f)"
  unfolding copies_type_def by (rule copier.copyVal_copies)

lemma struct_trees:
  assumes "typed L (TyStruct s) t" "distinct (map fst (structFields s))"
  obtains ts where "t = TStruct ts" "map fst ts = map fst (structFields s)"
    "\<And>k u. map_of ts k = Some u \<Longrightarrow> \<exists>ty. (k, ty) \<in> set (structFields s) \<and> typed L ty u"
proof (cases t)
  case (TAtom a)
  with assms(1) show ?thesis by (cases a) simp_all
next
  case (TStruct ts)
  with assms(1) have m: "map fst ts = map fst (structFields s)" and
    a: "list_all2 (\<lambda>p q. typed L (snd q) (snd p)) ts (structFields s)" by simp_all
  have "\<exists>ty. (k, ty) \<in> set (structFields s) \<and> typed L ty u" if "map_of ts k = Some u" for k u
  proof -
    from map_of_SomeD [OF that] obtain i where i: "i < length ts" "ts ! i = (k, u)" by (meson in_set_conv_nth)
    with a have "typed L (snd (structFields s ! i)) u" "i < length (structFields s)"
      by (auto simp: list_all2_conv_all_nth)
    moreover have "fst (structFields s ! i) = k" using m i by (metis calculation(2) fst_conv nth_map)
    ultimately show ?thesis by (metis nth_mem prod.collapse)
  qed
  with that TStruct m show ?thesis by blast
qed (use assms in simp_all)

lemma copyStruct_type:
  assumes names: "distinct (map fst (structFields s))" "distinct (map fst cs)" "fst ` set cs \<subseteq> fst ` set (structFields s)"
    and fields: "list_all (\<lambda>p. case map_of cs (fst p) of None \<Rightarrow> flat_type L (snd p) | Some f \<Rightarrow> copies_type L n (snd p) f) (structFields s)"
  shows "copies_type L (Suc n) (TyStruct s) (copyStruct cs)"
  unfolding copies_type_def
proof
  fix h v t
  assume h: "wf_memory h" and v: "old h v t" and t: "typed L (TyStruct s) t \<and> size t < Suc n"
  then obtain ts where ts: "t = TStruct ts" "map fst ts = map fst (structFields s)"
    and at: "\<And>k u. map_of ts k = Some u \<Longrightarrow> \<exists>ty. (k, ty) \<in> set (structFields s) \<and> typed L ty u"
    using struct_trees names(1) by metis
  obtain fs where fs: "v = GStruct fs" "map fst fs = map fst ts" using v ts(1) by (auto simp: denotes_iff)
  have d: "distinct (map fst ts)" using names(1) ts(2) by simp
  have small: "size u < n" if "map_of ts k = Some u" for k u
    using part_size(3) [OF map_of_SomeD [OF that]] t ts(1) by simp
  have copiers: "copier (\<lambda>w. w = u) f" if k: "(k, f) \<in> set cs" "map_of ts k = Some u" for k f u
  proof -
    obtain ty where ty: "(k, ty) \<in> set (structFields s)" "typed L ty u" using at [OF k(2)] by blast
    have "map_of cs k = Some f" using k(1) names(2) by simp
    with fields ty(1) have "copies_type L n ty f" by (auto simp: list_all_iff)
    then show ?thesis unfolding copies_type_def by (rule copier_mono) (use ty(2) small [OF k(2)] in simp)
  qed
  have others: "\<exists>w. map_of fs k = Some w \<and> fresh h h w u" if k: "map_of ts k = Some u" "k \<notin> fst ` set cs" for k u
  proof -
    obtain ty where ty: "(k, ty) \<in> set (structFields s)" "typed L ty u" using at [OF k(1)] by blast
    have "map_of cs k = None" using k(2) by (simp add: map_of_eq_None_iff)
    with fields ty have "flat u" by (auto simp: list_all_iff flat_type_def)
    moreover obtain w where "map_of fs k = Some w" "old h w u"
      using v k(1) unfolding ts(1) fs(1) denotes_struct [OF d] by blast
    ultimately show ?thesis using flat_denotes by blast
  qed
  have keys: "fst ` set cs \<subseteq> dom (map_of ts)"
    using names(3) ts(2) by (simp add: dom_map_of_conv_image_fst) (metis list.set_map)
  show "\<exists>v' h'. copyStruct cs v h = Some (v', h') \<and> grows h h' \<and> fresh h h' v' t"
    using copyFields_copies [OF d h grows_refl [OF h] _ names(2) keys copiers fs(2) others] v
    by (simp add: copyStruct_def fs(1) ts(1))
qed

subsection \<open>The generated functions\<close>

text \<open>The copy functions of the library types that the generated code calls.\<close>

record library =
  RawExtension_DeepCopyInto :: copy_fun
  ObjectMeta_DeepCopyInto :: copy_fun
  Time_DeepCopy :: copy_fun

text \<open>\<open>if in.F != nil { out.F = in.F.DeepCopy() }\<close>\<close>

definition unlessNil :: "copy_fun \<Rightarrow> copy_fun" where
  "unlessNil f v h = (if v = GPtr None then Some (v, h) else f v h)"

text \<open>A function \<open>DeepCopyInto\<close> is given the value of \<open>*in\<close> and returns the one it leaves in
  \<open>*out\<close>; \<open>DeepCopy\<close> is given and returns a pointer.\<close>

definition ClusterFilter_DeepCopyInto :: copy_fun where
  "ClusterFilter_DeepCopyInto = copyStruct [(''Labels'', copyMap assign_val)]"

definition ClusterFilter_DeepCopy :: copy_fun where
  "ClusterFilter_DeepCopy = copyPtr ClusterFilter_DeepCopyInto"

definition ConditionFilter_DeepCopyInto :: copy_fun where
  "ConditionFilter_DeepCopyInto = copyStruct []"

definition ConditionFilter_DeepCopy :: copy_fun where
  "ConditionFilter_DeepCopy = copyPtr ConditionFilter_DeepCopyInto"

definition CursorResult_DeepCopyInto :: copy_fun where
  "CursorResult_DeepCopyInto = copyStruct []"

definition CursorResult_DeepCopy :: copy_fun where
  "CursorResult_DeepCopy = copyPtr CursorResult_DeepCopyInto"

definition LabelExpression_DeepCopyInto :: copy_fun where
  "LabelExpression_DeepCopyInto = copyStruct [(''Values'', copySlice assign_val)]"

definition LabelExpression_DeepCopy :: copy_fun where
  "LabelExpression_DeepCopy = copyPtr LabelExpression_DeepCopyInto"

definition GroupKindFilter_DeepCopyInto :: copy_fun where
  "GroupKindFilter_DeepCopyInto = copyStruct []"

definition GroupKindFilter_DeepCopy :: copy_fun where
  "GroupKindFilter_DeepCopy = copyPtr GroupKindFilter_DeepCopyInto"

definition TimestampFilter_DeepCopyInto :: "library \<Rightarrow> copy_fun" where
  "TimestampFilter_DeepCopyInto lib = copyStruct
     [(''After'', unlessNil (Time_DeepCopy lib)), (''Before'', unlessNil (Time_DeepCopy lib))]"

definition TimestampFilter_DeepCopy :: "library \<Rightarrow> copy_fun" where
  "TimestampFilter_DeepCopy lib = copyPtr (TimestampFilter_DeepCopyInto lib)"

definition ObjectFilter_DeepCopyInto :: "library \<Rightarrow> copy_fun" where
  "ObjectFilter_DeepCopyInto lib = copyStruct
     [(''GroupKind'', copyPtr assign_val),
      (''Labels'', copyMap assign_val),
      (''LabelExpressions'', copySlice LabelExpression_DeepCopyInto),
      (''Conditions'', copySlice assign_val),
      (''CreationTimestamp'', copyPtr (TimestampFilter_DeepCopyInto lib)),
      (''Categories'', copySlice assign_val)]"

definition ObjectFilter_DeepCopy :: "library \<Rightarrow> copy_fun" where
  "ObjectFilter_DeepCopy lib = copyPtr (ObjectFilter_DeepCopyInto lib)"

primrec ObjectResult_DeepCopyInto :: "library \<Rightarrow> nat \<Rightarrow> copy_fun" where
  "ObjectResult_DeepCopyInto lib 0 = (\<lambda>v h. None)"
| "ObjectResult_DeepCopyInto lib (Suc n) = copyStruct
     [(''Object'', copyPtr (RawExtension_DeepCopyInto lib)),
      (''Relations'', copyMap (copySlice (ObjectResult_DeepCopyInto lib n)))]"

definition ObjectResult_DeepCopy :: "library \<Rightarrow> nat \<Rightarrow> copy_fun" where
  "ObjectResult_DeepCopy lib n = copyPtr (ObjectResult_DeepCopyInto lib n)"

fun ObjectsSpec_DeepCopyInto :: "library \<Rightarrow> nat \<Rightarrow> copy_fun"
  and RelationSpec_DeepCopyInto :: "library \<Rightarrow> nat \<Rightarrow> copy_fun" where
  "ObjectsSpec_DeepCopyInto lib 0 = (\<lambda>v h. None)"
| "ObjectsSpec_DeepCopyInto lib (Suc n) = copyStruct
     [(''Object'', copyPtr (RawExtension_DeepCopyInto lib)),
      (''Relations'', copyMap (copyVal (RelationSpec_DeepCopyInto lib n)))]"
| "RelationSpec_DeepCopyInto lib 0 = (\<lambda>v h. None)"
| "RelationSpec_DeepCopyInto lib (Suc n) = copyStruct
     [(''Filters'', copySlice (ObjectFilter_DeepCopyInto lib)),
      (''Objects'', copyPtr (ObjectsSpec_DeepCopyInto lib n))]"

definition ObjectsSpec_DeepCopy :: "library \<Rightarrow> nat \<Rightarrow> copy_fun" where
  "ObjectsSpec_DeepCopy lib n = copyPtr (ObjectsSpec_DeepCopyInto lib n)"

definition RelationSpec_DeepCopy :: "library \<Rightarrow> nat \<Rightarrow> copy_fun" where
  "RelationSpec_DeepCopy lib n = copyPtr (RelationSpec_DeepCopyInto lib n)"

definition OrderSpec_DeepCopyInto :: copy_fun where
  "OrderSpec_DeepCopyInto = copyStruct []"

definition OrderSpec_DeepCopy :: copy_fun where
  "OrderSpec_DeepCopy = copyPtr OrderSpec_DeepCopyInto"

definition PageSpec_DeepCopyInto :: copy_fun where
  "PageSpec_DeepCopyInto = copyStruct []"

definition PageSpec_DeepCopy :: copy_fun where
  "PageSpec_DeepCopy = copyPtr PageSpec_DeepCopyInto"

definition QueryFilter_DeepCopyInto :: "library \<Rightarrow> copy_fun" where
  "QueryFilter_DeepCopyInto lib = copyStruct [(''Objects'', copySlice (ObjectFilter_DeepCopyInto lib))]"

definition QueryFilter_DeepCopy :: "library \<Rightarrow> copy_fun" where
  "QueryFilter_DeepCopy lib = copyPtr (QueryFilter_DeepCopyInto lib)"

definition QuerySpec_DeepCopyInto :: "library \<Rightarrow> nat \<Rightarrow> copy_fun" where
  "QuerySpec_DeepCopyInto lib n = copyStruct
     [(''Cluster'', copyPtr ClusterFilter_DeepCopyInto),
      (''Filter'', copyPtr (QueryFilter_DeepCopyInto lib)),
      (''Page'', copyPtr assign_val),
      (''Order'', copySlice assign_val),
      (''Objects'', copyPtr (ObjectsSpec_DeepCopyInto lib n))]"

definition QuerySpec_DeepCopy :: "library \<Rightarrow> nat \<Rightarrow> copy_fun" where
  "QuerySpec_DeepCopy lib n = copyPtr (QuerySpec_DeepCopyInto lib n)"

definition QueryStatus_DeepCopyInto :: "library \<Rightarrow> nat \<Rightarrow> copy_fun" where
  "QueryStatus_DeepCopyInto lib n = copyStruct
     [(''Objects'', copySlice (ObjectResult_DeepCopyInto lib n)),
      (''Cursor'', copyPtr assign_val),
      (''Count'', copyPtr assign_val),
      (''Warnings'', copySlice assign_val)]"

definition QueryStatus_DeepCopy :: "library \<Rightarrow> nat \<Rightarrow> copy_fun" where
  "QueryStatus_DeepCopy lib n = copyPtr (QueryStatus_DeepCopyInto lib n)"

definition Query_DeepCopyInto :: "library \<Rightarrow> nat \<Rightarrow> copy_fun" where
  "Query_DeepCopyInto lib n = copyStruct
     [(''TypeMeta'', assign_val),
      (''ObjectMeta'', ObjectMeta_DeepCopyInto lib),
      (''Spec'', QuerySpec_DeepCopyInto lib n),
      (''Status'', QueryStatus_DeepCopyInto lib n)]"

definition Query_DeepCopy :: "library \<Rightarrow> nat \<Rightarrow> copy_fun" where
  "Query_DeepCopy lib n = copyPtr (Query_DeepCopyInto lib n)"

text \<open>\<open>DeepCopyObject\<close> returns an interface, which is nil when the copy is nil.\<close>

definition Query_DeepCopyObject :: "library \<Rightarrow> nat \<Rightarrow> gval \<Rightarrow> memory \<Rightarrow> (gval option \<times> memory) option" where
  "Query_DeepCopyObject lib n v h =
     Option.bind (Query_DeepCopy lib n v h) (\<lambda>(c, h'). Some (if c \<noteq> GPtr None then Some c else None, h'))"

subsection \<open>The copies keep the contract\<close>

lemma structFields_simps:
  "structFields ''Query'' =
     [(''TypeMeta'', TyLib ''TypeMeta''), (''ObjectMeta'', TyLib ''ObjectMeta''),
      (''Spec'', TyStruct ''QuerySpec''), (''Status'', TyStruct ''QueryStatus'')]"
  "structFields ''QuerySpec'' =
     [(''Cluster'', TyPtr (TyStruct ''ClusterFilter'')), (''Filter'', TyPtr (TyStruct ''QueryFilter'')),
      (''Limit'', TyInt32), (''Page'', TyPtr (TyStruct ''PageSpec'')),
      (''Order'', TySlice (TyStruct ''OrderSpec'')), (''Count'', TyBool), (''Cursor'', TyBool),
      (''MaxDepth'', TyInt32), (''Objects'', TyPtr (TyStruct ''ObjectsSpec''))]"
  "structFields ''ClusterFilter'' =
     [(''Name'', TyString), (''Labels'', TyMap TyString)]"
  "structFields ''QueryFilter'' =
     [(''Objects'', TySlice (TyStruct ''ObjectFilter''))]"
  "structFields ''ObjectFilter'' =
     [(''GroupKind'', TyPtr (TyStruct ''GroupKindFilter'')), (''Name'', TyString),
      (''Namespace'', TyString), (''Labels'', TyMap TyString),
      (''LabelExpressions'', TySlice (TyStruct ''LabelExpression'')),
      (''Conditions'', TySlice (TyStruct ''ConditionFilter'')),
      (''CreationTimestamp'', TyPtr (TyStruct ''TimestampFilter'')), (''ID'', TyString),
      (''JSONPath'', TyString), (''Categories'', TySlice TyString)]"
  "structFields ''GroupKindFilter'' =
     [(''APIGroup'', TyString), (''Kind'', TyString)]"
  "structFields ''LabelExpression'' =
     [(''Key'', TyString), (''Operator'', TyString), (''Values'', TySlice TyString)]"
  "structFields ''ConditionFilter'' =
     [(''Type'', TyString), (''Status'', TyString), (''Reason'', TyString)]"
  "structFields ''TimestampFilter'' =
     [(''After'', TyPtr (TyLib ''Time'')), (''Before'', TyPtr (TyLib ''Time''))]"
  "structFields ''PageSpec'' =
     [(''First'', TyInt32), (''Cursor'', TyString)]"
  "structFields ''OrderSpec'' =
     [(''Field'', TyString), (''Direction'', TyString)]"
  "structFields ''ObjectsSpec'' =
     [(''ID'', TyBool), (''Cluster'', TyBool), (''MutablePath'', TyBool),
      (''Object'', TyPtr (TyLib ''RawExtension'')), (''Relations'', TyMap (TyStruct ''RelationSpec''))]"
  "structFields ''RelationSpec'' =
     [(''Limit'', TyInt32), (''Filters'', TySlice (TyStruct ''ObjectFilter'')),
      (''Objects'', TyPtr (TyStruct ''ObjectsSpec''))]"
  "structFields ''QueryStatus'' =
     [(''Objects'', TySlice (TyStruct ''ObjectResult'')), (''Cursor'', TyPtr (TyStruct ''CursorResult'')),
      (''Count'', TyPtr TyInt64), (''Incomplete'', TyBool), (''Warnings'', TySlice TyString)]"
  "structFields ''ObjectResult'' =
     [(''ID'', TyString), (''Cluster'', TyString), (''MutablePath'', TyString),
      (''Object'', TyPtr (TyLib ''RawExtension'')),
      (''Relations'', TyMap (TySlice (TyStruct ''ObjectResult'')))]"
  "structFields ''CursorResult'' =
     [(''Next'', TyString), (''Page'', TyInt32), (''PageSize'', TyInt32)]"
  by (simp_all add: structFields_def)

lemma typed_lib [simp]: "typed L (TyLib n) t \<longleftrightarrow> L n t"
  by (cases t) simp_all

lemma basic_flat:
  "flat_type L TyBool" "flat_type L TyInt32" "flat_type L TyInt64" "flat_type L TyString"
  by (unfold flat_type_def, intro allI, rename_tac t, case_tac t; simp)+

lemma flat_struct:
  assumes "distinct (map fst (structFields s))" "list_all (\<lambda>p. flat_type L (snd p)) (structFields s)"
  shows "flat_type L (TyStruct s)"
  unfolding flat_type_def
proof (intro allI impI)
  fix t
  assume "typed L (TyStruct s) t"
  from struct_trees [OF this assms(1)] obtain ts where ts: "t = TStruct ts" "map fst ts = map fst (structFields s)"
    and at: "\<And>k u. map_of ts k = Some u \<Longrightarrow> \<exists>ty. (k, ty) \<in> set (structFields s) \<and> typed L ty u" by metis
  have "flat u" if "(k, u) \<in> set ts" for k u
    using that at [of k u] assms ts(2) by (auto simp: list_all_iff flat_type_def)
  then show "flat t" by (auto simp: ts(1) list_all_iff)
qed

locale api_library =
  fixes L :: "string \<Rightarrow> tree \<Rightarrow> bool" and lib :: library
  assumes raw: "copier (L ''RawExtension'') (RawExtension_DeepCopyInto lib)"
    and meta: "copier (L ''ObjectMeta'') (ObjectMeta_DeepCopyInto lib)"
    and time: "copier (\<lambda>t. \<exists>u. t = TPtr (Some u) \<and> L ''Time'' u) (Time_DeepCopy lib)"
    and typemeta: "L ''TypeMeta'' t \<Longrightarrow> flat t"
begin

lemma struct_copies:
  assumes "distinct (map fst (structFields s))" "distinct (map fst cs)" "fst ` set cs \<subseteq> fst ` set (structFields s)"
    and "list_all (\<lambda>p. case map_of cs (fst p) of None \<Rightarrow> flat_type L (snd p) | Some f \<Rightarrow> copies_type L n (snd p) f) (structFields s)"
  shows "copies_type L n (TyStruct s) (copyStruct cs)"
  unfolding copies_type_def
  by (rule copier_mono [OF copyStruct_type [OF assms, unfolded copies_type_def]]) simp_all

lemma lib_copies:
  "copies_type L n (TyLib ''RawExtension'') (RawExtension_DeepCopyInto lib)"
  "copies_type L n (TyLib ''ObjectMeta'') (ObjectMeta_DeepCopyInto lib)"
  "copies_type L n (TyLib ''TypeMeta'') assign_val"
  "copies_type L n (TyPtr (TyLib ''Time'')) (unlessNil (Time_DeepCopy lib))"
proof -
  show "copies_type L n (TyLib ''RawExtension'') (RawExtension_DeepCopyInto lib)"
    "copies_type L n (TyLib ''ObjectMeta'') (ObjectMeta_DeepCopyInto lib)"
    unfolding copies_type_def by (rule copier_mono [OF raw], simp) (rule copier_mono [OF meta], simp)
  show "copies_type L n (TyLib ''TypeMeta'') assign_val" by (rule assign_type) (simp add: flat_type_def typemeta)
  show "copies_type L n (TyPtr (TyLib ''Time'')) (unlessNil (Time_DeepCopy lib))"
    unfolding copies_type_def
  proof
    fix h v t
    assume h: "wf_memory h" "old h v t" "typed L (TyPtr (TyLib ''Time'')) t \<and> size t < n"
    then obtain to where t: "t = TPtr to" "pred_option (L ''Time'') to" by (cases t) (auto simp: option.pred_set)
    show "\<exists>v' h'. unlessNil (Time_DeepCopy lib) v h = Some (v', h') \<and> grows h h' \<and> fresh h h' v' t"
    proof (cases to)
      case None
      with t h show ?thesis by (simp add: unlessNil_def grows_refl)
    next
      case (Some u)
      with t h(2) have "v \<noteq> GPtr None" by (auto simp: denotes_iff)
      with copier.copy [OF time h(1,2)] t Some show ?thesis by (simp add: unlessNil_def)
    qed
  qed
qed

lemma flat_structs:
  "flat_type L (TyStruct ''GroupKindFilter'')" "flat_type L (TyStruct ''ConditionFilter'')" "flat_type L (TyStruct ''PageSpec'')"
  "flat_type L (TyStruct ''OrderSpec'')" "flat_type L (TyStruct ''CursorResult'')"
  by (rule flat_struct; simp add: structFields_simps basic_flat)+

lemmas idioms = assign_type copyPtr_type copySlice_type copyMap_type lib_copies basic_flat flat_structs

lemma leaf_copies:
  "copies_type L n (TyStruct ''ClusterFilter'') ClusterFilter_DeepCopyInto"
  "copies_type L n (TyStruct ''ConditionFilter'') ConditionFilter_DeepCopyInto"
  "copies_type L n (TyStruct ''CursorResult'') CursorResult_DeepCopyInto"
  "copies_type L n (TyStruct ''LabelExpression'') LabelExpression_DeepCopyInto"
  "copies_type L n (TyStruct ''GroupKindFilter'') GroupKindFilter_DeepCopyInto"
  "copies_type L n (TyStruct ''OrderSpec'') OrderSpec_DeepCopyInto"
  "copies_type L n (TyStruct ''PageSpec'') PageSpec_DeepCopyInto"
  "copies_type L n (TyStruct ''TimestampFilter'') (TimestampFilter_DeepCopyInto lib)"
  unfolding ClusterFilter_DeepCopyInto_def ConditionFilter_DeepCopyInto_def CursorResult_DeepCopyInto_def
    LabelExpression_DeepCopyInto_def GroupKindFilter_DeepCopyInto_def OrderSpec_DeepCopyInto_def PageSpec_DeepCopyInto_def
    TimestampFilter_DeepCopyInto_def
  by (rule struct_copies; simp add: structFields_simps idioms)+

lemma filter_copies:
  "copies_type L n (TyStruct ''ObjectFilter'') (ObjectFilter_DeepCopyInto lib)"
  "copies_type L n (TyStruct ''QueryFilter'') (QueryFilter_DeepCopyInto lib)"
proof -
  show f: "copies_type L n (TyStruct ''ObjectFilter'') (ObjectFilter_DeepCopyInto lib)"
    unfolding ObjectFilter_DeepCopyInto_def by (rule struct_copies; simp add: structFields_simps idioms leaf_copies)
  show "copies_type L n (TyStruct ''QueryFilter'') (QueryFilter_DeepCopyInto lib)"
    unfolding QueryFilter_DeepCopyInto_def by (rule struct_copies; simp add: structFields_simps idioms f)
qed

lemma ObjectResult_copies: "copies_type L n (TyStruct ''ObjectResult'') (ObjectResult_DeepCopyInto lib n)"
proof (induction n)
  case 0
  then show ?case by (simp add: copies_type_def copier_def)
next
  case (Suc n)
  then show ?case
    unfolding ObjectResult_DeepCopyInto.simps by (intro copyStruct_type; simp add: structFields_simps idioms)
qed

lemma ObjectsSpec_copies:
  "copies_type L n (TyStruct ''ObjectsSpec'') (ObjectsSpec_DeepCopyInto lib n)"
  "copies_type L n (TyStruct ''RelationSpec'') (RelationSpec_DeepCopyInto lib n)"
proof (induction n)
  case 0
  show "copies_type L 0 (TyStruct ''ObjectsSpec'') (ObjectsSpec_DeepCopyInto lib 0)"
    "copies_type L 0 (TyStruct ''RelationSpec'') (RelationSpec_DeepCopyInto lib 0)"
    by (simp_all add: copies_type_def copier_def)
next
  case (Suc n)
  then show "copies_type L (Suc n) (TyStruct ''ObjectsSpec'') (ObjectsSpec_DeepCopyInto lib (Suc n))"
    "copies_type L (Suc n) (TyStruct ''RelationSpec'') (RelationSpec_DeepCopyInto lib (Suc n))"
    unfolding ObjectsSpec_DeepCopyInto.simps RelationSpec_DeepCopyInto.simps
    by (intro copyStruct_type; simp add: structFields_simps idioms filter_copies copyVal_type)+
qed

lemma query_copies:
  "copies_type L n (TyStruct ''QuerySpec'') (QuerySpec_DeepCopyInto lib n)"
  "copies_type L n (TyStruct ''QueryStatus'') (QueryStatus_DeepCopyInto lib n)"
  "copies_type L n (TyStruct ''Query'') (Query_DeepCopyInto lib n)"
proof -
  show q: "copies_type L n (TyStruct ''QuerySpec'') (QuerySpec_DeepCopyInto lib n)"
    "copies_type L n (TyStruct ''QueryStatus'') (QueryStatus_DeepCopyInto lib n)"
    unfolding QuerySpec_DeepCopyInto_def QueryStatus_DeepCopyInto_def
    by (rule struct_copies; simp add: structFields_simps idioms leaf_copies filter_copies ObjectsSpec_copies ObjectResult_copies)+
  show "copies_type L n (TyStruct ''Query'') (Query_DeepCopyInto lib n)"
    unfolding Query_DeepCopyInto_def by (rule struct_copies; simp add: structFields_simps idioms q)
qed

end

text \<open>All of them: the name of a struct, its \<open>DeepCopyInto\<close> and its \<open>DeepCopy\<close>.\<close>

definition generated :: "library \<Rightarrow> nat \<Rightarrow> (string \<times> copy_fun \<times> copy_fun) list" where
  "generated lib n =
     [(''ClusterFilter'', ClusterFilter_DeepCopyInto, ClusterFilter_DeepCopy),
      (''ConditionFilter'', ConditionFilter_DeepCopyInto, ConditionFilter_DeepCopy),
      (''CursorResult'', CursorResult_DeepCopyInto, CursorResult_DeepCopy),
      (''LabelExpression'', LabelExpression_DeepCopyInto, LabelExpression_DeepCopy),
      (''GroupKindFilter'', GroupKindFilter_DeepCopyInto, GroupKindFilter_DeepCopy),
      (''ObjectFilter'', ObjectFilter_DeepCopyInto lib, ObjectFilter_DeepCopy lib),
      (''ObjectResult'', ObjectResult_DeepCopyInto lib n, ObjectResult_DeepCopy lib n),
      (''ObjectsSpec'', ObjectsSpec_DeepCopyInto lib n, ObjectsSpec_DeepCopy lib n),
      (''OrderSpec'', OrderSpec_DeepCopyInto, OrderSpec_DeepCopy),
      (''PageSpec'', PageSpec_DeepCopyInto, PageSpec_DeepCopy),
      (''Query'', Query_DeepCopyInto lib n, Query_DeepCopy lib n),
      (''QueryFilter'', QueryFilter_DeepCopyInto lib, QueryFilter_DeepCopy lib),
      (''QuerySpec'', QuerySpec_DeepCopyInto lib n, QuerySpec_DeepCopy lib n),
      (''QueryStatus'', QueryStatus_DeepCopyInto lib n, QueryStatus_DeepCopy lib n),
      (''RelationSpec'', RelationSpec_DeepCopyInto lib n, RelationSpec_DeepCopy lib n),
      (''TimestampFilter'', TimestampFilter_DeepCopyInto lib, TimestampFilter_DeepCopy lib)]"

lemma generated_new: "(s, into, new) \<in> set (generated lib n) \<Longrightarrow> new = copyPtr into"
  by (auto simp: generated_def ClusterFilter_DeepCopy_def ConditionFilter_DeepCopy_def CursorResult_DeepCopy_def
      LabelExpression_DeepCopy_def GroupKindFilter_DeepCopy_def ObjectFilter_DeepCopy_def ObjectResult_DeepCopy_def
      ObjectsSpec_DeepCopy_def OrderSpec_DeepCopy_def PageSpec_DeepCopy_def Query_DeepCopy_def QueryFilter_DeepCopy_def
      QuerySpec_DeepCopy_def QueryStatus_DeepCopy_def RelationSpec_DeepCopy_def TimestampFilter_DeepCopy_def)

context api_library begin

lemma generated_copies: "(s, into, new) \<in> set (generated lib n) \<Longrightarrow> copies_type L n (TyStruct s) into"
  by (auto simp: generated_def leaf_copies filter_copies ObjectResult_copies ObjectsSpec_copies query_copies)

end

sublocale api_library \<subseteq> query: copier "\<lambda>t. typed L (TyStruct ''Query'') t \<and> size t < n" "Query_DeepCopyInto lib n" for n
  using query_copies(3) [of n] by (simp add: copies_type_def)

text \<open>A library for examples: metadata are maps of atoms, extensions slices of bytes, times atoms.\<close>

definition sample_types :: "string \<Rightarrow> tree \<Rightarrow> bool" where
  "sample_types n t =
     (if n = ''RawExtension'' then slice_tree flat t else if n = ''ObjectMeta'' then map_tree flat t else flat t)"

definition sample_library :: library where
  "sample_library = \<lparr>RawExtension_DeepCopyInto = copySlice assign_val, ObjectMeta_DeepCopyInto = copyMap assign_val,
     Time_DeepCopy = copyPtr assign_val\<rparr>"

interpretation sample: api_library sample_types sample_library
proof (rule api_library.intro)
  have a: "copier flat assign_val" by (rule assign_copies)
  show "copier (sample_types ''RawExtension'') (RawExtension_DeepCopyInto sample_library)"
    "copier (sample_types ''ObjectMeta'') (ObjectMeta_DeepCopyInto sample_library)"
    using copier.copySlice_copies [OF a] copier.copyMap_copies [OF a] by (simp_all add: sample_library_def sample_types_def [abs_def])
  show "copier (\<lambda>t. \<exists>u. t = TPtr (Some u) \<and> sample_types ''Time'' u) (Time_DeepCopy sample_library)"
    using copier.copyPtr_copies [OF a]
    by (auto simp: sample_library_def sample_types_def intro: copier_mono)
qed (simp add: sample_types_def)

subsection \<open>Properties\<close>

text \<open>C16. Deep copies are well typed and total: every generated \<open>DeepCopyInto\<close> and \<open>DeepCopy\<close>
  returns, without a panic, for every value of its type that is not cyclic, and the result
  represents the same tree, hence a value of the same type; a nil pointer is copied to nil.\<close>

theorem deep_copies_typed:
  assumes "api_library L lib" and "(s, into, new) \<in> set (generated lib n)" and "wf_memory h"
    and "typed L (TyStruct s) t" and "size t < n"
  shows "(old h v t \<longrightarrow> (\<exists>v' h'. into v h = Some (v', h') \<and> wf_memory h' \<and> denotes (m_cells h') UNIV v' t)) \<and>
    (old h (GPtr (Some p)) (TPtr (Some t)) \<longrightarrow>
       (\<exists>q h'. new (GPtr (Some p)) h = Some (GPtr (Some q), h') \<and> wf_memory h' \<and>
          denotes (m_cells h') UNIV (GPtr (Some q)) (TPtr (Some t)))) \<and>
    new (GPtr None) h = Some (GPtr None, h)"
proof (intro conjI impI)
  have c: "copier (\<lambda>t. typed L (TyStruct s) t \<and> size t < n) into"
    using api_library.generated_copies [OF assms(1,2)] by (simp add: copies_type_def)
  have any: "fresh h h' v' u \<Longrightarrow> denotes (m_cells h') UNIV v' u" for h' v' u by (rule denotes_local) auto
  show "\<exists>v' h'. into v h = Some (v', h') \<and> wf_memory h' \<and> denotes (m_cells h') UNIV v' t" if "old h v t"
    using copier.copy [OF c assms(3) that] assms(4,5) any by (auto simp: grows_def)
  show "\<exists>q h'. new (GPtr (Some p)) h = Some (GPtr (Some q), h') \<and> wf_memory h' \<and>
      denotes (m_cells h') UNIV (GPtr (Some q)) (TPtr (Some t))" if o: "old h (GPtr (Some p)) (TPtr (Some t))"
  proof -
    obtain w h' where "copyPtr into (GPtr (Some p)) h = Some (w, h')" "wf_memory h'" "denotes (m_cells h') UNIV w (TPtr (Some t))"
      using copier.copy [OF copier.copyPtr_copies [OF c] assms(3) o] assms(4,5) any by (auto simp: grows_def)
    then show ?thesis by (auto simp: generated_new [OF assms(2)] denotes_iff)
  qed
  show "new (GPtr None) h = Some (GPtr None, h)" by (simp add: generated_new [OF assms(2)] copyPtr_def)
qed

definition sample_memory :: memory where
  "sample_memory = \<lparr>m_cells = [0 \<mapsto> CVar (GStruct [(''Name'', GAtom (AStr ''east'')), (''Labels'', GMap (Some 1))]),
     1 \<mapsto> CMapping [(''env'', GAtom (AStr ''prod''))]], m_next = 2\<rparr>"

definition sample_tree :: tree where
  "sample_tree = TStruct [(''Name'', TAtom (AStr ''east'')), (''Labels'', TMap (Some [(''env'', TAtom (AStr ''prod''))]))]"

lemma sample_facts:
  "wf_memory sample_memory" "typed sample_types (TyStruct ''ClusterFilter'') sample_tree"
  "old sample_memory (GPtr (Some 0)) (TPtr (Some sample_tree))"
  by (simp_all add: wf_memory_def sample_memory_def sample_tree_def structFields_simps denotes_iff)

theorem deep_copies_typed_witness:
  "\<exists>q h'. ClusterFilter_DeepCopy (GPtr (Some 0)) sample_memory = Some (GPtr (Some q), h') \<and>
     denotes (m_cells h') UNIV (GPtr (Some q)) (TPtr (Some sample_tree))"
proof -
  have "(''ClusterFilter'', ClusterFilter_DeepCopyInto, ClusterFilter_DeepCopy) \<in> set (generated sample_library (Suc (size sample_tree)))"
    by (simp add: generated_def)
  from deep_copies_typed [OF sample.api_library_axioms this sample_facts(1,2) lessI] sample_facts(3) show ?thesis by blast
qed

text \<open>A program that holds a value can write the cells that the value reaches, and cells it
  allocates later. The copy of a query reaches only cells that are not older than the copy.\<close>

definition write_all :: "(nat \<times> cell) list \<Rightarrow> cells \<Rightarrow> cells" where
  "write_all ws h = foldl (\<lambda>h w. h(fst w \<mapsto> snd w)) h ws"

lemma write_all_other: "a \<notin> fst ` set ws \<Longrightarrow> write_all ws h a = h a"
  unfolding write_all_def by (induction ws arbitrary: h) auto

text \<open>C14. A deep copy of a query shares no memory with the original: \<open>DeepCopyObject\<close> returns a
  pointer to a query that represents the same tree, no cell of the original changes, any
  sequence of writes through the copy or to newer cells leaves the original as it was, and any
  sequence of writes through the original leaves the copy as it was. The defaults that
  \<open>Validate\<close> writes and the status that \<open>Create\<close> writes are such writes.\<close>

theorem query_copy_independent:
  assumes "api_library L lib" and "wf_memory h" and "old h (GPtr (Some p)) (TPtr (Some t))"
    and "typed L (TyStruct ''Query'') t" and "size t < n"
  shows "\<exists>q h'. Query_DeepCopyObject lib n (GPtr (Some p)) h = Some (Some (GPtr (Some q)), h') \<and>
    m_next h \<le> q \<and> (\<forall>a < m_next h. m_cells h' a = m_cells h a) \<and>
    denotes (m_cells h') UNIV (GPtr (Some q)) (TPtr (Some t)) \<and>
    (\<forall>ws. (\<forall>w \<in> set ws. m_next h \<le> fst w) \<longrightarrow> denotes (write_all ws (m_cells h')) UNIV (GPtr (Some p)) (TPtr (Some t))) \<and>
    (\<forall>ws. (\<forall>w \<in> set ws. fst w < m_next h) \<longrightarrow> denotes (write_all ws (m_cells h')) UNIV (GPtr (Some q)) (TPtr (Some t)))"
proof -
  have "copier (\<lambda>t. typed L (TyStruct ''Query'') t \<and> size t < n) (Query_DeepCopyInto lib n)"
    using api_library.query_copies(3) [OF assms(1), of n] by (simp add: copies_type_def)
  then have c: "copier (ptr_tree (\<lambda>t. typed L (TyStruct ''Query'') t \<and> size t < n)) (Query_DeepCopy lib n)"
    unfolding Query_DeepCopy_def by (rule copier.copyPtr_copies)
  have P: "ptr_tree (\<lambda>t. typed L (TyStruct ''Query'') t \<and> size t < n) (TPtr (Some t))" using assms(4,5) by simp
  obtain v' h' where v': "Query_DeepCopy lib n (GPtr (Some p)) h = Some (v', h')" "grows h h'" "fresh h h' v' (TPtr (Some t))"
    using copier.copy [OF c assms(2,3) P] by blast
  obtain q where q: "v' = GPtr (Some q)" "m_next h \<le> q" using v'(3) by (auto simp: denotes_iff)
  have widen: "denotes g A v u \<Longrightarrow> denotes g UNIV v u" for g A v u by (rule denotes_local) auto
  have keep: "denotes (write_all ws (m_cells h')) UNIV v u"
    if "denotes (m_cells h') A v u" "\<forall>w \<in> set ws. fst w \<notin> A" for ws A v u
    using that(2) by (intro denotes_local [OF _ subset_UNIV that(1)] write_all_other [symmetric]) blast
  have "denotes (m_cells h') {..<m_next h} (GPtr (Some p)) (TPtr (Some t))"
    using v'(2) by (intro denotes_local [OF _ subset_refl assms(3)]) (simp add: grows_def)
  from keep [OF this] have orig: "denotes (write_all ws (m_cells h')) UNIV (GPtr (Some p)) (TPtr (Some t))"
    if "\<forall>w \<in> set ws. m_next h \<le> fst w" for ws using that by force
  from keep [OF v'(3)] have new: "denotes (write_all ws (m_cells h')) UNIV v' (TPtr (Some t))"
    if "\<forall>w \<in> set ws. fst w < m_next h" for ws using that by force
  show ?thesis
    using v' q orig new widen [OF v'(3)] by (auto simp: Query_DeepCopyObject_def grows_def)
qed

definition sample_query :: gval where
  "sample_query = GStruct [(''TypeMeta'', GAtom (AStr ''Query'')), (''ObjectMeta'', GMap None),
     (''Spec'', GStruct [(''Cluster'', GPtr (Some 0)), (''Filter'', GPtr None), (''Limit'', GAtom (AInt 0)), (''Page'', GPtr None),
        (''Order'', GSlice None), (''Count'', GAtom (ABool False)), (''Cursor'', GAtom (ABool False)),
        (''MaxDepth'', GAtom (AInt 0)), (''Objects'', GPtr None)]),
     (''Status'', GStruct [(''Objects'', GSlice None), (''Cursor'', GPtr None), (''Count'', GPtr None),
        (''Incomplete'', GAtom (ABool False)), (''Warnings'', GSlice None)])]"

definition sample_query_tree :: tree where
  "sample_query_tree = TStruct [(''TypeMeta'', TAtom (AStr ''Query'')), (''ObjectMeta'', TMap None),
     (''Spec'', TStruct [(''Cluster'', TPtr (Some sample_tree)), (''Filter'', TPtr None), (''Limit'', TAtom (AInt 0)), (''Page'', TPtr None),
        (''Order'', TSlice None), (''Count'', TAtom (ABool False)), (''Cursor'', TAtom (ABool False)),
        (''MaxDepth'', TAtom (AInt 0)), (''Objects'', TPtr None)]),
     (''Status'', TStruct [(''Objects'', TSlice None), (''Cursor'', TPtr None), (''Count'', TPtr None),
        (''Incomplete'', TAtom (ABool False)), (''Warnings'', TSlice None)])]"

definition query_memory :: memory where
  "query_memory = \<lparr>m_cells = (m_cells sample_memory)(2 \<mapsto> CVar sample_query), m_next = 3\<rparr>"

lemma query_memory_facts:
  "wf_memory query_memory" "typed sample_types (TyStruct ''Query'') sample_query_tree"
  "old query_memory (GPtr (Some 2)) (TPtr (Some sample_query_tree))"
  by (simp_all add: wf_memory_def query_memory_def sample_memory_def sample_query_def sample_query_tree_def sample_tree_def
      sample_types_def structFields_simps denotes_iff)

text \<open>The spec of the copy is overwritten; the original keeps its cluster filter.\<close>

theorem query_copy_independent_witness:
  "\<exists>q h'. Query_DeepCopyObject sample_library 100 (GPtr (Some 2)) query_memory = Some (Some (GPtr (Some q)), h') \<and>
     denotes (write_all [(q, CVar (GAtom (AInt 0)))] (m_cells h')) UNIV (GPtr (Some 2)) (TPtr (Some sample_query_tree))"
proof -
  have "size sample_query_tree < 100" by (simp add: sample_query_tree_def sample_tree_def)
  from query_copy_independent [OF sample.api_library_axioms query_memory_facts(1,3,2) this]
  obtain q h' where "Query_DeepCopyObject sample_library 100 (GPtr (Some 2)) query_memory = Some (Some (GPtr (Some q)), h')"
    "m_next query_memory \<le> q" "\<forall>ws. (\<forall>w \<in> set ws. m_next query_memory \<le> fst w) \<longrightarrow>
      denotes (write_all ws (m_cells h')) UNIV (GPtr (Some 2)) (TPtr (Some sample_query_tree))" by blast
  moreover from this(2,3) have "denotes (write_all [(q, CVar (GAtom (AInt 0)))] (m_cells h')) UNIV (GPtr (Some 2)) (TPtr (Some sample_query_tree))"
    by simp
  ultimately show ?thesis by blast
qed

end
