(* ===== verification/Spec2Isabelle.thy ===== *)
theory Spec2Isabelle
  imports Query_Engine Cursor_Semantics Subquery_Semantics Synced_Objects Garbage_Collector Sync_Kcp Crd_Watch
    Query_Metrics Api_Server Deep_Copy
begin

text \<open>
  Verification library of kuery (\<^verbatim>\<open>src/\<close>), a query service over the objects of many
  Kubernetes clusters. A sync controller copies the objects of every engaged cluster into
  an SQL database; a query, posted as a \<open>Query\<close> resource, is translated into one SQL
  statement, executed, and answered with a tree of objects and their relations.

  \<^bold>\<open>The parts and their theories.\<close>

  \<^item> \<open>Kuery_Prelude\<close>: results and errors (\<open>kerror\<close>, \<open>'a result\<close>), the functions of package
    \<open>strings\<close> and the verbs of \<open>fmt.Sprintf\<close> that the sources use, and the count of
    placeholders in a statement. \<open>Go_Json\<close> and \<open>Go_Marshal\<close>: \<open>encoding/json\<close> and base64,
    with the lemmas that decoding undoes encoding.
  \<^item> Read path. \<open>Query_Types\<close>: the structs of \<^verbatim>\<open>apis/query/v1alpha1/types.go\<close>.
    \<open>Query_Validate\<close>: \<^verbatim>\<open>engine/validate.go\<close>. \<open>Query_Projection\<close>: \<^verbatim>\<open>engine/projection.go\<close>.
    \<open>Ref_Paths\<close>: \<^verbatim>\<open>engine/refs.go\<close>. \<open>Query_Relations\<close>: \<^verbatim>\<open>engine/relations.go\<close>.
    \<open>Query_Transitive\<close>: \<^verbatim>\<open>engine/transitive.go\<close>. \<open>Sql_Filters\<close> and \<open>Sql_Generator\<close>:
    \<^verbatim>\<open>engine/generator.go\<close>, the clauses and the two statement builders; the breadth-first
    traversal of the relations is a state machine (\<open>bfsStep\<close>, \<open>bfs\<close>, \<open>bfs_reachable\<close>).
    \<open>Result_Tree\<close>: \<^verbatim>\<open>engine/tree.go\<close>, from rows to trees. \<open>Query_Engine\<close>:
    \<^verbatim>\<open>engine/engine.go\<close> and the handler of \<^verbatim>\<open>server/handler.go\<close>. \<open>Query_Metrics\<close>:
    \<^verbatim>\<open>metrics/metrics.go\<close> and the engine with its metrics. \<open>Deep_Copy\<close>:
    \<^verbatim>\<open>zz_generated.deepcopy.go\<close>, over an explicit memory.
  \<^item> The meaning of the generated SQL. \<open>Sql_Fragment\<close>: expressions, conditions, table functions
    and joins, with their text in both dialects and their value on rows. \<open>Filter_Semantics\<close>: the
    clauses of the object filters. \<open>Cursor_Semantics\<close>: the clause of a cursor against ORDER BY.
    \<open>Relation_Semantics\<close>: the joins of the relations.
    \<open>Subquery_Semantics\<close>: the subqueries that the traversal writes for the relation blocks.
    \<open>Synced_Objects\<close>: the rows of the event handler as rows of the fragment.
  \<^item> Write path. \<open>Object_Store\<close>: \<^verbatim>\<open>store/\<close>, models, migration and every operation of the
    interface \<open>Store\<close>. \<open>Sync_Discovery\<close>: \<^verbatim>\<open>sync/blacklist.go\<close> and \<^verbatim>\<open>sync/discovery.go\<close>.
    \<open>Sync_Handler\<close>: \<^verbatim>\<open>sync/handler.go\<close>. \<open>Sync_Kcp\<close>: \<^verbatim>\<open>sync/kcp.go\<close>. \<open>Sync_Controller\<close> and
    \<open>Crd_Watch\<close>: \<^verbatim>\<open>sync/controller.go\<close>. \<open>Garbage_Collector\<close>: \<^verbatim>\<open>gc/gc.go\<close>.
  \<^item> The program. \<open>Cli_Options\<close>: \<^verbatim>\<open>cmd/kuery/main.go\<close>. \<open>Api_Server\<close>: \<^verbatim>\<open>server/apiserver.go\<close>, the
    registration of the API (\<^verbatim>\<open>groupversion_info.go\<close>, \<^verbatim>\<open>openapi.go\<close>), its scheme and codecs, the
    flags, and the configuration that the start builds, access control included.

  \<^bold>\<open>How state and effects correspond.\<close> A struct is a record, an error a value of \<open>kerror\<close>, an
  \<open>int32\<close> or \<open>int64\<close> a word, a time a number of nanoseconds. A Go map that is iterated is a
  list of pairs in the order the run-time chose, so that a theorem holds for every order.
  The database is a parameter everywhere: for the read path the answers to a statement
  (\<open>database\<close>), for the write path the calls of GORM (\<open>gorm\<close>), each of which may fail, with
  the documented effect on the rows as the assumptions of the locale \<open>gorm_db\<close>. The locale
  \<open>store_contract\<close> states what the interface \<open>Store\<close> promises its clients; the sublocale
  declaration proves it for the store of \<^verbatim>\<open>store.go\<close>, and discovery, handler, controller and
  collector are verified against it. The accessors of \<open>Unstructured\<close>, \<open>ParseGroupVersion\<close>,
  the discovery client, \<open>uuid.NewSHA1\<close> and the clock are parameters too, and so are the
  Prometheus client (locale \<open>prometheus_client\<close>), the generic API server (\<open>generic_server\<close>) and the
  copy functions of library types (\<open>api_library\<close>). Every property that assumes something of a
  parameter has a witness in which the parameter is a concrete function in memory. For most of
  the program a pointer is its value; only \<open>Deep_Copy\<close>, where sharing is the subject, has
  addresses.

  \<^bold>\<open>What is shown.\<close> Validation accepts exactly the specs within the limits. The statements
  generated for clean specs bind as many values as they have placeholders, generation ends and
  succeeds for supported specs, the aliases of the levels are distinct and the number of subqueries is
  bounded. The condition of a supported object filter fails exactly on PostgreSQL when it must unnest
  short names or categories that were recorded as null; otherwise it holds of exactly the objects
  that meet the filter. The join of a relation finds, on well-formed rows, exactly the related objects;
  only for references it finds more, because it does not compare kinds: the documented relation is
  \<open>refers\<close>, what the join finds is \<open>mentions\<close>, and the statements keep the two apart (\<open>children\<close>,
  \<open>found\<close>). The subquery of a relation block finds the ends of all chains of such objects along its
  path, and rows stored by the last informer events are joined accordingly. Cursors decode to what
  they were built from; for text columns in one direction the clause of a cursor selects exactly
  what ORDER BY places after the row, so that ties and, for creation times, missing values are
  skipped. \<open>Execute\<close> fails exactly when one of its stages fails, with the error of the first. Tree
  assembly is total, keeps every row whose parent is present exactly once, and
  an answer is bounded. The store is a map from keys to rows with unique keys; the handler's
  table follows the last event of every object; discovery and the controller never let a
  blacklisted object be stored or watched by a handler, in any interleaving, although every engaged
  cluster has its definitions of custom resources watched; contexts are not leaked
  when calls on one cluster do not overlap; the collector removes only what belongs to an
  expired cluster, leaves no orphans, and makes progress. The server routes the queries of the version
  that its scheme registers, and nothing else; the CRD watcher is a sequence of discovery runs thirty
  seconds apart; the metrics count every query once and change no answer; deep copies are total, well
  typed and share no memory with the original. Theorems that show a deviation of
  the code from its documentation are stated as the code behaves.

  \<^bold>\<open>Termination and fuel.\<close> The JSON decoder uses fuel, twice the length of the text, and
  \<open>pval_fuel\<close> shows that more changes nothing. The deep copies of the recursive types use fuel
  because a cyclic value would be copied forever; fuel above the number of nodes of the value is
  proved to be enough. The traversal \<open>bfs\<close> and the tree conversion terminate by a measure.

  \<^bold>\<open>Interleaving.\<close> \<open>sync_step\<close> interleaves the locked sections of the controller with the
  work between them; the database calls of one call of \<open>Engage\<close> between its two sections are
  one step. Cancelling a context takes effect in the step that cancels it, but events of a
  cancelled context may still be delivered.

  \<^bold>\<open>Not modelled.\<close> The execution of SQL by the database beyond the fragment of \<open>Sql_Fragment\<close>: the
  recursive queries of transitive relations, ordering, limits and the projection are verified as
  texts, not as results. What the generic API server does with a request. The configuration values that \<^verbatim>\<open>main.go\<close> hands to the API server libraries
  (serving, effective version, OpenAPI switches), logging, the debug print of the statement and
  the cancellation of a request by its time-out, which is one of the errors the database may
  return. \<^verbatim>\<open>doc.go\<close> has only markers for generators.
\<close>

subsection \<open>A cluster from engagement to collection\<close>

text \<open>The columns of a cluster's row after its upsert.\<close>

lemma upsert_cluster_columns:
  assumes "r \<in> set (upsert_rows [''name''] clusterUpdates (clusterRow c) rs)" "r ''name'' = CString (cm_Name c)"
    and "col \<in> set clusterUpdates"
  shows "r col = clusterRow c col"
proof -
  have n: "clusterRow c ''name'' = CString (cm_Name c)" by (simp add: clusterRow_def row_of_def)
  from assms(1) consider "r = clusterRow c" | "r \<in> set rs" "\<not> same_on [''name''] (clusterRow c) r"
    | y where "r = assign clusterUpdates (clusterRow c) y"
    by (auto simp: upsert_rows_def list_ex_iff split: if_splits)
  then show ?thesis
  proof cases
    case 2
    with assms(2) n show ?thesis by (simp add: same_on_def)
  qed (use assms(3) in \<open>simp_all add: assign_def\<close>)
qed

lemma upsert_cluster_exists:
  "\<exists>r \<in> set (upsert_rows [''name''] clusterUpdates (clusterRow c) rs). r ''name'' = CString (cm_Name c)"
proof -
  have "clusterRow c ''name'' = CString (cm_Name c)" by (simp add: clusterRow_def row_of_def)
  moreover have "map (clusterRow c) [''name''] \<in> (\<lambda>x. map x [''name'']) ` set (upsert_rows [''name''] clusterUpdates (clusterRow c) rs)"
    by (simp only: upsert_rows_keys [OF type_updates(2)] insert_iff simp_thms)
  ultimately show ?thesis by auto
qed

lemma engageIO_clusters:
  assumes "gorm_db g tables" "sc_Store sc = gormStore g" "engageIO sc env n db = (db', Inr ws)"
  shows "tables db' clustersTable = upsert_rows [''name''] clusterUpdates
    (clusterRow \<lparr>cm_Name = n, cm_Status = ''active'', cm_LastSeen = en_now env, cm_EngagedAt = Some (en_now env),
       cm_Labels = None, cm_TTL = 3600\<rparr>) (tables db clustersTable)"
proof -
  let ?c = "\<lparr>cm_Name = n, cm_Status = ''active'', cm_LastSeen = en_now env, cm_EngagedAt = Some (en_now env),
       cm_Labels = None, cm_TTL = 3600\<rparr>"
  note contract = gorm_db.contract [OF assms(1)]
  obtain db1 where 1: "s_UpsertCluster (gormStore g) db ?c = Inr db1"
    and 2: "RunDiscovery (en_parseGV env) n (en_resources env) (gormStore g) (sc_Blacklist sc) db1 = Inr (db', ws)"
    using assms(2, 3) by (auto simp: engageIO_def split: sum.splits option.splits)
  show ?thesis
    using store_contract.discovery_sound(1) [OF contract 2] store_contract.UpsertCluster [OF contract 1]
    by (auto simp: only_types_def)
qed

text \<open>The record of a cluster after its upsert, as the collector sees it.\<close>

lemma engaged_record:
  assumes "r \<in> set (upsert_rows [''name''] clusterUpdates (clusterRow c) rs)" "r ''name'' = CString (cm_Name c)"
    and "cm_Status c = ''active''"
  shows "\<not> expired_at now r"
  using upsert_cluster_columns [OF assms(1, 2), of "''status''"] assms(3)
  by (simp add: expired_at_def clusterUpdates_def clusterRow_def row_of_def)

lemma stale_record:
  assumes "r \<in> set (upsert_rows [''name''] clusterUpdates (clusterRow c) rs)" "r ''name'' = CString (cm_Name c)"
    and "cm_Status c = ''stale''" "cm_LastSeen c = t" "cm_TTL c = 0"
  shows "expired_at now r \<longleftrightarrow> t + 3600 * second \<le> now"
proof -
  have cols: "r ''status'' = CString ''stale''" "r ''last_seen'' = CTime t" "r ''ttl'' = CInt 3600"
    using upsert_cluster_columns [OF assms(1, 2)] assms(3-5)
    by (simp_all add: clusterUpdates_def clusterRow_def row_of_def)
  then have "expiry (rowClusterModel r) = t + 3600 * second"
    by (simp add: expiry_exact rowClusterModel_def col_time_def second_def)
  with cols show ?thesis by (auto simp: expired_at_def older_def second_def)
qed

text \<open>C22. The life of a cluster across the controller, the store and the collector: after a
  successful \<open>Engage\<close> the cluster is recorded and never expired; after a successful
  \<open>Disengage\<close> it is recorded and the collector regards it as expired exactly one hour later,
  whatever time to live its record had before.\<close>

theorem cluster_lifecycle:
  assumes "gorm_db g tables" and "sc_Store sc = gormStore g"
  shows "(Engage sc env n st = (st1, None) \<longrightarrow>
      (\<exists>r \<in> set (tables (ss_db st1) clustersTable). r ''name'' = CString n) \<and>
      (\<forall>r \<in> set (tables (ss_db st1) clustersTable). r ''name'' = CString n \<longrightarrow> \<not> expired_at now r))
    \<and> (Disengage sc t n st = (st2, None) \<longrightarrow>
      (\<exists>r \<in> set (tables (ss_db st2) clustersTable). r ''name'' = CString n) \<and>
      (\<forall>r \<in> set (tables (ss_db st2) clustersTable). r ''name'' = CString n \<longrightarrow>
        (expired_at now r \<longleftrightarrow> t + 3600 * second \<le> now)))"
proof (intro conjI impI)
  assume e: "Engage sc env n st = (st1, None)"
  let ?c = "\<lparr>cm_Name = n, cm_Status = ''active'', cm_LastSeen = en_now env, cm_EngagedAt = Some (en_now env),
       cm_Labels = None, cm_TTL = 3600\<rparr>"
  obtain db' ws where io: "engageIO sc env n (ss_db (dropCluster n st)) = (db', Inr ws)" and st1: "ss_db st1 = db'"
    using e by (auto simp: Engage_def Let_def engageFinish_def split: prod.splits sum.splits)
  note rows = engageIO_clusters [OF assms io]
  show "\<exists>r \<in> set (tables (ss_db st1) clustersTable). r ''name'' = CString n"
    using upsert_cluster_exists [of ?c] unfolding st1 rows by simp
  show "\<forall>r \<in> set (tables (ss_db st1) clustersTable). r ''name'' = CString n \<longrightarrow> \<not> expired_at now r"
    using engaged_record [of _ ?c] unfolding st1 rows by simp
next
  assume d: "Disengage sc t n st = (st2, None)"
  let ?c = "\<lparr>cm_Name = n, cm_Status = ''stale'', cm_LastSeen = t, cm_EngagedAt = None, cm_Labels = None, cm_TTL = 0\<rparr>"
  have "s_UpsertCluster (gormStore g) (ss_db (dropCluster n st)) ?c = Inr (ss_db st2)"
    using d assms(2) by (auto simp: Disengage_def disengageMark_def Let_def split: sum.splits)
  then have rows: "tables (ss_db st2) clustersTable =
      upsert_rows [''name''] clusterUpdates (clusterRow ?c) (tables (ss_db (dropCluster n st)) clustersTable)"
    using store_contract.UpsertCluster [OF gorm_db.contract [OF assms(1)]] by simp
  show "\<exists>r \<in> set (tables (ss_db st2) clustersTable). r ''name'' = CString n"
    using upsert_cluster_exists [of ?c] unfolding rows by simp
  show "\<forall>r \<in> set (tables (ss_db st2) clustersTable). r ''name'' = CString n \<longrightarrow>
      (expired_at now r \<longleftrightarrow> t + 3600 * second \<le> now)"
    using stale_record [of _ ?c] unfolding rows by simp
qed

theorem cluster_lifecycle_witness:
  "\<exists>st2. Disengage example_controller 7 ''east'' (initial_state gc_tables) = (st2, None) \<and>
     (\<exists>r \<in> set (ss_db st2 clustersTable). r ''name'' = CString ''east'' \<and> expired_at 3600000000007 r)"
proof -
  obtain st2 where d: "Disengage example_controller 7 ''east'' (initial_state gc_tables) = (st2, None)"
    by (simp add: Disengage_def disengageMark_def gormStore_def UpsertCluster_def mem_gorm_def Let_def)
  from cluster_lifecycle [OF mem.gorm_db_axioms example_controller_simps(1), THEN conjunct2, rule_format, OF d, of 3600000000007]
  have "\<exists>r \<in> set (ss_db st2 clustersTable). r ''name'' = CString ''east'' \<and> expired_at 3600000000007 r"
    by (auto simp: second_def)
  with d show ?thesis by blast
qed

end
